(* ===== verification/Prelude.thy ===== *)
theory Prelude
  imports Main "HOL-Library.AList" "HOL-Library.Char_ord" "HOL-Library.List_Lexorder"
    "HOL-Library.Multiset"
begin

text \<open>
  Shared vocabulary of the development: Go errors and their wrapping, the outcome of a Go
  call (value, error or panic), state passing over a world the operator does not own, the
  history of external calls with backward proof rules for it, and the parts of Go's
  \<^verbatim>\<open>strings\<close>, \<^verbatim>\<open>slices\<close> and map semantics that several components use.
\<close>

section \<open>Proof collections\<close>

named_theorems trace_intros \<open>backward rules for the history of external calls\<close>
named_theorems ok_simps \<open>what a successful run of a combinator means\<close>
named_theorems go_simps \<open>unfolding rules for the control-flow combinators\<close>

section \<open>Go errors\<close>

text \<open>
  The three sentinel errors of package \<^verbatim>\<open>controller\<close>, an error made from a text, the
  status error of the Kubernetes API machinery (with its reason), an error that comes from
  other code, and the two ways \<^verbatim>\<open>fmt.Errorf\<close> is used: with \<open>%w\<close> the cause stays
  reachable for \<^verbatim>\<open>errors.Is\<close> and \<^verbatim>\<open>errors.As\<close>, with \<open>%v\<close> only its text is kept.
\<close>

datatype go_error =
    ErrTunnelNotFound
  | ErrCloudflareTunnelNotFound
  | ErrDefaultCloudflareTunnelNotExists
  | NewError string
  | StatusError string
  | ForeignError string
  | Errorf_w string go_error
  | Errorf_v string go_error

fun errors_Is :: "go_error \<Rightarrow> go_error \<Rightarrow> bool" where
  "errors_Is (Errorf_w msg e) target = (Errorf_w msg e = target \<or> errors_Is e target)"
| "errors_Is e target = (e = target)"

text \<open>\<^verbatim>\<open>apierrors.IsNotFound\<close> looks for a status error along the \<open>%w\<close> chain.\<close>

fun IsNotFound :: "go_error \<Rightarrow> bool" where
  "IsNotFound (StatusError reason) = (reason = ''NotFound'')"
| "IsNotFound (Errorf_w msg e) = IsNotFound e"
| "IsNotFound e = False"

section \<open>Outcomes and state passing\<close>

datatype 'a outcome = Ok 'a | Err go_error | Panic string

type_synonym ('s, 'a) io = "'s \<Rightarrow> 'a outcome \<times> 's"

definition retE :: "'a \<Rightarrow> ('s, 'a) io" where
  "retE x = (\<lambda>s. (Ok x, s))"

definition throwE :: "go_error \<Rightarrow> ('s, 'a) io" where
  "throwE e = (\<lambda>s. (Err e, s))"

definition panicE :: "string \<Rightarrow> ('s, 'a) io" where
  "panicE msg = (\<lambda>s. (Panic msg, s))"

text \<open>
  \<open>handle m h k\<close> is \<^verbatim>\<open>x, err := m(); if err != nil { h(err) }; k(x)\<close>. A panic is not an
  error value: it leaves the function whatever \<open>h\<close> is.
\<close>

definition handle :: "('s, 'a) io \<Rightarrow> (go_error \<Rightarrow> ('s, 'b) io) \<Rightarrow> ('a \<Rightarrow> ('s, 'b) io) \<Rightarrow> ('s, 'b) io" where
  "handle m h k = (\<lambda>s. case m s of
      (Ok x, s') \<Rightarrow> k x s'
    | (Err e, s') \<Rightarrow> h e s'
    | (Panic p, s') \<Rightarrow> (Panic p, s'))"

definition bindE :: "('s, 'a) io \<Rightarrow> ('a \<Rightarrow> ('s, 'b) io) \<Rightarrow> ('s, 'b) io" where
  "bindE m k = handle m throwE k"

text \<open>\<^verbatim>\<open>if err := m(); err != nil { return fmt.Errorf("msg: %w", err) }\<close> and its \<open>%v\<close> twin.\<close>

definition wrapW :: "string \<Rightarrow> ('s, 'a) io \<Rightarrow> ('s, 'a) io" where
  "wrapW msg m = handle m (\<lambda>e. throwE (Errorf_w msg e)) retE"

definition wrapV :: "string \<Rightarrow> ('s, 'a) io \<Rightarrow> ('s, 'a) io" where
  "wrapV msg m = handle m (\<lambda>e. throwE (Errorf_v msg e)) retE"

text \<open>A \<^verbatim>\<open>for\<close> loop over a slice whose body may return early with an error.\<close>

fun forE :: "'a list \<Rightarrow> ('a \<Rightarrow> ('s, unit) io) \<Rightarrow> ('s, unit) io" where
  "forE [] body = retE ()"
| "forE (x # xs) body = bindE (body x) (\<lambda>_. forE xs body)"

text \<open>A pure computation that may fail, inside a stateful function.\<close>

definition liftO :: "'a outcome \<Rightarrow> ('s, 'a) io" where
  "liftO r = (\<lambda>s. (r, s))"

lemma handle_ret [simp]: "handle (retE x) h k = k x"
  by (simp add: handle_def retE_def)

lemma handle_throw [simp]: "handle (throwE e) h k = h e"
  by (simp add: handle_def throwE_def)

lemma handle_panic [simp]: "handle (panicE p) h k = panicE p"
  by (simp add: handle_def panicE_def fun_eq_iff)

lemma handle_assoc:
  "handle (handle m h k) h' k' = handle m (\<lambda>e. handle (h e) h' k') (\<lambda>x. handle (k x) h' k')"
  by (auto simp: handle_def fun_eq_iff split: prod.splits outcome.splits)

lemma bindE_assoc: "bindE (bindE m f) g = bindE m (\<lambda>x. bindE (f x) g)"
  by (auto simp: bindE_def handle_def throwE_def fun_eq_iff split: prod.splits outcome.splits)

lemma bindE_retE: "bindE (retE x) f = f x"
  by (simp add: bindE_def)

lemma liftO_simps [simp]:
  "liftO (Ok x) = retE x" "liftO (Err e) = throwE e" "liftO (Panic p) = panicE p"
  by (simp_all add: liftO_def retE_def throwE_def panicE_def)

lemmas io_defs = retE_def throwE_def panicE_def handle_def bindE_def wrapW_def wrapV_def

section \<open>The history of external calls\<close>

text \<open>
  The operator acts only through calls into code it does not own (the Kubernetes API, the
  Cloudflare API). Their effect is an unknown function on an unknown world \<open>'w\<close>, which
  also covers everything other clients do between two calls. \<open>trace\<close> is a history
  variable: \<open>logged ev m\<close> runs the call \<open>m\<close> on the world and records the event with the
  call's reply. No definition of the model reads the history.
\<close>

record ('w, 'e) sys =
  world :: 'w
  trace :: "'e list"

definition logged :: "('a outcome \<Rightarrow> 'e) \<Rightarrow> ('w, 'a) io \<Rightarrow> (('w, 'e) sys, 'a) io" where
  "logged ev m = (\<lambda>s. case m (world s) of (r, w) \<Rightarrow> (r, s\<lparr>world := w, trace := trace s @ [ev r]\<rparr>))"

definition emit :: "'e \<Rightarrow> (('w, 'e) sys, unit) io" where
  "emit e = (\<lambda>s. (Ok (), s\<lparr>trace := trace s @ [e]\<rparr>))"

lemma retE_eq [ok_simps]: "retE x s = (r, s') \<longleftrightarrow> r = Ok x \<and> s' = s"
  by (auto simp: retE_def)

lemma throwE_eq [ok_simps]: "throwE e s = (r, s') \<longleftrightarrow> r = Err e \<and> s' = s"
  by (auto simp: throwE_def)

lemma panicE_eq [ok_simps]: "panicE p s = (r, s') \<longleftrightarrow> r = Panic p \<and> s' = s"
  by (auto simp: panicE_def)

lemma liftO_eq [ok_simps]: "liftO x s = (r, s') \<longleftrightarrow> x = r \<and> s' = s"
  by (auto simp: liftO_def)

lemma logged_eq [ok_simps]: "logged ev m s = (r, s') \<longleftrightarrow>
    (\<exists>w. m (world s) = (r, w) \<and> s' = s\<lparr>world := w, trace := trace s @ [ev r]\<rparr>)"
  by (auto simp: logged_def split: prod.splits)

lemma emit_eq [ok_simps]: "emit e s = (r, s') \<longleftrightarrow> r = Ok () \<and> s' = s\<lparr>trace := trace s @ [e]\<rparr>"
  by (auto simp: emit_def)

lemma bindE_Ok [ok_simps]: "bindE m k s = (Ok y, s'') \<longleftrightarrow>
    (\<exists>x s'. m s = (Ok x, s') \<and> k x s' = (Ok y, s''))"
  by (auto simp: bindE_def handle_def throwE_def split: prod.splits outcome.splits)

lemma handle_Ok [ok_simps]: "handle m h k s = (Ok y, s'') \<longleftrightarrow>
    (\<exists>x s'. m s = (Ok x, s') \<and> k x s' = (Ok y, s'')) \<or>
    (\<exists>e s'. m s = (Err e, s') \<and> h e s' = (Ok y, s''))"
  by (auto simp: handle_def split: prod.splits outcome.splits)

lemma wrapV_Ok [ok_simps]: "wrapV msg m s = (Ok y, s') \<longleftrightarrow> m s = (Ok y, s')"
  by (auto simp: wrapV_def handle_def retE_def throwE_def split: prod.splits outcome.splits)

lemma wrapW_Ok [ok_simps]: "wrapW msg m s = (Ok y, s') \<longleftrightarrow> m s = (Ok y, s')"
  by (auto simp: wrapW_def handle_def retE_def throwE_def split: prod.splits outcome.splits)

text \<open>The events one run adds to the history.\<close>

definition events_of :: "(('w, 'e) sys, 'a) io \<Rightarrow> ('w, 'e) sys \<Rightarrow> 'e list" where
  "events_of m s = drop (length (trace s)) (trace (snd (m s)))"

text \<open>
  \<open>traces R m\<close>: in every world, \<open>m\<close> only appends to the history, and the appended
  events and the outcome satisfy \<open>R\<close>. The rules below compute it backwards through the
  program, so that a property of every run reduces to one goal per path.
\<close>

definition traces :: "('e list \<Rightarrow> 'a outcome \<Rightarrow> bool) \<Rightarrow> (('w, 'e) sys, 'a) io \<Rightarrow> bool" where
  "traces R m \<longleftrightarrow> (\<forall>s. \<exists>es. trace (snd (m s)) = trace s @ es \<and> R es (fst (m s)))"

lemma tracesD: "traces R m \<Longrightarrow> R (events_of m s) (fst (m s))"
  by (auto simp: traces_def events_of_def dest!: spec [of _ s])

lemma traces_append: "traces R m \<Longrightarrow> trace (snd (m s)) = trace s @ events_of m s"
  by (auto simp: traces_def events_of_def dest!: spec [of _ s])

lemma traces_mono: "traces A m \<Longrightarrow> (\<And>es r. A es r \<Longrightarrow> R es r) \<Longrightarrow> traces R m"
  unfolding traces_def by blast

lemma traces_conj: "traces A m \<Longrightarrow> traces B m \<Longrightarrow> traces (\<lambda>es r. A es r \<and> B es r) m"
  unfolding traces_def by (metis same_append_eq)

lemma traces_retE [trace_intros]: "R [] (Ok x) \<Longrightarrow> traces R (retE x)"
  by (simp add: traces_def retE_def)

lemma traces_throwE [trace_intros]: "R [] (Err e) \<Longrightarrow> traces R (throwE e)"
  by (simp add: traces_def throwE_def)

lemma traces_panicE [trace_intros]: "R [] (Panic p) \<Longrightarrow> traces R (panicE p)"
  by (simp add: traces_def panicE_def)

lemma traces_liftO [trace_intros]: "R [] r \<Longrightarrow> traces R (liftO r)"
  by (simp add: traces_def liftO_def)

lemma traces_logged [trace_intros]: "(\<And>r. R [ev r] r) \<Longrightarrow> traces R (logged ev m)"
  by (auto simp: traces_def logged_def split: prod.splits)

lemma traces_emit [trace_intros]: "R [e] (Ok ()) \<Longrightarrow> traces R (emit e)"
  by (simp add: traces_def emit_def)

lemma traces_handle:
  assumes m: "traces A m"
    and ok: "\<And>x es0. A es0 (Ok x) \<Longrightarrow> traces (\<lambda>es. R (es0 @ es)) (k x)"
    and err: "\<And>e es0. A es0 (Err e) \<Longrightarrow> traces (\<lambda>es. R (es0 @ es)) (h e)"
    and panic: "\<And>p es0. A es0 (Panic p) \<Longrightarrow> R es0 (Panic p)"
  shows "traces R (handle m h k)"
  unfolding traces_def
proof
  fix s
  obtain r s1 where ms: "m s = (r, s1)" by (cases "m s")
  with m obtain es0 where es0: "trace s1 = trace s @ es0" and A: "A es0 r"
    by (auto simp: traces_def dest!: spec [of _ s])
  show "\<exists>es. trace (snd (handle m h k s)) = trace s @ es \<and> R es (fst (handle m h k s))"
  proof (cases r)
    case (Ok x)
    with A have "traces (\<lambda>es. R (es0 @ es)) (k x)" by (auto intro: ok)
    then obtain es where "trace (snd (k x s1)) = trace s1 @ es" "R (es0 @ es) (fst (k x s1))"
      unfolding traces_def by blast
    with Ok ms es0 show ?thesis by (auto simp: handle_def)
  next
    case (Err e)
    with A have "traces (\<lambda>es. R (es0 @ es)) (h e)" by (auto intro: err)
    then obtain es where "trace (snd (h e s1)) = trace s1 @ es" "R (es0 @ es) (fst (h e s1))"
      unfolding traces_def by blast
    with Err ms es0 show ?thesis by (auto simp: handle_def)
  next
    case (Panic p)
    with panic A ms es0 show ?thesis by (auto simp: handle_def)
  qed
qed

text \<open>The first step of a function is most often one logged call: its events are known exactly.\<close>

lemma traces_handle_logged [trace_intros]:
  assumes "\<And>x. traces (\<lambda>es. R (ev (Ok x) # es)) (k x)"
    and "\<And>e. traces (\<lambda>es. R (ev (Err e) # es)) (h e)"
    and "\<And>p. R [ev (Panic p)] (Panic p)"
  shows "traces R (handle (logged ev m) h k)"
  by (rule traces_handle [where A = "\<lambda>es r. es = [ev r]"]) (auto intro: traces_logged assms)

text \<open>When more is known of the reply than its type.\<close>

lemma traces_handle_reply:
  assumes reply: "\<And>w. P (fst (m w))"
    and "\<And>x. P (Ok x) \<Longrightarrow> traces (\<lambda>es. R (ev (Ok x) # es)) (k x)"
    and "\<And>e. P (Err e) \<Longrightarrow> traces (\<lambda>es. R (ev (Err e) # es)) (h e)"
    and "\<And>p. R [ev (Panic p)] (Panic p)"
  shows "traces R (handle (logged ev m) h k)"
proof (rule traces_handle [where A = "\<lambda>es r. es = [ev r] \<and> P r"])
  show "traces (\<lambda>es r. es = [ev r] \<and> P r) (logged ev m)"
    using reply by (auto simp: traces_def logged_def split: prod.splits) (metis fst_conv)
qed (auto intro: assms)

lemma traces_handle_emit [trace_intros]:
  "traces (\<lambda>es. R (e # es)) (k ()) \<Longrightarrow> traces R (handle (emit e) h k)"
  by (rule traces_handle [where A = "\<lambda>es r. es = [e] \<and> r = Ok ()"]) (auto intro: traces_emit)

lemma traces_handle_liftO [trace_intros]:
  assumes "\<And>x. r = Ok x \<Longrightarrow> traces R (k x)"
    and "\<And>e. r = Err e \<Longrightarrow> traces R (h e)"
    and "\<And>p. r = Panic p \<Longrightarrow> R [] (Panic p)"
  shows "traces R (handle (liftO r) h k)"
  using assms by (cases r) (auto intro: traces_panicE)

lemma traces_handle_handle [trace_intros]:
  "traces R (handle m (\<lambda>e. handle (h e) h' k') (\<lambda>x. handle (k x) h' k')) \<Longrightarrow>
   traces R (handle (handle m h k) h' k')"
  by (simp add: handle_assoc)

lemma traces_if [trace_intros]:
  "(b \<Longrightarrow> traces R m) \<Longrightarrow> (\<not> b \<Longrightarrow> traces R n) \<Longrightarrow> traces R (if b then m else n)"
  by simp

lemma traces_handle_if [trace_intros]:
  "(b \<Longrightarrow> traces R (handle m h k)) \<Longrightarrow> (\<not> b \<Longrightarrow> traces R (handle n h k)) \<Longrightarrow>
   traces R (handle (if b then m else n) h k)"
  by simp

lemma traces_bindE [trace_intros]: "traces R (handle m throwE k) \<Longrightarrow> traces R (bindE m k)"
  by (simp add: bindE_def)

lemma traces_wrapW [trace_intros]:
  "traces R (handle m (\<lambda>e. throwE (Errorf_w msg e)) retE) \<Longrightarrow> traces R (wrapW msg m)"
  by (simp add: wrapW_def)

lemma traces_wrapV [trace_intros]:
  "traces R (handle m (\<lambda>e. throwE (Errorf_v msg e)) retE) \<Longrightarrow> traces R (wrapV msg m)"
  by (simp add: wrapV_def)

lemma handle_bindE [go_simps]:
  "handle (bindE m k) h' k' = handle m h' (\<lambda>x. handle (k x) h' k')"
  by (simp add: bindE_def handle_assoc)

lemma handle_wrapW [go_simps]:
  "handle (wrapW msg m) h' k' = handle m (\<lambda>e. h' (Errorf_w msg e)) k'"
  by (simp add: wrapW_def handle_assoc)

lemma handle_wrapV [go_simps]:
  "handle (wrapV msg m) h' k' = handle m (\<lambda>e. h' (Errorf_v msg e)) k'"
  by (simp add: wrapV_def handle_assoc)

text \<open>A loop whose body satisfies an invariant of events: every event of every round does.\<close>

lemma traces_forE_all:
  assumes "\<And>x. x \<in> set xs \<Longrightarrow> traces (\<lambda>es _. list_all P es) (body x)"
  shows "traces (\<lambda>es _. list_all P es) (forE xs body)"
  using assms
proof (induction xs)
  case Nil
  then show ?case by (auto intro: traces_retE)
next
  case (Cons x xs)
  have "traces (\<lambda>es _. list_all P es) (forE xs body)" using Cons by simp
  then show ?case
    unfolding forE.simps bindE_def using Cons.prems [of x]
    by (auto intro!: traces_handle [where A = "\<lambda>es _. list_all P es"] traces_throwE
        intro: traces_mono)
qed

text \<open>More generally, a property of event lists that is closed under concatenation.\<close>

lemma traces_forE_closed:
  assumes "\<And>x. x \<in> set xs \<Longrightarrow> traces (\<lambda>es _. P es) (body x)"
    and "P []" and "\<And>as bs. P as \<Longrightarrow> P bs \<Longrightarrow> P (as @ bs)"
  shows "traces (\<lambda>es _. P es) (forE xs body)"
  using assms(1)
proof (induction xs)
  case Nil
  then show ?case by (auto intro: traces_retE assms(2))
next
  case (Cons x xs)
  have "traces (\<lambda>es _. P es) (forE xs body)" using Cons by simp
  then show ?case
    unfolding forE.simps bindE_def using Cons.prems [of x] assms(3) [where bs = "[]"] assms(2,3)
    by (auto intro!: traces_handle [where A = "\<lambda>es _. P es"] traces_throwE
        intro: traces_mono)
qed

text \<open>\<open>each Q xs es\<close>: the events split into one part per element of the slice.\<close>

fun each :: "('a \<Rightarrow> 'e list \<Rightarrow> bool) \<Rightarrow> 'a list \<Rightarrow> 'e list \<Rightarrow> bool" where
  "each Q [] es = (es = [])"
| "each Q (x # xs) es = (\<exists>as bs. es = as @ bs \<and> Q x as \<and> each Q xs bs)"

lemma traces_forE_each:
  assumes "\<And>x. traces (\<lambda>es r. r = Ok () \<longrightarrow> Q x es) (body x)"
  shows "traces (\<lambda>es r. r = Ok () \<longrightarrow> each Q xs es) (forE xs body)"
proof (induction xs)
  case Nil
  then show ?case by (auto intro: traces_retE)
next
  case (Cons x xs)
  show ?case
    unfolding forE.simps bindE_def
    by (rule traces_handle [where A = "\<lambda>es r. r = Ok () \<longrightarrow> Q x es"])
      (auto intro!: assms traces_throwE intro: traces_mono [OF Cons.IH])
qed

lemma each_all: "each Q xs es \<Longrightarrow> (\<And>x as. Q x as \<Longrightarrow> list_all P as) \<Longrightarrow> list_all P es"
  by (induction xs arbitrary: es) auto

text \<open>A loop that ran to its end keeps an invariant indexed by the elements handled so far.\<close>

lemma forE_Ok_induct:
  assumes "forE xs body s = (Ok (), s')" and "I D s"
    and "\<And>x D s s'. x \<in> set xs \<Longrightarrow> I D s \<Longrightarrow> body x s = (Ok (), s') \<Longrightarrow> I (insert x D) s'"
  shows "I (D \<union> set xs) s'"
  using assms
proof (induction xs arbitrary: s D)
  case Nil
  then show ?case by (simp add: retE_eq)
next
  case (Cons x xs)
  from Cons.prems(1) obtain s1 where "body x s = (Ok (), s1)" "forE xs body s1 = (Ok (), s')"
    by (auto simp: bindE_Ok)
  with Cons.prems Cons.IH [of s1 "insert x D"] show ?case by auto
qed

section \<open>Order of events\<close>

text \<open>\<open>preceded A B es\<close>: every event of kind \<open>B\<close> has an earlier event of kind \<open>A\<close>.\<close>

fun preceded :: "('e \<Rightarrow> bool) \<Rightarrow> ('e \<Rightarrow> bool) \<Rightarrow> 'e list \<Rightarrow> bool" where
  "preceded A B [] = True"
| "preceded A B (e # es) = (\<not> B e \<and> (A e \<or> preceded A B es))"

lemma preceded_iff:
  "preceded A B es \<longleftrightarrow> (\<forall>i < length es. B (es ! i) \<longrightarrow> (\<exists>j < i. A (es ! j)))"
proof (induction es)
  case Nil
  then show ?case by simp
next
  case (Cons e es)
  show ?case
    by (auto simp: Cons.IH All_less_Suc2 Ex_less_Suc2)
qed

lemma preceded_none: "list_all (\<lambda>e. \<not> B e) es \<Longrightarrow> preceded A B es"
  by (induction es) auto

lemma preceded_append:
  "preceded A B (xs @ ys) \<longleftrightarrow>
     preceded A B xs \<and> (list_ex A xs \<or> preceded A B ys)"
  by (induction xs) auto

section \<open>Lists\<close>

lemma filter_eq_ConsD: "filter P xs = y # ys \<Longrightarrow> y \<in> set xs \<and> P y"
  by (metis filter_eq_Cons_iff in_set_conv_decomp)

section \<open>Go strings\<close>

text \<open>Strings are lists of bytes. \<^verbatim>\<open>strings.Compare\<close> is bytewise lexicographic.\<close>

definition strings_Compare :: "string \<Rightarrow> string \<Rightarrow> int" where
  "strings_Compare a b = (if a = b then 0 else if a < b then -1 else 1)"

text \<open>
  \<^verbatim>\<open>strings.Split(v, sep)\<close> for a one-byte separator: always at least one element.
\<close>

fun split_go :: "char \<Rightarrow> string \<Rightarrow> string \<Rightarrow> string list" where
  "split_go sep acc [] = [rev acc]"
| "split_go sep acc (c # cs) =
     (if c = sep then rev acc # split_go sep [] cs else split_go sep (c # acc) cs)"

definition strings_Split :: "string \<Rightarrow> char \<Rightarrow> string list" where
  "strings_Split v sep = split_go sep [] v"

lemma split_go_length: "length (split_go sep acc v) = Suc (count_list v sep)"
  by (induction v arbitrary: acc) auto

lemma split_go_nonempty [simp]: "split_go sep acc v \<noteq> []"
  by (metis list.size(3) nat.distinct(1) split_go_length)

lemma split_go_no_sep: "sep \<notin> set v \<Longrightarrow> split_go sep acc v = [rev acc @ v]"
  by (induction v arbitrary: acc) auto

lemma split_go_sep:
  "sep \<notin> set u \<Longrightarrow> split_go sep acc (u @ sep # v) = (rev acc @ u) # split_go sep [] v"
  by (induction u arbitrary: acc) auto

lemma length_strings_Split: "length (strings_Split v sep) = Suc (count_list v sep)"
  by (simp add: strings_Split_def split_go_length)

lemma split_go_elem_no_sep: "sep \<notin> set acc \<Longrightarrow> x \<in> set (split_go sep acc v) \<Longrightarrow> sep \<notin> set x"
proof (induction v arbitrary: acc)
  case Nil
  then show ?case by simp
next
  case (Cons c v)
  show ?case
  proof (cases "c = sep")
    case True
    with Cons.prems Cons.IH [of "[]"] show ?thesis by auto
  next
    case False
    with Cons.prems Cons.IH [of "c # acc"] show ?thesis by auto
  qed
qed

text \<open>
  \<^verbatim>\<open>strings.ToLower\<close> on the ASCII letters; other bytes are kept. The operator compares the
  result with ASCII words only; of the non-ASCII letters that Go maps to an ASCII letter, the
  dotted capital I and the Kelvin sign, only the first occurs in a word compared with
  (\<open>info\<close>, the default anyway).
\<close>

definition to_lower_char :: "char \<Rightarrow> char" where
  "to_lower_char c = (let n = (of_char c :: nat) in if 65 \<le> n \<and> n \<le> 90 then char_of (n + 32) else c)"

definition strings_ToLower :: "string \<Rightarrow> string" where
  "strings_ToLower s = map to_lower_char s"

section \<open>Sorting with a comparison function\<close>

text \<open>
  \<^verbatim>\<open>slices.SortFunc\<close> for the short slices of the program is insertion sort: each element
  moves left while it compares below its neighbour. The prefix sorted so far is kept
  reversed. \<open>key_order\<close> is what Go asks of the comparison function, together with the key
  on which it is total; under it the result is the only sorted arrangement, whatever the
  algorithm.
\<close>

fun insert_left :: "('a \<Rightarrow> 'a \<Rightarrow> int) \<Rightarrow> 'a \<Rightarrow> 'a list \<Rightarrow> 'a list" where
  "insert_left cmp x [] = [x]"
| "insert_left cmp x (y # ys) = (if cmp x y < 0 then y # insert_left cmp x ys else x # y # ys)"

definition slices_SortedFunc :: "'a list \<Rightarrow> ('a \<Rightarrow> 'a \<Rightarrow> int) \<Rightarrow> 'a list" where
  "slices_SortedFunc xs cmp = rev (fold (insert_left cmp) xs [])"

lemma mset_insert_left [simp]: "mset (insert_left cmp x ys) = add_mset x (mset ys)"
  by (induction ys) auto

lemma set_insert_left [simp]: "set (insert_left cmp x ys) = insert x (set ys)"
  by (induction ys) auto

lemma mset_fold_insert_left: "mset (fold (insert_left cmp) xs acc) = mset xs + mset acc"
  by (induction xs arbitrary: acc) auto

lemma mset_slices_SortedFunc [simp]: "mset (slices_SortedFunc xs cmp) = mset xs"
  by (simp add: slices_SortedFunc_def mset_fold_insert_left)

lemma set_slices_SortedFunc [simp]: "set (slices_SortedFunc xs cmp) = set xs"
  by (metis mset_slices_SortedFunc set_mset_mset)

locale key_order =
  fixes cmp :: "'a \<Rightarrow> 'a \<Rightarrow> int"
    and key :: "'a \<Rightarrow> 'k"
  assumes below_irrefl: "\<not> cmp a a < 0"
    and below_trans: "cmp a b < 0 \<Longrightarrow> cmp b c < 0 \<Longrightarrow> cmp a c < 0"
    and below_total: "key a \<noteq> key b \<Longrightarrow> cmp a b < 0 \<or> cmp b a < 0"
begin

lemma below_asym: "cmp a b < 0 \<Longrightarrow> \<not> cmp b a < 0"
  using below_irrefl below_trans by blast

lemma insert_left_sorted:
  assumes "sorted_wrt (\<lambda>x y. cmp y x < 0) ys" and "key x \<notin> key ` set ys"
  shows "sorted_wrt (\<lambda>x y. cmp y x < 0) (insert_left cmp x ys)"
  using assms
proof (induction ys)
  case Nil
  then show ?case by simp
next
  case (Cons y ys)
  then have "cmp y x < 0" if "\<not> cmp x y < 0"
    using below_total [of x y] that by auto
  with Cons show ?case by (auto intro: below_trans)
qed

lemma fold_insert_left_sorted:
  assumes "sorted_wrt (\<lambda>x y. cmp y x < 0) acc" and "distinct (map key (xs @ acc))"
  shows "sorted_wrt (\<lambda>x y. cmp y x < 0) (fold (insert_left cmp) xs acc)"
  using assms
proof (induction xs arbitrary: acc)
  case Nil
  then show ?case by simp
next
  case (Cons x xs)
  have "sorted_wrt (\<lambda>x y. cmp y x < 0) (insert_left cmp x acc)"
    using Cons.prems by (intro insert_left_sorted) auto
  moreover have "distinct (map key (xs @ insert_left cmp x acc))"
  proof -
    have "mset (map key (insert_left cmp x acc)) = mset (map key (x # acc))"
      by (simp add: mset_map)
    then have "mset (map key (xs @ insert_left cmp x acc)) = mset (map key ((x # xs) @ acc))"
      by simp
    with Cons.prems(2) show ?thesis by (metis mset_eq_imp_distinct_iff)
  qed
  ultimately show ?case by (simp add: Cons.IH)
qed

lemma sorted_func_sorted:
  "distinct (map key xs) \<Longrightarrow> sorted_wrt (\<lambda>x y. cmp x y < 0) (slices_SortedFunc xs cmp)"
  using fold_insert_left_sorted [of "[]" xs] by (simp add: slices_SortedFunc_def sorted_wrt_rev)

lemma sorted_unique:
  assumes "sorted_wrt (\<lambda>x y. cmp x y < 0) xs" and "sorted_wrt (\<lambda>x y. cmp x y < 0) ys"
    and "set xs = set ys"
  shows "xs = ys"
  using assms
proof (induction xs arbitrary: ys)
  case Nil
  then show ?case by simp
next
  case (Cons x xs)
  then obtain y zs where ys: "ys = y # zs" by (cases ys) auto
  have "x = y"
  proof (rule ccontr)
    assume "x \<noteq> y"
    with Cons.prems ys have "cmp y x < 0" "cmp x y < 0" by auto
    then show False using below_asym by blast
  qed
  moreover have "x \<notin> set xs" "y \<notin> set zs"
    using Cons.prems ys below_irrefl by fastforce+
  ultimately have "set xs = set zs" using Cons.prems(3) ys by auto
  with Cons ys \<open>x = y\<close> show ?case by auto
qed

lemma sorted_func_order_irrelevant:
  assumes "distinct (map key xs)" and "mset xs = mset ys"
  shows "slices_SortedFunc xs cmp = slices_SortedFunc ys cmp"
proof (rule sorted_unique)
  have "distinct (map key ys)"
    using assms by (metis mset_eq_imp_distinct_iff mset_map)
  then show "sorted_wrt (\<lambda>x y. cmp x y < 0) (slices_SortedFunc ys cmp)"
    by (rule sorted_func_sorted)
  show "sorted_wrt (\<lambda>x y. cmp x y < 0) (slices_SortedFunc xs cmp)"
    using assms(1) by (rule sorted_func_sorted)
  show "set (slices_SortedFunc xs cmp) = set (slices_SortedFunc ys cmp)"
    using assms(2) by (metis mset_eq_setD set_slices_SortedFunc)
qed

lemma sorted_func_fixpoint:
  assumes "sorted_wrt (\<lambda>x y. cmp x y < 0) xs" and "distinct (map key xs)"
  shows "slices_SortedFunc xs cmp = xs"
  using assms by (intro sorted_unique) (auto intro: sorted_func_sorted)

end

end
