(* ===== verification/ApiTypes.thy ===== *)
theory ApiTypes
  imports Prelude "HOL-Library.Word"
begin

text \<open>
  The data of the operator: the custom resource \<^verbatim>\<open>CloudflareTunnel\<close> of
  \<^verbatim>\<open>api/v1beta1/cloudflaretunnel_types.go\<close> field by field, and, of the Kubernetes types it is
  used with, the fields the operator reads or writes. Go strings are byte strings, a nilable
  map is an optional map, a nilable pointer or slice an option, an \<^verbatim>\<open>int32\<close> a 32-bit word.
  A value of a third-party type that the operator only passes on is a \<open>json\<close> tree.
\<close>

section \<open>Third-party values\<close>

datatype json =
    JNull | JBool bool | JInt int | JString string | JList "json list" | JObject "(string \<times> json) list"

type_synonym go_map = "(string \<rightharpoonup> string) option"

text \<open>Reading a Go map: a nil map reads as empty, a missing key as the zero value.\<close>

definition map_get :: "go_map \<Rightarrow> string \<Rightarrow> string option" where
  "map_get m k = (case m of None \<Rightarrow> None | Some f \<Rightarrow> f k)"

definition map_index :: "go_map \<Rightarrow> string \<Rightarrow> string" where
  "map_index m k = (case map_get m k of None \<Rightarrow> '''' | Some v \<Rightarrow> v)"

text \<open>\<^verbatim>\<open>if m == nil { m = make(...) }; for k, v := range entries { m[k] = v }\<close>\<close>

definition map_set_all :: "go_map \<Rightarrow> (string \<rightharpoonup> string) \<Rightarrow> go_map" where
  "map_set_all m entries = Some ((case m of None \<Rightarrow> Map.empty | Some f \<Rightarrow> f) ++ entries)"

lemma map_get_simps [simp]: "map_get None k = None" "map_get (Some f) k = f k"
  by (simp_all add: map_get_def)

lemma map_get_set_all: "map_get (map_set_all m es) k = (case es k of Some v \<Rightarrow> Some v | None \<Rightarrow> map_get m k)"
  by (auto simp: map_get_def map_set_all_def map_add_def split: option.splits)

type_synonym int32 = "32 word"
type_synonym int64 = "64 word"

record NamespacedName =
  nn_Namespace :: string
  nn_Name :: string

record ObjectMeta =
  om_Name :: string
  om_Namespace :: string
  om_UID :: string
  om_Labels :: go_map
  om_Annotations :: go_map
  om_Finalizers :: "string list"
  om_CreationTimestamp :: "string option"
  om_DeletionTimestamp :: "string option"
  om_OwnerReferences :: "json list"

definition zero_meta :: ObjectMeta where
  "zero_meta = \<lparr>om_Name = '''', om_Namespace = '''', om_UID = '''', om_Labels = None,
     om_Annotations = None, om_Finalizers = [], om_CreationTimestamp = None,
     om_DeletionTimestamp = None, om_OwnerReferences = []\<rparr>"

datatype IntOrString = IntVal int32 | StrVal string

record Condition =
  cond_Type :: string
  cond_Status :: string
  cond_Reason :: string
  cond_Message :: string
  cond_LastTransitionTime :: "string option"

section \<open>CloudflareTunnel\<close>

record CloudflareTunnelSettings =
  NameOverride :: string
  CatchAllRule :: string
  CAPool :: "string option"
  NoTLSVerify :: bool
  TLSTimeoutSeconds :: int32
  HTTP2Origin :: bool
  DisableChunkedEncoding :: bool
  ConnectTimeoutSeconds :: int32
  NoHappyEyeballs :: bool
  ProxyType :: string
  KeepAliveTimeoutSeconds :: int32
  KeepAliveConnections :: int32

record PDBSpec =
  pdbs_MinAvailable :: "IntOrString option"
  pdbs_MaxUnavailable :: "IntOrString option"

text \<open>
  A resource quantity: the zero value \<^verbatim>\<open>resource.Quantity{}\<close>, or one read from a manifest.
  \<^verbatim>\<open>corev1.ResourceList\<close> maps resource names to quantities.
\<close>

datatype Quantity = QuantityZero | Quantity string

type_synonym ResourceList = "string \<rightharpoonup> Quantity"

record ResourceRequirements =
  rr_Limits :: "ResourceList option"
  rr_Requests :: "ResourceList option"

text \<open>
  Apply configurations that occur in the spec and that the operator also builds itself: the
  fields it sets, and the remaining fields as a tree.
\<close>

record SecretKeySelectorApply =
  sks_Name :: string
  sks_Key :: string

record EnvVarApply =
  env_Name :: "string option"
  env_Value :: "string option"
  env_SecretKeyRef :: "SecretKeySelectorApply option"
  env_Rest :: "(string \<times> json) list"

record TopologySpreadConstraintApply =
  tsc_MaxSkew :: "int option"
  tsc_TopologyKey :: "string option"
  tsc_WhenUnsatisfiable :: "string option"
  tsc_MatchLabels :: "(string \<rightharpoonup> string) option"
  tsc_MatchLabelKeys :: "string list"
  tsc_Rest :: "(string \<times> json) list"

record PodSecurityContextApply =
  psc_Sysctls :: "(string \<times> string) list"
  psc_Rest :: "(string \<times> json) list"

record SecurityContextApply =
  sc_ReadOnlyRootFilesystem :: "bool option"
  sc_Rest :: "(string \<times> json) list"

record CloudflareTunnelSpec =
  spec_Default :: bool
  spec_Replicas :: int32
  spec_Resources :: ResourceRequirements
  spec_ImagePullSecrets :: "string list"
  spec_Image :: string
  spec_ArgsOverride :: "string list option"
  spec_ExtraEnv :: "EnvVarApply list"
  spec_NodeSelector :: go_map
  spec_Tolerations :: "json list"
  spec_TopologySpreadConstraints :: "TopologySpreadConstraintApply list option"
  spec_Affinity :: "json option"
  spec_EnableServiceMonitor :: bool
  spec_PodDisruptionBudget :: "PDBSpec option"
  spec_Settings :: CloudflareTunnelSettings
  spec_PodSecurityContext :: "PodSecurityContextApply option"
  spec_SecurityContext :: "SecurityContextApply option"

record CloudflareTunnelStatus =
  st_Replicas :: int32
  st_TunnelName :: string
  st_TunnelID :: string
  st_Conditions :: "Condition list"

definition TypeCloudflareTunnelAvailable :: string where
  "TypeCloudflareTunnelAvailable = ''Available''"

definition TypeCloudflareTunnelDegraded :: string where
  "TypeCloudflareTunnelDegraded = ''Degraded''"

record CloudflareTunnel =
  cft_Meta :: ObjectMeta
  cft_Spec :: CloudflareTunnelSpec
  cft_Status :: CloudflareTunnelStatus

record CloudflareTunnelList =
  cftl_Continue :: string
  cftl_Items :: "CloudflareTunnel list"

definition DefaultLabelKey :: string where
  "DefaultLabelKey = ''cf-tunnel-operator.walnuts.dev/default''"

abbreviation cft_Name :: "CloudflareTunnel \<Rightarrow> string" where
  "cft_Name cf \<equiv> om_Name (cft_Meta cf)"

abbreviation cft_Namespace :: "CloudflareTunnel \<Rightarrow> string" where
  "cft_Namespace cf \<equiv> om_Namespace (cft_Meta cf)"

abbreviation cft_TunnelID :: "CloudflareTunnel \<Rightarrow> string" where
  "cft_TunnelID cf \<equiv> st_TunnelID (cft_Status cf)"

definition cft_Key :: "CloudflareTunnel \<Rightarrow> NamespacedName" where
  "cft_Key cf = \<lparr>nn_Namespace = cft_Namespace cf, nn_Name = cft_Name cf\<rparr>"

section \<open>Kubernetes objects\<close>

record Secret =
  secret_Meta :: ObjectMeta
  secret_Data :: go_map

record Service =
  svc_Meta :: ObjectMeta
  svc_Rest :: json

record Deployment =
  dep_Meta :: ObjectMeta
  dep_AvailableReplicas :: int32
  dep_Rest :: json

record ServiceMonitorEndpoint =
  ep_Port :: string
  ep_TargetPort :: "IntOrString option"
  ep_Path :: string
  ep_HonorLabels :: bool

record ServiceMonitor =
  sm_Meta :: ObjectMeta
  sm_MatchLabels :: go_map
  sm_Endpoints :: "ServiceMonitorEndpoint list option"
  sm_JobLabel :: string
  sm_MatchNames :: "string list option"
  sm_Rest :: json

record PodDisruptionBudget =
  pdb_Meta :: ObjectMeta
  pdb_MinAvailable :: "IntOrString option"
  pdb_MaxUnavailable :: "IntOrString option"
  pdb_Selector :: "(string \<rightharpoonup> string) option"
  pdb_Rest :: json

record Ingress =
  ing_Meta :: ObjectMeta
  ing_Rules :: "string list" \<comment> \<open>\<^verbatim>\<open>Spec.Rules[i].Host\<close>\<close>
  ing_TLS :: "string list list" \<comment> \<open>\<^verbatim>\<open>Spec.TLS[i].Hosts\<close>\<close>
  ing_LoadBalancerIPs :: "string list" \<comment> \<open>\<^verbatim>\<open>Status.LoadBalancer.Ingress[i].IP\<close>\<close>
  ing_Rest :: json

text \<open>The zero values that \<^verbatim>\<open>var x T\<close> declares before \<^verbatim>\<open>r.Get\<close> fills them.\<close>

definition zero_secret :: Secret where
  "zero_secret = \<lparr>secret_Meta = zero_meta, secret_Data = None\<rparr>"

definition zero_service :: Service where
  "zero_service = \<lparr>svc_Meta = zero_meta, svc_Rest = JNull\<rparr>"

definition zero_deployment :: Deployment where
  "zero_deployment = \<lparr>dep_Meta = zero_meta, dep_AvailableReplicas = 0, dep_Rest = JNull\<rparr>"

definition finalizerName :: string where
  "finalizerName = ''cf-tunnel-operator.walnuts.dev/finalizer''"

end
