(* ===== verification/Domain.thy ===== *)
theory Domain
  imports ApiTypes
begin

text \<open>
  Package \<^verbatim>\<open>pkg/domain\<close>: the tunnel, token, configuration and DNS record types, the health
  check of a DNS record (\<^verbatim>\<open>entity.go\<close>) and the origin settings of an ingress rule
  (\<^verbatim>\<open>origin_request_config.go\<close>). The record types of \<^verbatim>\<open>cloudflare-go\<close> appear with the
  fields the operator uses; the rest of a tunnel configuration is a tree that is passed on.
\<close>

section \<open>Entities\<close>

record CFTunnel =
  cft_tunnel_ID :: string
  cft_tunnel_Name :: string

type_synonym CloudflareTunnelToken = string

text \<open>\<^verbatim>\<open>cloudflare.OriginRequestConfig\<close>; a \<^verbatim>\<open>TunnelDuration\<close> is its count of nanoseconds.\<close>

record OriginRequestConfig =
  orc_HTTPHostHeader :: "string option"
  orc_OriginServerName :: "string option"
  orc_CAPool :: "string option"
  orc_NoTLSVerify :: "bool option"
  orc_TLSTimeout :: "int64 option"
  orc_Http2Origin :: "bool option"
  orc_DisableChunkedEncoding :: "bool option"
  orc_ConnectTimeout :: "int64 option"
  orc_NoHappyEyeballs :: "bool option"
  orc_ProxyType :: "string option"
  orc_KeepAliveTimeout :: "int64 option"
  orc_KeepAliveConnections :: "int64 option"
  orc_Rest :: "(string \<times> json) list" \<comment> \<open>the fields the operator never sets\<close>

record IngressRule =
  rule_Hostname :: string
  rule_Path :: string
  rule_Service :: string
  rule_OriginRequest :: "OriginRequestConfig option"

record TunnelConfiguration =
  tc_Ingress :: "IngressRule list"
  tc_WarpRouting :: json
  tc_OriginRequest :: json

record DNSRecord =
  rec_ID :: string
  rec_Type :: string
  rec_Name :: string
  rec_Content :: string
  rec_Proxied :: "bool option"
  rec_TTL :: int
  rec_Comment :: string

definition zero_DNSRecord :: DNSRecord where
  "zero_DNSRecord = \<lparr>rec_ID = '''', rec_Type = '''', rec_Name = '''', rec_Content = '''',
     rec_Proxied = None, rec_TTL = 0, rec_Comment = ''''\<rparr>"

text \<open>\<^verbatim>\<open>fmt.Sprintf("%v.cfargotunnel.com", tunnelID)\<close>\<close>

definition tunnel_target :: "string \<Rightarrow> string" where
  "tunnel_target tunnelID = tunnelID @ ''.cfargotunnel.com''"

text \<open>
  \<^verbatim>\<open>DNSRecord.Healthy\<close>. The conjunction is evaluated from the left and stops at the first
  false conjunct; \<^verbatim>\<open>*d.Proxied\<close> panics on a nil pointer.
\<close>

definition Healthy :: "DNSRecord \<Rightarrow> string \<Rightarrow> bool outcome" where
  "Healthy d tunnelID =
     (if rec_ID d = '''' then Ok False
      else if rec_Type d \<noteq> ''CNAME'' then Ok False
      else case rec_Proxied d of
        None \<Rightarrow> Panic ''invalid memory address or nil pointer dereference''
      | Some p \<Rightarrow> Ok (p \<and> rec_Content d = tunnel_target tunnelID))"

text \<open>What a healthy record is, as a predicate.\<close>

definition points_to :: "DNSRecord \<Rightarrow> string \<Rightarrow> bool" where
  "points_to d tunnelID \<longleftrightarrow> rec_ID d \<noteq> '''' \<and> rec_Type d = ''CNAME''
     \<and> rec_Proxied d = Some True \<and> rec_Content d = tunnel_target tunnelID"

lemma Healthy_True_iff: "Healthy d t = Ok True \<longleftrightarrow> points_to d t"
  by (auto simp: Healthy_def points_to_def split: option.splits)

lemma Healthy_Panic_iff:
  "(\<exists>p. Healthy d t = Panic p) \<longleftrightarrow> rec_ID d \<noteq> '''' \<and> rec_Type d = ''CNAME'' \<and> rec_Proxied d = None"
  by (auto simp: Healthy_def split: option.splits)

lemma Healthy_no_Err [simp]: "Healthy d t \<noteq> Err e"
  by (auto simp: Healthy_def split: option.splits)

lemma tunnel_target_inj [simp]: "tunnel_target a = tunnel_target b \<longleftrightarrow> a = b"
  by (simp add: tunnel_target_def)

text \<open>A record is healthy for one tunnel at most.\<close>

lemma points_to_unique: "points_to d a \<Longrightarrow> points_to d b \<Longrightarrow> a = b"
  by (auto simp: points_to_def)

section \<open>Origin request settings\<close>

text \<open>\<^verbatim>\<open>time.Duration(seconds) * time.Second\<close>: an \<^verbatim>\<open>int64\<close> product of nanoseconds.\<close>

definition seconds_duration :: "int32 \<Rightarrow> int64" where
  "seconds_duration n = scast n * 1000000000"

definition ToOriginRequestConfig :: "CloudflareTunnelSettings \<Rightarrow> string \<Rightarrow> OriginRequestConfig" where
  "ToOriginRequestConfig ts hostname = \<lparr>
     orc_HTTPHostHeader = Some hostname,
     orc_OriginServerName = Some hostname,
     orc_CAPool = CAPool ts,
     orc_NoTLSVerify = Some (NoTLSVerify ts),
     orc_TLSTimeout = Some (seconds_duration (TLSTimeoutSeconds ts)),
     orc_Http2Origin = Some (HTTP2Origin ts),
     orc_DisableChunkedEncoding = Some (DisableChunkedEncoding ts),
     orc_ConnectTimeout = Some (seconds_duration (ConnectTimeoutSeconds ts)),
     orc_NoHappyEyeballs = Some (NoHappyEyeballs ts),
     orc_ProxyType = Some (ProxyType ts),
     orc_KeepAliveTimeout = Some (seconds_duration (KeepAliveTimeoutSeconds ts)),
     orc_KeepAliveConnections = Some (scast (KeepAliveConnections ts)),
     orc_Rest = []\<rparr>"

lemma sint_int32_bounds: "- 2147483648 \<le> sint (n :: int32)" "sint (n :: int32) \<le> 2147483647"
  using sint_ge [of n] sint_lt [of n] by simp_all

lemma sint_scast_int32: "sint (scast (n :: int32) :: int64) = sint n"
  by (rule sint_up_scast) (simp add: is_up)

lemma seconds_duration_exact: "sint (seconds_duration n) = sint n * 1000000000"
proof -
  have "sint (1000000000 :: int64) = 1000000000" by simp
  then show ?thesis
    using sint_int32_bounds [of n]
    by (simp add: seconds_duration_def sint_word_mult sint_scast_int32 signed_take_bit_int_eq_self_iff)
qed

lemma ToOriginRequestConfig_host [simp]:
  "orc_HTTPHostHeader (ToOriginRequestConfig ts h) = Some h"
  "orc_OriginServerName (ToOriginRequestConfig ts h) = Some h"
  by (simp_all add: ToOriginRequestConfig_def)

lemma ToOriginRequestConfig_inj:
  "ToOriginRequestConfig ts h = ToOriginRequestConfig ts h' \<longleftrightarrow> h = h'"
  by (metis ToOriginRequestConfig_host(1) option.inject)

end
