(* ===== verification/Netip.thy ===== *)
theory Netip
  imports Prelude "HOL-Library.Word"
begin

text \<open>
  The part of Go's \<^verbatim>\<open>net/netip\<close> the ingress controller uses: \<^verbatim>\<open>ParseAddr\<close> and
  \<^verbatim>\<open>Addr.String\<close> for IPv4 and IPv6 addresses (zones and embedded IPv4 included).
\<close>

section \<open>Addresses\<close>

text \<open>An IPv4 address is four bytes; an IPv6 address is eight 16-bit groups and a zone.\<close>

datatype Addr = Addr4 "8 word" "8 word" "8 word" "8 word" | Addr6 "16 word list" string

definition parse_error :: "string \<Rightarrow> 'a outcome" where
  "parse_error msg = Err (NewError msg)"

section \<open>Parsing\<close>

definition is_digit :: "char \<Rightarrow> bool" where
  "is_digit c = (let n = (of_char c :: nat) in 48 \<le> n \<and> n \<le> 57)"

definition digit_value :: "char \<Rightarrow> nat" where
  "digit_value c = of_char c - 48"

text \<open>
  \<^verbatim>\<open>parseIPv4Fields\<close>: \<open>start\<close> holds at the beginning and after a dot, \<open>val\<close> and \<open>digs\<close> are
  the value and the number of digits of the current field, \<open>fs\<close> the fields before it.
\<close>

fun ipv4_fields :: "string \<Rightarrow> bool \<Rightarrow> nat \<Rightarrow> nat \<Rightarrow> nat list \<Rightarrow> nat list outcome" where
  "ipv4_fields [] start val digs fs =
     (if length fs < 3 then parse_error ''IPv4 address too short'' else Ok (fs @ [val]))"
| "ipv4_fields (c # cs) start val digs fs =
     (if is_digit c then
        (if digs = 1 \<and> val = 0 then parse_error ''IPv4 field has octet with leading zero''
         else if val * 10 + digit_value c > 255 then parse_error ''IPv4 field has value >255''
         else ipv4_fields cs False (val * 10 + digit_value c) (Suc digs) fs)
      else if c = CHR ''.'' then
        (if start \<or> cs = [] then parse_error ''IPv4 field must have at least one digit''
         else if length fs = 3 then parse_error ''IPv4 address too long''
         else ipv4_fields cs True 0 0 (fs @ [val]))
      else parse_error ''unexpected character'')"

definition parseIPv4 :: "string \<Rightarrow> Addr outcome" where
  "parseIPv4 s = (case ipv4_fields s True 0 0 [] of
      Ok [a, b, c, d] \<Rightarrow> Ok (Addr4 (of_nat a) (of_nat b) (of_nat c) (of_nat d))
    | Ok _ \<Rightarrow> parse_error ''unreachable''
    | Err e \<Rightarrow> Err e
    | Panic p \<Rightarrow> Panic p)"

definition hex_digit_value :: "char \<Rightarrow> nat option" where
  "hex_digit_value c = (let n = (of_char c :: nat) in
     if 48 \<le> n \<and> n \<le> 57 then Some (n - 48)
     else if 97 \<le> n \<and> n \<le> 102 then Some (n - 87)
     else if 65 \<le> n \<and> n \<le> 70 then Some (n - 55)
     else None)"

definition is_hex :: "char \<Rightarrow> bool" where
  "is_hex c = (hex_digit_value c \<noteq> None)"

definition hex_number :: "string \<Rightarrow> nat" where
  "hex_number s = fold (\<lambda>c acc. 16 * acc + (case hex_digit_value c of Some v \<Rightarrow> v | None \<Rightarrow> 0)) s 0"

text \<open>
  The loop of \<^verbatim>\<open>parseIPv6\<close>: one round per group, so eight rounds at most. It returns the
  unread text, the groups and the position of the ellipsis.
\<close>

fun ipv6_loop :: "nat \<Rightarrow> string \<Rightarrow> nat list \<Rightarrow> nat option \<Rightarrow> (string \<times> nat list \<times> nat option) outcome" where
  "ipv6_loop 0 s ip ellipsis = Ok (s, ip, ellipsis)"
| "ipv6_loop (Suc k) s ip ellipsis =
     (let h = takeWhile is_hex s; rest = dropWhile is_hex s in
      if length h > 4 then parse_error ''each group must have 4 or less digits''
      else if h = [] then parse_error ''each colon-separated field must have at least one digit''
      else if rest \<noteq> [] \<and> hd rest = CHR ''.'' then
        (if ellipsis = None \<and> length ip \<noteq> 6
           then parse_error ''embedded IPv4 address must replace the final 2 fields of the address''
         else if length ip + 2 > 8
           then parse_error ''too many hex fields to fit an embedded IPv4 at the end of the address''
         else (case ipv4_fields s True 0 0 [] of
             Ok [a, b, c, d] \<Rightarrow> Ok ([], ip @ [256 * a + b, 256 * c + d], ellipsis)
           | Ok _ \<Rightarrow> parse_error ''unreachable''
           | Err e \<Rightarrow> Err e
           | Panic p \<Rightarrow> Panic p))
      else let ip = ip @ [hex_number h] in
        (case rest of
           [] \<Rightarrow> Ok ([], ip, ellipsis)
         | c # r \<Rightarrow>
             (if c \<noteq> CHR '':'' then parse_error ''unexpected character, want colon''
              else (case r of
                  [] \<Rightarrow> parse_error ''colon must be followed by more characters''
                | c' # r' \<Rightarrow>
                    (if c' = CHR '':'' then
                       (if ellipsis \<noteq> None then parse_error ''multiple :: in address''
                        else if r' = [] then Ok ([], ip, Some (length ip))
                        else ipv6_loop k r' ip (Some (length ip)))
                     else ipv6_loop k r ip ellipsis)))))"

text \<open>After the loop: no text may be left, and the ellipsis stands for at least one group.\<close>

definition ipv6_finish :: "string \<Rightarrow> nat list \<Rightarrow> nat option \<Rightarrow> string \<Rightarrow> Addr outcome" where
  "ipv6_finish s ip ellipsis zone =
     (if s \<noteq> [] then parse_error ''trailing garbage after address''
      else if length ip < 8 then
        (case ellipsis of
           None \<Rightarrow> parse_error ''address string too short''
         | Some e \<Rightarrow> Ok (Addr6 (map of_nat (take e ip @ replicate (8 - length ip) 0 @ drop e ip)) zone))
      else if ellipsis \<noteq> None then parse_error ''the :: must expand to at least one field of zeros''
      else Ok (Addr6 (map of_nat ip) zone))"

definition parseIPv6 :: "string \<Rightarrow> Addr outcome" where
  "parseIPv6 input =
     (let s = takeWhile (\<lambda>c. c \<noteq> CHR ''%'') input; z = dropWhile (\<lambda>c. c \<noteq> CHR ''%'') input in
      if z \<noteq> [] \<and> tl z = [] then parse_error ''zone must be a non-empty string''
      else let zone = tl z in
        if take 2 s = ''::'' then
          (if drop 2 s = [] then Ok (Addr6 (replicate 8 0) zone)
           else (case ipv6_loop 8 (drop 2 s) [] (Some 0) of
               Ok (r, ip, e) \<Rightarrow> ipv6_finish r ip e zone
             | Err e \<Rightarrow> Err e
             | Panic p \<Rightarrow> Panic p))
        else (case ipv6_loop 8 s [] None of
             Ok (r, ip, e) \<Rightarrow> ipv6_finish r ip e zone
           | Err e \<Rightarrow> Err e
           | Panic p \<Rightarrow> Panic p))"

text \<open>\<^verbatim>\<open>ParseAddr\<close>: the first dot, colon or percent sign decides.\<close>

definition ParseAddr :: "string \<Rightarrow> Addr outcome" where
  "ParseAddr s = (case dropWhile (\<lambda>c. c \<noteq> CHR ''.'' \<and> c \<noteq> CHR '':'' \<and> c \<noteq> CHR ''%'') s of
      [] \<Rightarrow> parse_error ''unable to parse IP''
    | c # _ \<Rightarrow> (if c = CHR ''.'' then parseIPv4 s
               else if c = CHR '':'' then parseIPv6 s
               else parse_error ''missing IPv6 address''))"

section \<open>Printing\<close>

definition digit_char :: "nat \<Rightarrow> char" where
  "digit_char n = char_of (48 + n)"

text \<open>\<^verbatim>\<open>appendDecimal\<close> on a byte: at most three digits, no leading zeros.\<close>

definition decimal_byte :: "nat \<Rightarrow> string" where
  "decimal_byte n =
     (if n \<ge> 100 then [digit_char (n div 100), digit_char (n div 10 mod 10), digit_char (n mod 10)]
      else if n \<ge> 10 then [digit_char (n div 10), digit_char (n mod 10)]
      else [digit_char n])"

definition hex_char :: "nat \<Rightarrow> char" where
  "hex_char n = (if n < 10 then char_of (48 + n) else char_of (87 + n))"

definition hex_group :: "nat \<Rightarrow> string" where
  "hex_group n =
     (if n \<ge> 4096 then [hex_char (n div 4096)] else []) @
     (if n \<ge> 256 then [hex_char (n div 256 mod 16)] else []) @
     (if n \<ge> 16 then [hex_char (n div 16 mod 16)] else []) @
     [hex_char (n mod 16)]"

definition string4 :: "8 word \<Rightarrow> 8 word \<Rightarrow> 8 word \<Rightarrow> 8 word \<Rightarrow> string" where
  "string4 a b c d = decimal_byte (unat a) @ ''.'' @ decimal_byte (unat b) @ ''.''
     @ decimal_byte (unat c) @ ''.'' @ decimal_byte (unat d)"

text \<open>The first longest run of at least two zero groups: its start and end.\<close>

definition zero_run_at :: "16 word list \<Rightarrow> nat \<Rightarrow> nat" where
  "zero_run_at ip i = length (takeWhile (\<lambda>g. g = 0) (drop i ip))"

definition zero_run :: "16 word list \<Rightarrow> (nat \<times> nat) option" where
  "zero_run ip = fold (\<lambda>i best. let l = zero_run_at ip i in
      if l \<ge> 2 \<and> (case best of None \<Rightarrow> True | Some (s, e) \<Rightarrow> l > e - s) then Some (i, i + l) else best)
     [0..<length ip] None"

fun join_groups :: "16 word list \<Rightarrow> string" where
  "join_groups [] = ''''"
| "join_groups [g] = hex_group (unat g)"
| "join_groups (g # gs) = hex_group (unat g) @ '':'' @ join_groups gs"

definition string6_groups :: "16 word list \<Rightarrow> string" where
  "string6_groups ip = (case zero_run ip of
      None \<Rightarrow> join_groups ip
    | Some (s, e) \<Rightarrow> join_groups (take s ip) @ ''::'' @ join_groups (drop e ip))"

definition zone_suffix :: "string \<Rightarrow> string" where
  "zone_suffix zone = (if zone = '''' then '''' else ''%'' @ zone)"

definition is4In6 :: "16 word list \<Rightarrow> bool" where
  "is4In6 ip = (take 6 ip = [0, 0, 0, 0, 0, 65535] \<and> length ip = 8)"

definition group_bytes :: "16 word \<Rightarrow> 8 word \<times> 8 word" where
  "group_bytes g = (of_nat (unat g div 256), of_nat (unat g mod 256))"

fun String :: "Addr \<Rightarrow> string" where
  "String (Addr4 a b c d) = string4 a b c d"
| "String (Addr6 ip zone) =
     (if is4In6 ip then
        (case group_bytes (ip ! 6) of (a, b) \<Rightarrow> case group_bytes (ip ! 7) of (c, d) \<Rightarrow>
           ''::ffff:'' @ string4 a b c d @ zone_suffix zone)
      else string6_groups ip @ zone_suffix zone)"

section \<open>IPv4 round trip\<close>

lemma is_digit_digit_char: "n < 10 \<Longrightarrow> is_digit (digit_char n)"
  by (simp add: is_digit_def digit_char_def Let_def)

lemma digit_value_digit_char: "n < 10 \<Longrightarrow> digit_value (digit_char n) = n"
  by (simp add: digit_value_def digit_char_def)

lemma decimal_three: "(n div 100 * 10 + n div 10 mod 10) * 10 + n mod 10 = (n::nat)"
proof -
  have "n div 100 = n div 10 div 10" by (simp add: div_mult2_eq [symmetric])
  then show ?thesis by (simp add: div_mult_mod_eq)
qed

text \<open>A printed field is read back, whatever follows it.\<close>

lemma ipv4_fields_decimal:
  assumes "n < 256"
  shows "\<exists>digs. ipv4_fields (decimal_byte n @ rest) True 0 0 fs = ipv4_fields rest False n digs fs"
proof -
  note digits = is_digit_digit_char digit_value_digit_char
  consider "n \<ge> 100" | "n \<ge> 10" "n < 100" | "n < 10" by linarith
  then show ?thesis
  proof cases
    case 1
    have "n div 100 < 10" "n div 100 \<noteq> 0" "n div 100 * 10 + n div 10 mod 10 \<le> 255"
      using 1 assms by linarith+
    then show ?thesis
      using 1 assms decimal_three [of n] by (auto simp: decimal_byte_def digits)
  next
    case 2
    have "n div 10 < 10" "n div 10 \<noteq> 0" using 2 by linarith+
    moreover have "n div 10 * 10 + n mod 10 = n" by (rule div_mult_mod_eq)
    ultimately show ?thesis using 2 by (auto simp: decimal_byte_def digits)
  next
    case 3
    then show ?thesis by (auto simp: decimal_byte_def digits)
  qed
qed

lemma not_digit_dot [simp]: "\<not> is_digit (CHR ''.'')"
  by (simp add: is_digit_def)

lemma ipv4_fields_decimal_dot:
  assumes "n < 256" and "rest \<noteq> []" and "length fs < 3"
  shows "ipv4_fields (decimal_byte n @ CHR ''.'' # rest) True 0 0 fs = ipv4_fields rest True 0 0 (fs @ [n])"
  using ipv4_fields_decimal [OF assms(1), of "CHR ''.'' # rest" fs] assms(2,3) by auto

lemma decimal_byte_nonempty [simp]: "decimal_byte n \<noteq> []"
  by (simp add: decimal_byte_def)

lemma unat_byte [simp]: "unat (b :: 8 word) < 256"
  using unsigned_less [of b] by simp

lemma parseIPv4_string4: "parseIPv4 (string4 a b c d) = Ok (Addr4 a b c d)"
proof -
  obtain digs where last: "ipv4_fields (decimal_byte (unat d) @ []) True 0 0 [unat a, unat b, unat c]
      = ipv4_fields [] False (unat d) digs [unat a, unat b, unat c]"
    using ipv4_fields_decimal [of "unat d" "[]"] by auto
  have "ipv4_fields (string4 a b c d) True 0 0 [] = Ok [unat a, unat b, unat c, unat d]"
    using last by (simp add: string4_def ipv4_fields_decimal_dot)
  then show ?thesis by (simp add: parseIPv4_def)
qed

lemma dropWhile_digits:
  "n < 256 \<Longrightarrow> dropWhile (\<lambda>c. c \<noteq> CHR ''.'' \<and> c \<noteq> CHR '':'' \<and> c \<noteq> CHR ''%'') (decimal_byte n @ CHR ''.'' # rest)
     = CHR ''.'' # rest"
proof -
  have "digit_char k \<noteq> CHR ''.'' \<and> digit_char k \<noteq> CHR '':'' \<and> digit_char k \<noteq> CHR ''%''" if "k < 10" for k
  proof -
    have "of_char (digit_char k) = 48 + k" using that by (simp add: digit_char_def)
    with that show ?thesis by auto
  qed
  then show "n < 256 \<Longrightarrow> ?thesis" by (auto simp: decimal_byte_def)
qed

lemma ParseAddr_String4: "ParseAddr (String (Addr4 a b c d)) = Ok (Addr4 a b c d)"
proof -
  have "ParseAddr (string4 a b c d) = parseIPv4 (string4 a b c d)"
    by (simp add: ParseAddr_def string4_def dropWhile_digits)
  then show ?thesis by (simp add: parseIPv4_string4)
qed

end
