(* ===== verification/IngressRules.thy ===== *)
theory IngressRules
  imports Domain Netip
begin

text \<open>
  The computations of \<^verbatim>\<open>internal/controller/ingress_watcher.go\<close> that make no external call:
  the hosts of an ingress, its annotations, the endpoint of a host, and the ingress rules of
  a tunnel configuration after hosts were added or removed.
\<close>

section \<open>Annotations\<close>

definition annotationPrefix :: string where
  "annotationPrefix = ''cf-tunnel-operator.walnuts.dev/''"

definition cfTunnelAnnotation :: string where
  "cfTunnelAnnotation = annotationPrefix @ ''cloudflare-tunnel''"

definition ignoreAnnotation :: string where
  "ignoreAnnotation = annotationPrefix @ ''ignore''"

definition detectCloudflareTunnelName :: "go_map \<Rightarrow> NamespacedName outcome" where
  "detectCloudflareTunnelName annotations =
     (let v = map_index annotations cfTunnelAnnotation in
      if v = '''' then Ok \<lparr>nn_Namespace = '''', nn_Name = ''''\<rparr>
      else let values = strings_Split v (CHR ''/'') in
        if length values \<noteq> 2
        then Err (NewError (''invalid annotation value: '' @ v @ '', expected format: namespace/name''))
        else Ok \<lparr>nn_Namespace = values ! 0, nn_Name = values ! 1\<rparr>)"

definition checkToBeIgnored :: "go_map \<Rightarrow> bool" where
  "checkToBeIgnored annotations = (case map_get annotations ignoreAnnotation of
      None \<Rightarrow> False
    | Some v \<Rightarrow> strings_ToLower v \<noteq> ''false'' \<and> v \<noteq> ''0'')"

section \<open>Hosts\<close>

record host =
  h_Host :: string
  h_TLS :: bool

definition checkTLS :: "string \<Rightarrow> string list \<Rightarrow> bool" where
  "checkTLS h TLSHosts = (h \<in> set TLSHosts)"

definition getHosts :: "Ingress \<Rightarrow> host list" where
  "getHosts ingress =
     (let TLSHosts = concat (ing_TLS ingress) in
      map (\<lambda>h. \<lparr>h_Host = h, h_TLS = checkTLS h TLSHosts\<rparr>) (ing_Rules ingress))"

definition createEndpoint :: "Addr \<Rightarrow> bool \<Rightarrow> string" where
  "createEndpoint ip TLS =
     (if TLS then ''https://'' @ String ip @ '':443'' else ''http://'' @ String ip @ '':80'')"

section \<open>The rules of a tunnel\<close>

text \<open>The comparison function passed to \<^verbatim>\<open>slices.SortedFunc\<close>: the catch-all rule is last.\<close>

definition hostname_cmp :: "IngressRule \<Rightarrow> IngressRule \<Rightarrow> int" where
  "hostname_cmp a b =
     (if rule_Hostname a = '''' then 1
      else if rule_Hostname b = '''' then -1
      else strings_Compare (rule_Hostname a) (rule_Hostname b))"

text \<open>
  The Go map \<^verbatim>\<open>rules\<close>, keyed by hostname, is an association list without duplicate keys.
  Later rules of the configuration overwrite earlier ones of the same hostname.
\<close>

type_synonym rules = "(string \<times> IngressRule) list"

definition restamp :: "CloudflareTunnelSettings \<Rightarrow> IngressRule \<Rightarrow> IngressRule" where
  "restamp ts rule = \<lparr>rule_Hostname = rule_Hostname rule, rule_Path = rule_Path rule,
     rule_Service = rule_Service rule,
     rule_OriginRequest = Some (ToOriginRequestConfig ts (rule_Hostname rule))\<rparr>"

definition collect_rules :: "CloudflareTunnelSettings \<Rightarrow> IngressRule list \<Rightarrow> rules" where
  "collect_rules ts ingress =
     fold (\<lambda>rule m. AList.update (rule_Hostname rule) (restamp ts rule) m) ingress []"

definition host_rule :: "CloudflareTunnelSettings \<Rightarrow> Addr \<Rightarrow> host \<Rightarrow> IngressRule" where
  "host_rule ts ip h = \<lparr>rule_Hostname = h_Host h, rule_Path = '''',
     rule_Service = createEndpoint ip (h_TLS h),
     rule_OriginRequest = Some (ToOriginRequestConfig ts (h_Host h))\<rparr>"

definition set_hosts :: "CloudflareTunnelSettings \<Rightarrow> Addr \<Rightarrow> host list \<Rightarrow> rules \<Rightarrow> rules" where
  "set_hosts ts ip hosts m = fold (\<lambda>h m. AList.update (h_Host h) (host_rule ts ip h) m) hosts m"

definition delete_hosts :: "host list \<Rightarrow> rules \<Rightarrow> rules" where
  "delete_hosts hosts m = fold (\<lambda>h m. AList.delete (h_Host h) m) hosts m"

definition catch_all :: "CloudflareTunnelSettings \<Rightarrow> IngressRule" where
  "catch_all ts = \<lparr>rule_Hostname = '''', rule_Path = '''', rule_Service = CatchAllRule ts,
     rule_OriginRequest = None\<rparr>"

definition sorted_values :: "(IngressRule list \<Rightarrow> IngressRule list) \<Rightarrow> rules \<Rightarrow> IngressRule list" where
  "sorted_values map_values m = slices_SortedFunc (map_values (map snd m)) hostname_cmp"

text \<open>
  The configuration that \<^verbatim>\<open>appendCloudflareTunnelConfig\<close> and \<^verbatim>\<open>removeCloudflareTunnelConfig\<close>
  write back. \<open>map_values\<close> is the runtime's enumeration order of a map.
\<close>

definition appended_config :: "(IngressRule list \<Rightarrow> IngressRule list) \<Rightarrow> CloudflareTunnelSettings \<Rightarrow>
    Addr \<Rightarrow> host list \<Rightarrow> TunnelConfiguration \<Rightarrow> TunnelConfiguration" where
  "appended_config map_values ts ip hosts config =
     config\<lparr>tc_Ingress := sorted_values map_values
       (AList.update '''' (catch_all ts) (set_hosts ts ip hosts (collect_rules ts (tc_Ingress config))))\<rparr>"

definition removed_config :: "(IngressRule list \<Rightarrow> IngressRule list) \<Rightarrow> CloudflareTunnelSettings \<Rightarrow>
    host list \<Rightarrow> TunnelConfiguration \<Rightarrow> TunnelConfiguration" where
  "removed_config map_values ts hosts config =
     config\<lparr>tc_Ingress := sorted_values map_values
       (AList.update '''' (catch_all ts) (delete_hosts hosts (collect_rules ts (tc_Ingress config))))\<rparr>"

section \<open>Annotations and hosts: lemmas\<close>

lemma detect_empty: "map_index as cfTunnelAnnotation = '''' \<Longrightarrow>
    detectCloudflareTunnelName as = Ok \<lparr>nn_Namespace = '''', nn_Name = ''''\<rparr>"
  by (simp add: detectCloudflareTunnelName_def)

lemma detect_error_iff:
  "(\<exists>e. detectCloudflareTunnelName as = Err e) \<longleftrightarrow>
     map_index as cfTunnelAnnotation \<noteq> '''' \<and> count_list (map_index as cfTunnelAnnotation) (CHR ''/'') \<noteq> 1"
  by (auto simp: detectCloudflareTunnelName_def Let_def length_strings_Split)

lemma detect_pair:
  assumes "map_index as cfTunnelAnnotation = ns @ ''/'' @ n"
    and "CHR ''/'' \<notin> set ns" and "CHR ''/'' \<notin> set n"
  shows "detectCloudflareTunnelName as = Ok \<lparr>nn_Namespace = ns, nn_Name = n\<rparr>"
proof -
  have "strings_Split (ns @ ''/'' @ n) (CHR ''/'') = [ns, n]"
    using assms(2,3) by (simp add: strings_Split_def split_go_sep split_go_no_sep)
  with assms(1) show ?thesis by (simp add: detectCloudflareTunnelName_def Let_def)
qed

lemma detect_iff:
  assumes "map_index as cfTunnelAnnotation \<noteq> ''''"
  shows "detectCloudflareTunnelName as = Ok n \<longleftrightarrow>
    map_index as cfTunnelAnnotation = nn_Namespace n @ ''/'' @ nn_Name n \<and>
    CHR ''/'' \<notin> set (nn_Namespace n) \<and> CHR ''/'' \<notin> set (nn_Name n)" (is "_ \<longleftrightarrow> ?R n")
proof
  let ?v = "map_index as cfTunnelAnnotation"
  assume run: "detectCloudflareTunnelName as = Ok n"
  then have "length (strings_Split ?v (CHR ''/'')) = 2"
    using assms by (auto simp: detectCloudflareTunnelName_def Let_def split: if_splits)
  then have one: "count_list ?v (CHR ''/'') = 1" by (simp add: length_strings_Split)
  then have "CHR ''/'' \<in> set ?v" by (metis count_notin zero_neq_one)
  then obtain u w where v: "?v = u @ ''/'' @ w" and u: "CHR ''/'' \<notin> set u"
    by (auto dest: split_list_first)
  with one have w: "CHR ''/'' \<notin> set w" by (simp add: count_list_0_iff)
  from detect_pair [OF v u w] run have "n = \<lparr>nn_Namespace = u, nn_Name = w\<rparr>" by simp
  with v u w show "?R n" by simp
next
  assume "?R n"
  then show "detectCloudflareTunnelName as = Ok n"
    using detect_pair [of as "nn_Namespace n" "nn_Name n"] by simp
qed

lemma getHosts_names: "map h_Host (getHosts ing) = ing_Rules ing"
  by (simp add: getHosts_def Let_def comp_def)

lemma getHosts_TLS: "h \<in> set (getHosts ing) \<Longrightarrow> h_TLS h \<longleftrightarrow> (\<exists>tls \<in> set (ing_TLS ing). h_Host h \<in> set tls)"
  by (auto simp: getHosts_def Let_def checkTLS_def)

lemma createEndpoint_text:
  "createEndpoint ip TLS = (if TLS then ''https://'' @ String ip @ '':443'' else ''http://'' @ String ip @ '':80'')"
  by (simp add: createEndpoint_def)

lemma createEndpoint_eq_iff:
  "createEndpoint (Addr4 a b c d) TLS = createEndpoint (Addr4 a' b' c' d') TLS' \<longleftrightarrow>
     Addr4 a b c d = Addr4 a' b' c' d' \<and> TLS = TLS'"
proof
  assume eq: "createEndpoint (Addr4 a b c d) TLS = createEndpoint (Addr4 a' b' c' d') TLS'"
  then have "String (Addr4 a b c d) = String (Addr4 a' b' c' d')" and "TLS = TLS'"
    by (auto simp: createEndpoint_def split: if_splits)
  then show "Addr4 a b c d = Addr4 a' b' c' d' \<and> TLS = TLS'"
    by (metis ParseAddr_String4 outcome.inject(1))
qed simp

section \<open>The comparison function\<close>

interpretation by_hostname: key_order hostname_cmp rule_Hostname
proof unfold_locales
  fix a b c :: IngressRule
  show "\<not> hostname_cmp a a < 0"
    by (simp add: hostname_cmp_def strings_Compare_def)
  show "hostname_cmp a c < 0" if "hostname_cmp a b < 0" "hostname_cmp b c < 0"
    using that by (auto simp: hostname_cmp_def strings_Compare_def split: if_splits)
  show "hostname_cmp a b < 0 \<or> hostname_cmp b a < 0" if "rule_Hostname a \<noteq> rule_Hostname b"
    using that by (auto simp: hostname_cmp_def strings_Compare_def)
qed

lemma hostname_cmp_neg: "hostname_cmp a b < 0 \<longleftrightarrow>
    rule_Hostname a \<noteq> '''' \<and> (rule_Hostname b = '''' \<or> rule_Hostname a < rule_Hostname b)"
  by (auto simp: hostname_cmp_def strings_Compare_def)

section \<open>The rule table\<close>

text \<open>A table is keyed when each key occurs once and each rule is stored under its hostname.\<close>

definition keyed :: "rules \<Rightarrow> bool" where
  "keyed m \<longleftrightarrow> distinct (map fst m) \<and> (\<forall>k r. map_of m k = Some r \<longrightarrow> rule_Hostname r = k)"

lemma keyed_Nil [simp]: "keyed []"
  by (simp add: keyed_def)

lemma keyed_update: "keyed m \<Longrightarrow> rule_Hostname r = k \<Longrightarrow> keyed (AList.update k r m)"
  unfolding keyed_def by (auto simp: distinct_update update_conv')

lemma keyed_delete: "keyed m \<Longrightarrow> keyed (AList.delete k m)"
  unfolding keyed_def by (auto simp: distinct_delete delete_conv')

lemma keyed_fold_update:
  "keyed m \<Longrightarrow> (\<And>x. rule_Hostname (f x) = g x) \<Longrightarrow> keyed (fold (\<lambda>x m. AList.update (g x) (f x) m) xs m)"
  by (induction xs arbitrary: m) (auto simp: keyed_update)

lemma keyed_collect: "keyed (collect_rules ts rs)"
  unfolding collect_rules_def by (rule keyed_fold_update) (auto simp: restamp_def)

lemma keyed_set_hosts: "keyed m \<Longrightarrow> keyed (set_hosts ts ip hs m)"
  unfolding set_hosts_def by (rule keyed_fold_update) (auto simp: host_rule_def)

lemma keyed_delete_hosts: "keyed m \<Longrightarrow> keyed (delete_hosts hs m)"
  unfolding delete_hosts_def by (induction hs arbitrary: m) (auto simp: keyed_delete)

lemma keyed_catch_all: "keyed m \<Longrightarrow> keyed (AList.update '''' (catch_all ts) m)"
  by (rule keyed_update) (auto simp: catch_all_def)

lemmas keyed_intros = keyed_catch_all keyed_set_hosts keyed_delete_hosts keyed_collect

lemma keyed_hostnames: "keyed m \<Longrightarrow> map rule_Hostname (map snd m) = map fst m"
  unfolding keyed_def by (auto simp: map_of_eq_Some_iff)

section \<open>Refinement: a configuration as a map from hostnames to rules\<close>

text \<open>
  The abstraction: the rule of a hostname is the last one of the list. On it, adding hosts is
  a map update and removing hosts a restriction; the catch-all rule is always present.
\<close>

definition rule_table :: "IngressRule list \<Rightarrow> string \<Rightarrow> IngressRule option" where
  "rule_table rs h = find (\<lambda>r. rule_Hostname r = h) (rev rs)"

definition spec_append :: "CloudflareTunnelSettings \<Rightarrow> Addr \<Rightarrow> host list \<Rightarrow>
    (string \<Rightarrow> IngressRule option) \<Rightarrow> string \<Rightarrow> IngressRule option" where
  "spec_append ts ip hosts T h =
     (if h = '''' then Some (catch_all ts)
      else case find (\<lambda>x. h_Host x = h) (rev hosts) of
          Some x \<Rightarrow> Some (host_rule ts ip x)
        | None \<Rightarrow> map_option (restamp ts) (T h))"

definition spec_remove :: "CloudflareTunnelSettings \<Rightarrow> host list \<Rightarrow>
    (string \<Rightarrow> IngressRule option) \<Rightarrow> string \<Rightarrow> IngressRule option" where
  "spec_remove ts hosts T h =
     (if h = '''' then Some (catch_all ts)
      else if h \<in> h_Host ` set hosts then None
      else map_option (restamp ts) (T h))"

text \<open>The runtime may enumerate a map in any order, but enumerates each entry once.\<close>

definition enumerates :: "(IngressRule list \<Rightarrow> IngressRule list) \<Rightarrow> bool" where
  "enumerates map_values \<longleftrightarrow> (\<forall>xs. mset (map_values xs) = mset xs)"

lemma find_append: "find P (xs @ ys) = (case find P xs of None \<Rightarrow> find P ys | Some x \<Rightarrow> Some x)"
  by (induction xs) auto

lemma map_of_fold_update:
  "map_of (fold (\<lambda>x m. AList.update (g x) (f x) m) xs m) k =
    (case find (\<lambda>x. g x = k) (rev xs) of Some x \<Rightarrow> Some (f x) | None \<Rightarrow> map_of m k)"
  by (induction xs arbitrary: m) (auto simp: find_append update_conv' split: option.splits)

lemma map_of_delete_hosts:
  "map_of (delete_hosts hs m) k = (if k \<in> h_Host ` set hs then None else map_of m k)"
  unfolding delete_hosts_def
  by (induction hs arbitrary: m) (auto simp: delete_conv')

lemma map_of_collect: "map_of (collect_rules ts rs) k = map_option (restamp ts) (rule_table rs k)"
  unfolding collect_rules_def map_of_fold_update rule_table_def by (auto split: option.splits)

lemma map_of_set_hosts: "map_of (set_hosts ts ip hs m) k =
    (case find (\<lambda>x. h_Host x = k) (rev hs) of Some x \<Rightarrow> Some (host_rule ts ip x) | None \<Rightarrow> map_of m k)"
  unfolding set_hosts_def map_of_fold_update ..

lemma find_SomeD: "find P xs = Some x \<Longrightarrow> x \<in> set xs \<and> P x"
  by (induction xs) (auto split: if_splits)

lemma rule_table_Some: "rule_table rs h = Some r \<Longrightarrow> r \<in> set rs \<and> rule_Hostname r = h"
  unfolding rule_table_def by (drule find_SomeD) simp

lemma rule_table_distinct:
  assumes "distinct (map rule_Hostname rs)"
  shows "rule_table rs h = Some r \<longleftrightarrow> r \<in> set rs \<and> rule_Hostname r = h"
proof (intro iffI)
  assume r: "r \<in> set rs \<and> rule_Hostname r = h"
  then have "rule_table rs h \<noteq> None" by (auto simp: rule_table_def find_None_iff)
  then obtain r' where r': "rule_table rs h = Some r'" by blast
  with rule_table_Some [OF r'] r assms have "r' = r" by (auto simp: distinct_map inj_on_def)
  with r' show "rule_table rs h = Some r" by simp
qed (rule rule_table_Some)

lemma set_sorted_values: "enumerates mv \<Longrightarrow> set (sorted_values mv m) = snd ` set m"
  unfolding enumerates_def sorted_values_def
  by (simp, metis list.set_map mset_eq_setD)

lemma distinct_mv:
  "enumerates mv \<Longrightarrow> keyed m \<Longrightarrow> distinct (map rule_Hostname (mv (map snd m)))"
  unfolding enumerates_def using keyed_hostnames [of m]
  by (metis keyed_def mset_eq_imp_distinct_iff mset_map)

lemma sorted_values_sorted:
  "enumerates mv \<Longrightarrow> keyed m \<Longrightarrow> sorted_wrt (\<lambda>a b. hostname_cmp a b < 0) (sorted_values mv m)"
  unfolding sorted_values_def by (intro by_hostname.sorted_func_sorted distinct_mv)

lemma distinct_sorted_values:
  assumes "enumerates mv" and "keyed m"
  shows "distinct (map rule_Hostname (sorted_values mv m))"
proof -
  have "mset (map rule_Hostname (sorted_values mv m)) = mset (map rule_Hostname (mv (map snd m)))"
    by (simp add: sorted_values_def)
  with distinct_mv [OF assms] show ?thesis by (metis mset_eq_imp_distinct_iff)
qed

lemma rule_table_sorted_values:
  assumes "enumerates mv" and "keyed m"
  shows "rule_table (sorted_values mv m) h = map_of m h"
proof -
  have "rule_table (sorted_values mv m) h = Some r \<longleftrightarrow> map_of m h = Some r" for r
    unfolding rule_table_distinct [OF distinct_sorted_values [OF assms]] set_sorted_values [OF assms(1)]
    using assms(2) unfolding keyed_def by (force simp: map_of_eq_Some_iff)
  then show ?thesis by (metis not_None_eq)
qed

lemma sorted_values_order_irrelevant:
  assumes "enumerates mv" and "enumerates mv'" and "keyed m"
  shows "sorted_values mv m = sorted_values mv' m"
proof -
  have "mset (mv (map snd m)) = mset (mv' (map snd m))"
    using assms(1,2) by (simp add: enumerates_def)
  with distinct_mv [OF assms(1,3)] show ?thesis
    unfolding sorted_values_def by (rule by_hostname.sorted_func_order_irrelevant)
qed

text \<open>The list is determined by its table.\<close>

lemma sorted_rules_unique:
  assumes "sorted_wrt (\<lambda>a b. hostname_cmp a b < 0) rs" "distinct (map rule_Hostname rs)"
    and "sorted_wrt (\<lambda>a b. hostname_cmp a b < 0) rs'" "distinct (map rule_Hostname rs')"
    and "\<And>h. rule_table rs h = rule_table rs' h"
  shows "rs = rs'"
proof (rule by_hostname.sorted_unique)
  show "set rs = set rs'"
  proof (rule set_eqI)
    fix r
    have "r \<in> set rs \<longleftrightarrow> rule_table rs (rule_Hostname r) = Some r"
      by (simp add: rule_table_distinct [OF assms(2)])
    also have "\<dots> \<longleftrightarrow> r \<in> set rs'"
      by (simp add: assms(5) rule_table_distinct [OF assms(4)])
    finally show "r \<in> set rs \<longleftrightarrow> r \<in> set rs'" .
  qed
qed (use assms in auto)

lemma table_appended:
  assumes "enumerates mv"
  shows "rule_table (tc_Ingress (appended_config mv ts ip hosts config)) =
    spec_append ts ip hosts (rule_table (tc_Ingress config))"
  by (rule ext)
    (simp add: appended_config_def rule_table_sorted_values [OF assms] keyed_intros update_conv'
      map_of_set_hosts map_of_collect spec_append_def split: option.split)

lemma table_removed:
  assumes "enumerates mv"
  shows "rule_table (tc_Ingress (removed_config mv ts hosts config)) =
    spec_remove ts hosts (rule_table (tc_Ingress config))"
  by (rule ext)
    (simp add: removed_config_def rule_table_sorted_values [OF assms] keyed_intros update_conv'
      map_of_delete_hosts map_of_collect spec_remove_def)

section \<open>The shape of a written rule list\<close>

definition canonical :: "CloudflareTunnelSettings \<Rightarrow> IngressRule list \<Rightarrow> bool" where
  "canonical ts rs \<longleftrightarrow> rs \<noteq> [] \<and> last rs = catch_all ts
     \<and> sorted_wrt (<) (map rule_Hostname (butlast rs)) \<and> '''' \<notin> rule_Hostname ` set (butlast rs)"

lemma cmp_sorted_named:
  "(\<And>r. r \<in> set rs \<Longrightarrow> rule_Hostname r \<noteq> '''') \<Longrightarrow>
   sorted_wrt (\<lambda>a b. hostname_cmp a b < 0) rs \<longleftrightarrow> sorted_wrt (<) (map rule_Hostname rs)"
  by (induction rs) (auto simp: hostname_cmp_neg)

lemma canonical_sorted:
  "canonical ts rs \<Longrightarrow> sorted_wrt (\<lambda>a b. hostname_cmp a b < 0) rs"
proof -
  assume c: "canonical ts rs"
  then have "rs = butlast rs @ [catch_all ts]" unfolding canonical_def by (metis append_butlast_last_id)
  moreover have named: "rule_Hostname r \<noteq> ''''" if "r \<in> set (butlast rs)" for r
    using c that unfolding canonical_def by (metis image_eqI)
  have "sorted_wrt (\<lambda>a b. hostname_cmp a b < 0) (butlast rs)"
    using c cmp_sorted_named [of "butlast rs"] named unfolding canonical_def by blast
  then have "sorted_wrt (\<lambda>a b. hostname_cmp a b < 0) (butlast rs @ [catch_all ts])"
    using named by (simp add: sorted_wrt_append hostname_cmp_neg catch_all_def)
  ultimately show ?thesis by simp
qed

lemma sorted_canonical:
  assumes "sorted_wrt (\<lambda>a b. hostname_cmp a b < 0) rs" and "catch_all ts \<in> set rs"
  shows "canonical ts rs"
proof -
  from assms(2) have ne: "rs \<noteq> []" by auto
  then have rs: "rs = butlast rs @ [last rs]" by simp
  with assms(1) have s: "sorted_wrt (\<lambda>a b. hostname_cmp a b < 0) (butlast rs)"
    "\<forall>a \<in> set (butlast rs). hostname_cmp a (last rs) < 0"
    by (metis sorted_wrt_append list.set_intros(1))+
  have named: "rule_Hostname r \<noteq> ''''" if "r \<in> set (butlast rs)" for r
    using s(2) that by (auto simp: hostname_cmp_neg)
  have "catch_all ts \<notin> set (butlast rs)" using named by (fastforce simp: catch_all_def)
  with assms(2) rs have "last rs = catch_all ts"
    by (metis Un_iff empty_iff insert_iff list.set(1) list.set(2) set_append)
  moreover have "sorted_wrt (<) (map rule_Hostname (butlast rs))"
    using s(1) cmp_sorted_named [of "butlast rs"] named by blast
  moreover have "'''' \<notin> rule_Hostname ` set (butlast rs)"
    using named by (metis imageE)
  ultimately show ?thesis using ne by (simp add: canonical_def)
qed

lemma canonical_distinct: "canonical ts rs \<Longrightarrow> distinct (map rule_Hostname rs)"
proof -
  assume c: "canonical ts rs"
  then have "rs = butlast rs @ [catch_all ts]" unfolding canonical_def by (metis append_butlast_last_id)
  then have "map rule_Hostname rs = map rule_Hostname (butlast rs) @ ['''']"
    by (metis catch_all_def IngressRule.select_convs(1) list.simps(8) list.simps(9) map_append)
  with c show ?thesis
    by (auto simp: canonical_def strict_sorted_iff)
qed

lemma canonical_sorted_values:
  assumes "enumerates mv" and "keyed m"
  shows "canonical ts (sorted_values mv (AList.update '''' (catch_all ts) m))"
proof (rule sorted_canonical)
  show "sorted_wrt (\<lambda>a b. hostname_cmp a b < 0) (sorted_values mv (AList.update '''' (catch_all ts) m))"
    using assms by (intro sorted_values_sorted keyed_catch_all)
  have "map_of (AList.update '''' (catch_all ts) m) '''' = Some (catch_all ts)"
    by (simp add: update_conv')
  then show "catch_all ts \<in> set (sorted_values mv (AList.update '''' (catch_all ts) m))"
    unfolding set_sorted_values [OF assms(1)] by (metis image_eqI map_of_SomeD snd_conv)
qed

lemma canonical_appended: "enumerates mv \<Longrightarrow> canonical ts (tc_Ingress (appended_config mv ts ip hosts config))"
  by (simp add: appended_config_def canonical_sorted_values keyed_intros)

lemma canonical_removed: "enumerates mv \<Longrightarrow> canonical ts (tc_Ingress (removed_config mv ts hosts config))"
  by (simp add: removed_config_def canonical_sorted_values keyed_intros)

lemma canonical_unique:
  assumes "canonical ts rs" "canonical ts' rs'" "rule_table rs = rule_table rs'"
  shows "rs = rs'"
  using assms by (intro sorted_rules_unique canonical_sorted canonical_distinct) auto

section \<open>Laws of adding and removing hosts\<close>

lemma restamp_idem [simp]: "restamp ts (restamp ts' r) = restamp ts r"
  by (simp add: restamp_def)

lemma restamp_host_rule [simp]: "restamp ts (host_rule ts' ip h) = host_rule ts ip h"
  by (simp add: restamp_def host_rule_def)

lemma restamp_comp [simp]: "map_option (restamp ts) (map_option (restamp ts') x) = map_option (restamp ts) x"
  by (cases x) auto

lemma spec_append_idem: "spec_append ts ip hs (spec_append ts ip hs T) = spec_append ts ip hs T"
  by (auto simp: spec_append_def fun_eq_iff split: option.split)

lemma find_host_None: "find (\<lambda>x. h_Host x = h) (rev hs) = None \<longleftrightarrow> h \<notin> h_Host ` set hs"
  by (auto simp: find_None_iff)

lemma spec_append_commute:
  assumes "h_Host ` set hs \<inter> h_Host ` set hs' = {}"
  shows "spec_append ts ip hs (spec_append ts ip' hs' T) = spec_append ts ip' hs' (spec_append ts ip hs T)"
proof
  fix h
  have "find (\<lambda>x. h_Host x = h) (rev hs) = None \<or> find (\<lambda>x. h_Host x = h) (rev hs') = None"
    using assms by (auto simp: find_host_None)
  then show "spec_append ts ip hs (spec_append ts ip' hs' T) h = spec_append ts ip' hs' (spec_append ts ip hs T) h"
    by (auto simp: spec_append_def split: option.split)
qed

lemma spec_remove_append:
  "spec_remove ts hs (spec_append ts ip hs T) = spec_remove ts hs T"
proof
  fix h
  show "spec_remove ts hs (spec_append ts ip hs T) h = spec_remove ts hs T h"
    using find_host_None [of h hs] by (auto simp: spec_append_def spec_remove_def)
qed


section \<open>The laws for whole configurations\<close>

lemma config_eqI:
  fixes a b :: TunnelConfiguration
  assumes "canonical ts (tc_Ingress a)" and "canonical ts (tc_Ingress b)"
    and "rule_table (tc_Ingress a) = rule_table (tc_Ingress b)"
    and "tc_WarpRouting a = tc_WarpRouting b" and "tc_OriginRequest a = tc_OriginRequest b"
  shows "a = b"
  using canonical_unique [OF assms(1-3)] assms(4,5) by simp

lemma config_rest [simp]:
  "tc_WarpRouting (appended_config mv ts ip hosts c) = tc_WarpRouting c"
  "tc_OriginRequest (appended_config mv ts ip hosts c) = tc_OriginRequest c"
  "tc_WarpRouting (removed_config mv ts hosts c) = tc_WarpRouting c"
  "tc_OriginRequest (removed_config mv ts hosts c) = tc_OriginRequest c"
  by (simp_all add: appended_config_def removed_config_def)

lemmas config_laws = table_appended table_removed canonical_appended canonical_removed

lemma appended_config_idem:
  "enumerates mv \<Longrightarrow> appended_config mv ts ip hosts (appended_config mv ts ip hosts config) =
     appended_config mv ts ip hosts config"
  by (intro config_eqI [where ts = ts]) (simp_all add: config_laws spec_append_idem)

end
