(* ===== verification/Manager.thy ===== *)
theory Manager
  imports Domain
begin

text \<open>
  The interface \<^verbatim>\<open>CloudflareTunnelManager\<close> of \<^verbatim>\<open>internal/controller/external.go\<close>, through
  which both controllers reach Cloudflare. A Go interface value is a record of operations on
  the state of its implementation. The contracts the controllers rest on are locales over
  such a record; the implementation of \<^verbatim>\<open>pkg/external\<close> interprets them.
\<close>

record 's CloudflareTunnelManager =
  m_CreateTunnel :: "string \<Rightarrow> ('s, CFTunnel) io"
  m_DeleteTunnel :: "string \<Rightarrow> ('s, unit) io"
  m_GetTunnel :: "string \<Rightarrow> ('s, CFTunnel) io"
  m_GetTunnelToken :: "string \<Rightarrow> ('s, CloudflareTunnelToken) io"
  m_GetTunnelConfiguration :: "string \<Rightarrow> ('s, TunnelConfiguration) io"
  m_UpdateTunnelConfiguration :: "string \<Rightarrow> TunnelConfiguration \<Rightarrow> ('s, unit) io"
  m_AddDNS :: "string \<Rightarrow> string \<Rightarrow> ('s, unit) io"
  m_GetDNS :: "string \<Rightarrow> string \<Rightarrow> ('s, DNSRecord) io"
  m_UpdateDNS :: "string \<Rightarrow> string \<Rightarrow> DNSRecord \<Rightarrow> ('s, unit) io"
  m_DeleteDNS :: "string \<Rightarrow> string \<Rightarrow> ('s, unit) io"
  m_DeleteAllDNS :: "string \<Rightarrow> ('s, unit) io"

section \<open>A DNS zone as the controllers see it\<close>

text \<open>
  The first CNAME record a lookup of \<open>h\<close> finds in a zone. The empty name does not restrict
  the lookup: it finds the first CNAME record of the whole zone.
\<close>

definition cname_matches :: "string \<Rightarrow> DNSRecord \<Rightarrow> bool" where
  "cname_matches h r \<longleftrightarrow> rec_Type r = ''CNAME'' \<and> (h = '''' \<or> rec_Name r = h)"

definition first_cname :: "string \<Rightarrow> DNSRecord list \<Rightarrow> DNSRecord" where
  "first_cname h zone = (case filter (cname_matches h) zone of [] \<Rightarrow> zero_DNSRecord | r # _ \<Rightarrow> r)"

text \<open>A record after \<^verbatim>\<open>UpdateDNS\<close> made it a proxied alias of the tunnel.\<close>

definition repoint :: "string \<Rightarrow> string \<Rightarrow> DNSRecord \<Rightarrow> DNSRecord \<Rightarrow> bool" where
  "repoint t h old new \<longleftrightarrow> rec_ID new = rec_ID old \<and> rec_Type new = ''CNAME'' \<and> rec_Name new = h
     \<and> rec_Proxied new = Some True \<and> rec_Content new = tunnel_target t"

definition zone_ok :: "DNSRecord list \<Rightarrow> bool" where
  "zone_ok zone \<longleftrightarrow> distinct (map rec_ID zone) \<and> '''' \<notin> rec_ID ` set zone"

lemma first_cname_in: "first_cname h zone \<noteq> zero_DNSRecord \<Longrightarrow>
    first_cname h zone \<in> set zone \<and> cname_matches h (first_cname h zone)"
  unfolding first_cname_def
  by (auto split: list.splits dest: filter_eq_ConsD)

lemma first_cname_id: "zone_ok zone \<Longrightarrow>
    rec_ID (first_cname h zone) = '''' \<longleftrightarrow> first_cname h zone = zero_DNSRecord"
  using first_cname_in [of h zone] by (force simp: zone_ok_def zero_DNSRecord_def)

lemma first_cname_zero_iff: "zone_ok zone \<Longrightarrow>
    first_cname h zone = zero_DNSRecord \<longleftrightarrow> (\<forall>r \<in> set zone. \<not> cname_matches h r)"
  unfolding first_cname_def
  by (force simp: filter_empty_conv zone_ok_def zero_DNSRecord_def split: list.splits
      dest: filter_eq_ConsD)

text \<open>
  The DNS contract. \<open>documented\<close> stands for what is assumed of the service behind the
  implementation; under it, every call that succeeds has the effect its name promises.
\<close>

locale dns_manager =
  fixes mgr :: "'s CloudflareTunnelManager"
    and zone :: "'s \<Rightarrow> DNSRecord list"
    and documented :: bool
  assumes get_dns: "documented \<Longrightarrow> m_GetDNS mgr t h s = (Ok r, s') \<Longrightarrow>
      zone s' = zone s \<and> r = first_cname h (zone s)"
    and add_dns: "documented \<Longrightarrow> m_AddDNS mgr t h s = (Ok u, s') \<Longrightarrow>
      \<exists>new. zone s' = zone s @ [new] \<and> points_to new t \<and> rec_Name new = h
        \<and> rec_ID new \<notin> rec_ID ` set (zone s)"
    and update_dns: "documented \<Longrightarrow> m_UpdateDNS mgr t h cur s = (Ok u, s') \<Longrightarrow>
      \<exists>f. zone s' = map (\<lambda>r. if rec_ID r = rec_ID cur then f r else r) (zone s)
        \<and> (\<forall>r. repoint t h r (f r))"
    and delete_dns: "documented \<Longrightarrow> m_DeleteDNS mgr t i s = (Ok u, s') \<Longrightarrow>
      zone s' = filter (\<lambda>r. rec_ID r \<noteq> i) (zone s)"

section \<open>How the calls change what a lookup finds\<close>

lemma first_cname_find:
  "first_cname h zone = (case find (cname_matches h) zone of None \<Rightarrow> zero_DNSRecord | Some r \<Rightarrow> r)"
  unfolding first_cname_def by (induction zone) auto

lemma find_map_changed:
  "distinct (map key xs) \<Longrightarrow> find P xs = Some c \<Longrightarrow> P (f c) \<Longrightarrow>
   find P (map (\<lambda>x. if key x = key c then f x else x) xs) = Some (f c)"
proof (induction xs)
  case (Cons x xs)
  show ?case
  proof (cases "P x")
    case True
    with Cons.prems show ?thesis by auto
  next
    case False
    with Cons.prems have "find P xs = Some c" by simp
    then have "c \<in> set xs" by (induction xs) (auto split: if_splits)
    with Cons.prems(1) have "key x \<noteq> key c" by auto
    with False Cons show ?thesis by auto
  qed
qed simp

lemma find_map_unaffected:
  "(\<And>x. x \<in> set xs \<Longrightarrow> g x = x \<or> \<not> P x \<and> \<not> P (g x)) \<Longrightarrow> find P (map g xs) = find P xs"
proof (induction xs)
  case (Cons x xs)
  have "g x = x \<or> \<not> P x \<and> \<not> P (g x)" by (rule Cons.prems) simp
  moreover have "find P (map g xs) = find P xs" using Cons by simp
  ultimately show ?case by (elim disjE) simp_all
qed simp

lemma find_filter_unaffected:
  "(\<And>x. x \<in> set xs \<Longrightarrow> P x \<Longrightarrow> Q x) \<Longrightarrow> find P (filter Q xs) = find P xs"
  by (induction xs) auto

lemma first_cname_map:
  assumes ok: "zone_ok zone" and cur: "rec_ID (first_cname h zone) \<noteq> ''''" and "h \<noteq> ''''"
    and f: "\<And>r. repoint t h r (f r)"
    and zone': "zone' = map (\<lambda>r. if rec_ID r = rec_ID (first_cname h zone) then f r else r) zone"
  shows "points_to (first_cname h zone') t" and "zone_ok zone'"
    and "h' \<noteq> '''' \<Longrightarrow> h' \<noteq> h \<Longrightarrow> first_cname h' zone' = first_cname h' zone"
proof -
  let ?c = "first_cname h zone"
  from cur have "?c \<noteq> zero_DNSRecord" by (auto simp: zero_DNSRecord_def)
  then have c: "?c \<in> set zone" "cname_matches h ?c" "find (cname_matches h) zone = Some ?c"
    using first_cname_in [of h zone] by (auto simp: first_cname_find split: option.splits)
  have ids: "map rec_ID zone' = map rec_ID zone"
    using f by (simp add: zone' repoint_def)
  then have "rec_ID ` set zone' = rec_ID ` set zone" by (metis list.set_map)
  with ids ok show "zone_ok zone'" by (simp add: zone_ok_def)
  have "find (cname_matches h) zone' = Some (f ?c)"
    unfolding zone' using ok c(3) f [of ?c]
    by (intro find_map_changed) (auto simp: zone_ok_def repoint_def cname_matches_def)
  with f [of ?c] cur show "points_to (first_cname h zone') t"
    by (simp add: first_cname_find points_to_def repoint_def)
  show "first_cname h' zone' = first_cname h' zone" if h': "h' \<noteq> ''''" "h' \<noteq> h"
  proof -
    have "find (cname_matches h') zone' = find (cname_matches h') zone"
      unfolding zone'
    proof (rule find_map_unaffected)
      fix r assume r: "r \<in> set zone"
      have "r = ?c" if "rec_ID r = rec_ID ?c"
        using ok r c(1) that by (auto simp: zone_ok_def distinct_map inj_on_def)
      with c(2) h' f [of ?c] \<open>h \<noteq> ''''\<close>
      show "(if rec_ID r = rec_ID ?c then f r else r) = r \<or> \<not> cname_matches h' r
          \<and> \<not> cname_matches h' (if rec_ID r = rec_ID ?c then f r else r)"
        by (auto simp: cname_matches_def repoint_def)
    qed
    then show ?thesis by (simp add: first_cname_find)
  qed
qed

lemma find_append_last: "find P (xs @ [x]) =
    (case find P xs of Some y \<Rightarrow> Some y | None \<Rightarrow> if P x then Some x else None)"
  by (induction xs) auto

lemma first_cname_add:
  assumes ok: "zone_ok zone" and none: "rec_ID (first_cname h zone) = ''''"
    and new: "points_to new t" "rec_Name new = h" "rec_ID new \<notin> rec_ID ` set zone"
  shows "points_to (first_cname h (zone @ [new])) t" and "zone_ok (zone @ [new])"
    and "h' \<noteq> '''' \<Longrightarrow> h' \<noteq> h \<Longrightarrow> first_cname h' (zone @ [new]) = first_cname h' zone"
proof -
  have "find (cname_matches h) zone = None"
    using none first_cname_id [OF ok] first_cname_zero_iff [OF ok] by (auto simp: find_None_iff)
  then show "points_to (first_cname h (zone @ [new])) t"
    using new by (simp add: first_cname_find find_append_last cname_matches_def points_to_def)
  show "zone_ok (zone @ [new])" using ok new by (auto simp: zone_ok_def points_to_def)
  show "first_cname h' (zone @ [new]) = first_cname h' zone" if "h' \<noteq> ''''" "h' \<noteq> h"
    using that new(2) by (auto simp: first_cname_find find_append_last cname_matches_def split: option.split)
qed

text \<open>A name has a sole CNAME record when at most one record of the zone matches it.\<close>

definition sole_cname :: "string \<Rightarrow> DNSRecord list \<Rightarrow> bool" where
  "sole_cname h zone \<longleftrightarrow> length (filter (cname_matches h) zone) \<le> 1"

lemma first_cname_delete:
  assumes ok: "zone_ok zone" and cur: "rec_ID (first_cname h zone) \<noteq> ''''" and "h \<noteq> ''''"
    and zone': "zone' = filter (\<lambda>r. rec_ID r \<noteq> rec_ID (first_cname h zone)) zone"
  shows "sole_cname h zone \<Longrightarrow> first_cname h zone' = zero_DNSRecord" and "zone_ok zone'"
    and "sole_cname k zone \<Longrightarrow> sole_cname k zone'"
    and "h' \<noteq> '''' \<Longrightarrow> h' \<noteq> h \<Longrightarrow> first_cname h' zone' = first_cname h' zone"
proof -
  let ?c = "first_cname h zone"
  from cur have "?c \<noteq> zero_DNSRecord" by (auto simp: zero_DNSRecord_def)
  then have c: "?c \<in> set zone" "cname_matches h ?c" using first_cname_in [of h zone] by auto
  show ok': "zone_ok zone'" using ok unfolding zone' zone_ok_def by (auto simp: distinct_map inj_on_def)
  show "sole_cname k zone \<Longrightarrow> sole_cname k zone'"
  proof -
    have "filter (cname_matches k) zone' = filter (\<lambda>r. rec_ID r \<noteq> rec_ID ?c) (filter (cname_matches k) zone)"
      unfolding zone' by (simp add: conj_commute)
    then show "sole_cname k zone \<Longrightarrow> sole_cname k zone'"
      unfolding sole_cname_def by (metis length_filter_le le_trans)
  qed
  show "first_cname h zone' = zero_DNSRecord" if "sole_cname h zone"
  proof -
    from that c have "filter (cname_matches h) zone = [?c]"
      unfolding sole_cname_def first_cname_def
      by (cases "filter (cname_matches h) zone") (auto simp: filter_empty_conv)
    then have "set (filter (cname_matches h) zone) = {?c}" by simp
    then have "r \<in> set zone \<and> cname_matches h r \<longleftrightarrow> r = ?c" for r 
      by (simp add: set_eq_iff)
    then have "\<not> cname_matches h r" if "r \<in> set zone" "rec_ID r \<noteq> rec_ID ?c" for r
      using that by metis
    then show ?thesis unfolding first_cname_zero_iff [OF ok'] by (auto simp: zone')
  qed
  show "first_cname h' zone' = first_cname h' zone" if h': "h' \<noteq> ''''" "h' \<noteq> h"
  proof -
    have "find (cname_matches h') zone' = find (cname_matches h') zone"
      unfolding zone'
    proof (rule find_filter_unaffected)
      fix r assume r: "r \<in> set zone" "cname_matches h' r"
      show "rec_ID r \<noteq> rec_ID ?c"
      proof
        assume "rec_ID r = rec_ID ?c"
        with ok r(1) c(1) have "r = ?c" by (auto simp: zone_ok_def distinct_map inj_on_def)
        with r(2) c(2) h' \<open>h \<noteq> ''''\<close> show False by (auto simp: cname_matches_def)
      qed
    qed
    then show ?thesis by (simp add: first_cname_find)
  qed
qed

text \<open>The configurations of the tunnels, beside the zone.\<close>

locale cloudflare_view = dns_manager mgr zone documented
  for mgr :: "'s CloudflareTunnelManager" and zone and documented +
  fixes config_of :: "'s \<Rightarrow> string \<Rightarrow> TunnelConfiguration"
  assumes get_config: "documented \<Longrightarrow> m_GetTunnelConfiguration mgr t s = (Ok c, s') \<Longrightarrow>
      c = config_of s t \<and> config_of s' = config_of s \<and> zone s' = zone s"
    and update_config: "documented \<Longrightarrow> m_UpdateTunnelConfiguration mgr t c s = (Ok u, s') \<Longrightarrow>
      config_of s' = (config_of s)(t := c) \<and> zone s' = zone s"
    and dns_keeps_config:
      "documented \<Longrightarrow> m_GetDNS mgr t h s = (Ok d, s') \<Longrightarrow> config_of s' = config_of s"
      "documented \<Longrightarrow> m_AddDNS mgr t h s = (Ok u, s') \<Longrightarrow> config_of s' = config_of s"
      "documented \<Longrightarrow> m_UpdateDNS mgr t h d s = (Ok u, s') \<Longrightarrow> config_of s' = config_of s"
      "documented \<Longrightarrow> m_DeleteDNS mgr t i s = (Ok u, s') \<Longrightarrow> config_of s' = config_of s"

text \<open>
  Ownership: an implementation marks the records it writes for a tunnel, and deletes the marked
  records of a tunnel together. A zone is tidy when every alias of a tunnel has its mark.
\<close>

definition alias_of :: "string \<Rightarrow> DNSRecord \<Rightarrow> bool" where
  "alias_of t r \<longleftrightarrow> rec_Type r = ''CNAME'' \<and> rec_Content r = tunnel_target t"

definition tidy :: "(string \<Rightarrow> DNSRecord \<Rightarrow> bool) \<Rightarrow> DNSRecord list \<Rightarrow> bool" where
  "tidy marks zone \<longleftrightarrow> zone_ok zone \<and> (\<forall>t. \<forall>r \<in> set zone. alias_of t r \<longrightarrow> marks t r)"

lemma alias_of_inj: "alias_of t r \<Longrightarrow> alias_of t' r \<Longrightarrow> t = t'"
  by (simp add: alias_of_def tunnel_target_def)

lemma tidy_add:
  assumes "tidy marks zone" and new: "points_to new t" "rec_Type new = ''CNAME''" "marks t new" "rec_ID new \<notin> rec_ID ` set zone"
  shows "tidy marks (zone @ [new])"
proof -
  have "alias_of t new" using new by (simp add: alias_of_def points_to_def)
  with new(3) have "marks t' new" if "alias_of t' new" for t' using alias_of_inj [OF that] by blast
  with assms show ?thesis by (auto simp: tidy_def zone_ok_def points_to_def)
qed

lemma tidy_update:
  assumes "tidy marks zone" and f: "\<And>r. repoint t h r (f r) \<and> marks t (f r)"
  shows "tidy marks (map (\<lambda>r. if rec_ID r = i then f r else r) zone)"
proof -
  let ?g = "\<lambda>r. if rec_ID r = i then f r else r"
  have ids: "map rec_ID (map ?g zone) = map rec_ID zone" using f by (simp add: repoint_def)
  then have "zone_ok (map ?g zone) = zone_ok zone"
    unfolding zone_ok_def by (metis list.set_map)
  moreover have "\<forall>t'. \<forall>r \<in> set (map ?g zone). alias_of t' r \<longrightarrow> marks t' r"
  proof (intro allI ballI impI)
    fix t' r assume "r \<in> set (map ?g zone)" and r: "alias_of t' r"
    then consider "r \<in> set zone" | x where "r = f x" by (auto split: if_splits)
    then show "marks t' r"
    proof cases
      case 2
      have "alias_of t r" using f [of x] by (simp add: 2 alias_of_def repoint_def)
      with r f [of x] show ?thesis using alias_of_inj [of t r t'] by (simp add: 2)
    qed (use assms(1) r in \<open>simp add: tidy_def\<close>)
  qed
  ultimately show ?thesis using assms(1) by (simp add: tidy_def)
qed

lemma tidy_filter: "tidy marks zone \<Longrightarrow> tidy marks (filter P zone)"
  by (auto simp: tidy_def zone_ok_def distinct_map_filter)

locale record_owner = cloudflare_view mgr zone documented config_of
  for mgr :: "'s CloudflareTunnelManager" and zone and documented and config_of +
  fixes marks :: "string \<Rightarrow> DNSRecord \<Rightarrow> bool"
  assumes marks_inj: "marks t r \<Longrightarrow> marks t' r \<Longrightarrow> t = t'"
    and add_marks: "documented \<Longrightarrow> m_AddDNS mgr t h s = (Ok u, s') \<Longrightarrow>
      \<exists>new. zone s' = zone s @ [new] \<and> rec_Type new = ''CNAME'' \<and> marks t new"
    and update_marks: "documented \<Longrightarrow> m_UpdateDNS mgr t h cur s = (Ok u, s') \<Longrightarrow>
      \<exists>f. zone s' = map (\<lambda>r. if rec_ID r = rec_ID cur then f r else r) (zone s)
        \<and> (\<forall>r. repoint t h r (f r) \<and> marks t (f r))"
    and delete_all: "documented \<Longrightarrow> zone_ok (zone s) \<Longrightarrow> m_DeleteAllDNS mgr t s = (Ok u, s') \<Longrightarrow>
      zone s' = filter (\<lambda>r. \<not> (rec_Type r = ''CNAME'' \<and> marks t r)) (zone s)"
begin

lemma add_tidy:
  assumes doc: documented and "tidy marks (zone s)" and run: "m_AddDNS mgr t h s = (Ok u, s')"
  shows "tidy marks (zone s')"
proof -
  from add_marks [OF doc run] obtain new where new: "zone s' = zone s @ [new]" "rec_Type new = ''CNAME''" "marks t new" by blast
  with add_dns [OF doc run] have "points_to new t" "rec_ID new \<notin> rec_ID ` set (zone s)" by auto
  from tidy_add [OF assms(2) this(1) new(2,3) this(2)] show ?thesis by (simp add: new(1))
qed

lemma update_tidy: "documented \<Longrightarrow> tidy marks (zone s) \<Longrightarrow> m_UpdateDNS mgr t h cur s = (Ok u, s') \<Longrightarrow> tidy marks (zone s')"
  using update_marks [of t h cur s u s'] tidy_update [of marks "zone s" t h] by auto

lemma delete_tidy: "documented \<Longrightarrow> tidy marks (zone s) \<Longrightarrow> m_DeleteDNS mgr t i s = (Ok u, s') \<Longrightarrow> tidy marks (zone s')"
  using delete_dns [of t i s u s'] tidy_filter by simp

text \<open>In a tidy zone, deleting the records of a tunnel deletes its aliases, and no alias of another.\<close>

lemma delete_all_aliases:
  assumes documented and "tidy marks (zone s)" and "m_DeleteAllDNS mgr t s = (Ok u, s')"
  shows "r \<in> set (zone s') \<Longrightarrow> \<not> alias_of t r" and "tidy marks (zone s')"
  using delete_all [OF assms(1) _ assms(3)] assms(2) tidy_filter by (auto simp: tidy_def alias_of_def)

end

section \<open>Errors about missing tunnels\<close>

text \<open>
  \<^verbatim>\<open>reconcileTunnel\<close> asks with \<^verbatim>\<open>errors.Is\<close> whether the token call failed with
  \<^verbatim>\<open>ErrTunnelNotFound\<close>. \<open>opaque_manager\<close> describes implementations whose errors never carry
  that sentinel.
\<close>

locale opaque_manager =
  fixes mgr :: "'s CloudflareTunnelManager"
  assumes token_error_opaque: "m_GetTunnelToken mgr t s = (Err e, s') \<Longrightarrow> \<not> errors_Is e ErrTunnelNotFound"

section \<open>Issuing tunnels\<close>

text \<open>
  What recording a tunnel rests on: a created tunnel has an identifier, a token is one issued
  for the tunnel it was asked for, and a call changes the implementation's state by a step of
  \<open>step\<close> only, whatever its reply.
\<close>

locale tunnel_issuer = opaque_manager mgr
  for mgr :: "'s CloudflareTunnelManager" +
  fixes documented :: bool and issued :: "string \<Rightarrow> CloudflareTunnelToken \<Rightarrow> bool" and step :: "'s \<Rightarrow> 's \<Rightarrow> bool"
  assumes create_step: "documented \<Longrightarrow> step s (snd (m_CreateTunnel mgr n s))"
    and token_step: "documented \<Longrightarrow> step s (snd (m_GetTunnelToken mgr t s))"
    and delete_step: "documented \<Longrightarrow> step s (snd (m_DeleteTunnel mgr t s))"
    and delete_dns_step: "documented \<Longrightarrow> step s (snd (m_DeleteAllDNS mgr t s))"
    and created_id: "documented \<Longrightarrow> fst (m_CreateTunnel mgr n s) = Ok tunnel \<Longrightarrow> cft_tunnel_ID tunnel \<noteq> ''''"
    and token_issued: "documented \<Longrightarrow> fst (m_GetTunnelToken mgr t s) = Ok token \<Longrightarrow> issued t token"


end
