(* ===== verification/Kubernetes.thy ===== *)
theory Kubernetes
  imports Manager
begin

text \<open>
  What the operator uses of Kubernetes. The apply configurations it builds are records; the
  API client and the helper libraries (controller-runtime, apimachinery, the generated apply
  configurations) are parameters, and every call of the client or of the tunnel manager made
  by a controller is an event.
\<close>

section \<open>Apply configurations\<close>

record OwnerReferenceApply =
  or_APIVersion :: string
  or_Kind :: string
  or_Name :: string
  or_UID :: string
  or_BlockOwnerDeletion :: bool
  or_Controller :: bool

record SecretApply =
  sa_Name :: string
  sa_Namespace :: string
  sa_Labels :: "string \<rightharpoonup> string"
  sa_OwnerReferences :: "OwnerReferenceApply list"
  sa_Data :: "string \<rightharpoonup> string"

record ServicePortApply =
  sp_Name :: string
  sp_Protocol :: string
  sp_Port :: int32
  sp_TargetPort :: IntOrString

record ServiceApply =
  sva_Name :: string
  sva_Namespace :: string
  sva_Labels :: "string \<rightharpoonup> string"
  sva_OwnerReferences :: "OwnerReferenceApply list"
  sva_Ports :: "ServicePortApply list"
  sva_Selector :: "string \<rightharpoonup> string"
  sva_Type :: string

record ContainerPortApply =
  cp_Name :: string
  cp_Protocol :: string
  cp_ContainerPort :: int32

record ProbeApply =
  pr_HTTPGetPath :: string
  pr_HTTPGetPort :: IntOrString
  pr_FailureThreshold :: int32
  pr_InitialDelaySeconds :: int32
  pr_PeriodSeconds :: int32

record ContainerApply =
  ca_Name :: string
  ca_Image :: string
  ca_ImagePullPolicy :: string
  ca_Args :: "string list"
  ca_Env :: "EnvVarApply list"
  ca_Ports :: "ContainerPortApply list"
  ca_Resources :: ResourceRequirements
  ca_SecurityContext :: SecurityContextApply
  ca_LivenessProbe :: ProbeApply

record PodTemplateApply =
  pt_Labels :: "string \<rightharpoonup> string"
  pt_TopologySpreadConstraints :: "TopologySpreadConstraintApply list"
  pt_SecurityContext :: PodSecurityContextApply
  pt_ImagePullSecrets :: "string list"
  pt_Containers :: "ContainerApply list"
  pt_NodeSelector :: go_map
  pt_Tolerations :: "json list"
  pt_Affinity :: "json option"

record DeploymentApply =
  da_Name :: string
  da_Namespace :: string
  da_Labels :: "string \<rightharpoonup> string"
  da_OwnerReferences :: "OwnerReferenceApply list"
  da_Replicas :: int32
  da_MatchLabels :: "string \<rightharpoonup> string"
  da_Template :: PodTemplateApply

datatype ApplyConfig =
    AC_Secret SecretApply
  | AC_Service ServiceApply
  | AC_Deployment DeploymentApply

section \<open>The API client\<close>

record PatchOptions =
  po_FieldManager :: string
  po_Force :: bool

datatype OperationResult = OperationResultNone | OperationResultCreated | OperationResultUpdated

text \<open>
  The calls of \<^verbatim>\<open>client.Client\<close> the operator makes, on an unknown world. \<^verbatim>\<open>Update\<close> writes the
  server's reply into the object, so it returns an object. \<^verbatim>\<open>ctrl.CreateOrUpdate\<close> takes the
  mutation it applies to the object read.
\<close>

record 'w k8s_client =
  k_Get_CloudflareTunnel :: "NamespacedName \<Rightarrow> ('w, CloudflareTunnel) io"
  k_Get_Ingress :: "NamespacedName \<Rightarrow> ('w, Ingress) io"
  k_Get_Secret :: "NamespacedName \<Rightarrow> ('w, Secret) io"
  k_Get_Service :: "NamespacedName \<Rightarrow> ('w, Service) io"
  k_Get_Deployment :: "NamespacedName \<Rightarrow> ('w, Deployment) io"
  k_List_CloudflareTunnels :: "nat \<Rightarrow> (string \<times> string) list \<Rightarrow> ('w, CloudflareTunnelList) io"
  k_Update_CloudflareTunnel :: "CloudflareTunnel \<Rightarrow> ('w, CloudflareTunnel) io"
  k_Update_Ingress :: "Ingress \<Rightarrow> ('w, Ingress) io"
  k_StatusUpdate_CloudflareTunnel :: "CloudflareTunnel \<Rightarrow> ('w, CloudflareTunnel) io"
  k_Patch_Apply :: "json \<Rightarrow> PatchOptions \<Rightarrow> ('w, unit) io"
  k_CreateOrUpdate_ServiceMonitor ::
    "ServiceMonitor \<Rightarrow> (ServiceMonitor \<Rightarrow> ServiceMonitor outcome) \<Rightarrow> ('w, OperationResult) io"
  k_CreateOrUpdate_PDB ::
    "PodDisruptionBudget \<Rightarrow> (PodDisruptionBudget \<Rightarrow> PodDisruptionBudget outcome) \<Rightarrow> ('w, OperationResult) io"

section \<open>Library functions without effects\<close>

text \<open>
  \<^verbatim>\<open>lib_GVKForObject\<close> returns the group-version string and the kind.
\<close>

record k8s_lib =
  ContainsFinalizer :: "ObjectMeta \<Rightarrow> string \<Rightarrow> bool"
  AddFinalizer :: "ObjectMeta \<Rightarrow> string \<Rightarrow> ObjectMeta"
  RemoveFinalizer :: "ObjectMeta \<Rightarrow> string \<Rightarrow> ObjectMeta"
  SetStatusCondition :: "Condition list \<Rightarrow> Condition \<Rightarrow> Condition list"
  GVKForObject :: "CloudflareTunnel \<Rightarrow> (string \<times> string) outcome"
  SetControllerReference :: "CloudflareTunnel \<Rightarrow> ObjectMeta \<Rightarrow> ObjectMeta outcome"
  ToUnstructured :: "ApplyConfig \<Rightarrow> json outcome"
  ExtractService :: "Service \<Rightarrow> string \<Rightarrow> ApplyConfig outcome"
  ExtractDeployment :: "Deployment \<Rightarrow> string \<Rightarrow> ApplyConfig outcome"
  DeepEqual :: "ApplyConfig \<Rightarrow> ApplyConfig \<Rightarrow> bool"

text \<open>What \<^verbatim>\<open>controllerutil\<close> documents of the finalizer helpers.\<close>

definition finalizer_helpers :: "k8s_lib \<Rightarrow> bool" where
  "finalizer_helpers lib \<longleftrightarrow>
     (\<forall>m f. ContainsFinalizer lib (AddFinalizer lib m f) f) \<and>
     (\<forall>m f. \<not> ContainsFinalizer lib (RemoveFinalizer lib m f) f)"

text \<open>
  What \<^verbatim>\<open>meta.SetStatusCondition\<close> documents: the condition of the given type has the given
  status, reason and message afterwards; conditions of other types are kept.
\<close>

definition find_condition :: "Condition list \<Rightarrow> string \<Rightarrow> (string \<times> string \<times> string) option" where
  "find_condition cs t = map_option (\<lambda>c. (cond_Status c, cond_Reason c, cond_Message c))
     (find (\<lambda>c. cond_Type c = t) cs)"

definition condition_helper :: "k8s_lib \<Rightarrow> bool" where
  "condition_helper lib \<longleftrightarrow> (\<forall>cs c t. find_condition (SetStatusCondition lib cs c) t =
     (if t = cond_Type c then Some (cond_Status c, cond_Reason c, cond_Message c)
      else find_condition cs t))"

text \<open>
  \<^verbatim>\<open>equality.Semantic.DeepEqual\<close> never equates values of different types, and
  \<^verbatim>\<open>ExtractService\<close> returns a service apply configuration.
\<close>

definition typed_helpers :: "k8s_lib \<Rightarrow> bool" where
  "typed_helpers lib \<longleftrightarrow> (\<forall>x y. \<not> DeepEqual lib (AC_Secret x) (AC_Service y)) \<and>
     (\<forall>svc manager a. ExtractService lib svc manager = Ok a \<longrightarrow> (\<exists>y. a = AC_Service y))"

text \<open>\<^verbatim>\<open>ctrl.Result\<close>.\<close>

record Result =
  res_Requeue :: bool
  res_RequeueAfter :: int64

definition zero_Result :: Result where
  "zero_Result = \<lparr>res_Requeue = False, res_RequeueAfter = 0\<rparr>"

section \<open>Events\<close>

datatype event =
    Lock
  | Unlock
  | K_GetCloudflareTunnel NamespacedName "CloudflareTunnel outcome"
  | K_GetIngress NamespacedName "Ingress outcome"
  | K_GetSecret NamespacedName "Secret outcome"
  | K_GetService NamespacedName "Service outcome"
  | K_GetDeployment NamespacedName "Deployment outcome"
  | K_ListCloudflareTunnels nat "(string \<times> string) list" "CloudflareTunnelList outcome"
  | K_UpdateCloudflareTunnel CloudflareTunnel "CloudflareTunnel outcome"
  | K_UpdateIngress Ingress "Ingress outcome"
  | K_StatusUpdate CloudflareTunnel "CloudflareTunnel outcome"
  | K_Patch json PatchOptions "unit outcome"
  | K_CreateOrUpdateServiceMonitor ServiceMonitor "OperationResult outcome"
  | K_CreateOrUpdatePDB PodDisruptionBudget "OperationResult outcome"
  | M_CreateTunnel string "CFTunnel outcome"
  | M_DeleteTunnel string "unit outcome"
  | M_GetTunnelToken string "CloudflareTunnelToken outcome"
  | M_GetTunnelConfiguration string "TunnelConfiguration outcome"
  | M_UpdateTunnelConfiguration string TunnelConfiguration "unit outcome"
  | M_AddDNS string string "unit outcome"
  | M_GetDNS string string "DNSRecord outcome"
  | M_UpdateDNS string string DNSRecord "unit outcome"
  | M_DeleteDNS string string "unit outcome"
  | M_DeleteAllDNS string "unit outcome"

type_synonym 'w state = "('w, event) sys"

text \<open>
  The structs \<^verbatim>\<open>CloudflareTunnelReconciler\<close> and \<^verbatim>\<open>IngressReconciler\<close>: the client, the manager
  and the libraries (with the scheme they close over). \<open>r_MapValues\<close> is the order in which
  the Go runtime enumerates the values of a map; the mutex of the ingress reconciler shows
  in the history.
\<close>

record 'w reconciler =
  r_Client :: "'w k8s_client"
  r_Manager :: "'w CloudflareTunnelManager"
  r_Lib :: k8s_lib
  r_MapValues :: "IngressRule list \<Rightarrow> IngressRule list"

section \<open>The calls, recorded\<close>

abbreviation Get_CloudflareTunnel :: "'w reconciler \<Rightarrow> NamespacedName \<Rightarrow> ('w state, CloudflareTunnel) io" where
  "Get_CloudflareTunnel r key \<equiv> logged (K_GetCloudflareTunnel key) (k_Get_CloudflareTunnel (r_Client r) key)"

abbreviation Get_Ingress :: "'w reconciler \<Rightarrow> NamespacedName \<Rightarrow> ('w state, Ingress) io" where
  "Get_Ingress r key \<equiv> logged (K_GetIngress key) (k_Get_Ingress (r_Client r) key)"

abbreviation Get_Secret :: "'w reconciler \<Rightarrow> NamespacedName \<Rightarrow> ('w state, Secret) io" where
  "Get_Secret r key \<equiv> logged (K_GetSecret key) (k_Get_Secret (r_Client r) key)"

abbreviation Get_Service :: "'w reconciler \<Rightarrow> NamespacedName \<Rightarrow> ('w state, Service) io" where
  "Get_Service r key \<equiv> logged (K_GetService key) (k_Get_Service (r_Client r) key)"

abbreviation Get_Deployment :: "'w reconciler \<Rightarrow> NamespacedName \<Rightarrow> ('w state, Deployment) io" where
  "Get_Deployment r key \<equiv> logged (K_GetDeployment key) (k_Get_Deployment (r_Client r) key)"

abbreviation List_CloudflareTunnels ::
  "'w reconciler \<Rightarrow> nat \<Rightarrow> (string \<times> string) list \<Rightarrow> ('w state, CloudflareTunnelList) io" where
  "List_CloudflareTunnels r limit selector \<equiv>
     logged (K_ListCloudflareTunnels limit selector) (k_List_CloudflareTunnels (r_Client r) limit selector)"

abbreviation Update_CloudflareTunnel :: "'w reconciler \<Rightarrow> CloudflareTunnel \<Rightarrow> ('w state, CloudflareTunnel) io" where
  "Update_CloudflareTunnel r cf \<equiv> logged (K_UpdateCloudflareTunnel cf) (k_Update_CloudflareTunnel (r_Client r) cf)"

abbreviation Update_Ingress :: "'w reconciler \<Rightarrow> Ingress \<Rightarrow> ('w state, Ingress) io" where
  "Update_Ingress r ing \<equiv> logged (K_UpdateIngress ing) (k_Update_Ingress (r_Client r) ing)"

abbreviation StatusUpdate :: "'w reconciler \<Rightarrow> CloudflareTunnel \<Rightarrow> ('w state, CloudflareTunnel) io" where
  "StatusUpdate r cf \<equiv> logged (K_StatusUpdate cf) (k_StatusUpdate_CloudflareTunnel (r_Client r) cf)"

abbreviation Patch_Apply :: "'w reconciler \<Rightarrow> json \<Rightarrow> PatchOptions \<Rightarrow> ('w state, unit) io" where
  "Patch_Apply r obj opts \<equiv> logged (K_Patch obj opts) (k_Patch_Apply (r_Client r) obj opts)"

abbreviation call_CreateTunnel :: "'w reconciler \<Rightarrow> string \<Rightarrow> ('w state, CFTunnel) io" where
  "call_CreateTunnel r name \<equiv> logged (M_CreateTunnel name) (m_CreateTunnel (r_Manager r) name)"

abbreviation call_DeleteTunnel :: "'w reconciler \<Rightarrow> string \<Rightarrow> ('w state, unit) io" where
  "call_DeleteTunnel r i \<equiv> logged (M_DeleteTunnel i) (m_DeleteTunnel (r_Manager r) i)"

abbreviation call_GetTunnelToken :: "'w reconciler \<Rightarrow> string \<Rightarrow> ('w state, CloudflareTunnelToken) io" where
  "call_GetTunnelToken r i \<equiv> logged (M_GetTunnelToken i) (m_GetTunnelToken (r_Manager r) i)"

abbreviation call_GetTunnelConfiguration :: "'w reconciler \<Rightarrow> string \<Rightarrow> ('w state, TunnelConfiguration) io" where
  "call_GetTunnelConfiguration r i \<equiv>
     logged (M_GetTunnelConfiguration i) (m_GetTunnelConfiguration (r_Manager r) i)"

abbreviation call_UpdateTunnelConfiguration ::
  "'w reconciler \<Rightarrow> string \<Rightarrow> TunnelConfiguration \<Rightarrow> ('w state, unit) io" where
  "call_UpdateTunnelConfiguration r i config \<equiv>
     logged (M_UpdateTunnelConfiguration i config) (m_UpdateTunnelConfiguration (r_Manager r) i config)"

abbreviation call_AddDNS :: "'w reconciler \<Rightarrow> string \<Rightarrow> string \<Rightarrow> ('w state, unit) io" where
  "call_AddDNS r i h \<equiv> logged (M_AddDNS i h) (m_AddDNS (r_Manager r) i h)"

abbreviation call_GetDNS :: "'w reconciler \<Rightarrow> string \<Rightarrow> string \<Rightarrow> ('w state, DNSRecord) io" where
  "call_GetDNS r i h \<equiv> logged (M_GetDNS i h) (m_GetDNS (r_Manager r) i h)"

abbreviation call_UpdateDNS :: "'w reconciler \<Rightarrow> string \<Rightarrow> string \<Rightarrow> DNSRecord \<Rightarrow> ('w state, unit) io" where
  "call_UpdateDNS r i h cur \<equiv> logged (M_UpdateDNS i h cur) (m_UpdateDNS (r_Manager r) i h cur)"

abbreviation call_DeleteDNS :: "'w reconciler \<Rightarrow> string \<Rightarrow> string \<Rightarrow> ('w state, unit) io" where
  "call_DeleteDNS r i rid \<equiv> logged (M_DeleteDNS i rid) (m_DeleteDNS (r_Manager r) i rid)"

abbreviation call_DeleteAllDNS :: "'w reconciler \<Rightarrow> string \<Rightarrow> ('w state, unit) io" where
  "call_DeleteAllDNS r i \<equiv> logged (M_DeleteAllDNS i) (m_DeleteAllDNS (r_Manager r) i)"

end
