(* ===== verification/Events.thy ===== *)
theory Events
  imports Kubernetes
begin

text \<open>
  Kinds of events, and properties of whole runs that follow from properties of their parts:
  for a property of event lists closed under concatenation, \<open>always\<close> composes along the
  control flow.
\<close>

section \<open>Kinds of events\<close>

fun is_manager_call :: "event \<Rightarrow> bool" where
  "is_manager_call (M_CreateTunnel _ _) = True"
| "is_manager_call (M_DeleteTunnel _ _) = True"
| "is_manager_call (M_GetTunnelToken _ _) = True"
| "is_manager_call (M_GetTunnelConfiguration _ _) = True"
| "is_manager_call (M_UpdateTunnelConfiguration _ _ _) = True"
| "is_manager_call (M_AddDNS _ _ _) = True"
| "is_manager_call (M_GetDNS _ _ _) = True"
| "is_manager_call (M_UpdateDNS _ _ _ _) = True"
| "is_manager_call (M_DeleteDNS _ _ _) = True"
| "is_manager_call (M_DeleteAllDNS _ _) = True"
| "is_manager_call _ = False"

fun is_cloudflare_write :: "event \<Rightarrow> bool" where
  "is_cloudflare_write (M_UpdateTunnelConfiguration _ _ _) = True"
| "is_cloudflare_write (M_AddDNS _ _ _) = True"
| "is_cloudflare_write (M_UpdateDNS _ _ _ _) = True"
| "is_cloudflare_write (M_DeleteDNS _ _ _) = True"
| "is_cloudflare_write (M_CreateTunnel _ _) = True"
| "is_cloudflare_write (M_DeleteTunnel _ _) = True"
| "is_cloudflare_write (M_DeleteAllDNS _ _) = True"
| "is_cloudflare_write _ = False"

section \<open>Properties that every run of a sequence keeps\<close>

text \<open>
  For a property of event lists closed under concatenation, it is enough to look at the parts.
\<close>

definition closed_events :: "(event list \<Rightarrow> bool) \<Rightarrow> bool" where
  "closed_events P \<longleftrightarrow> P [] \<and> (\<forall>as bs. P as \<longrightarrow> P bs \<longrightarrow> P (as @ bs))"

abbreviation always :: "(event list \<Rightarrow> bool) \<Rightarrow> ('w state, 'a) io \<Rightarrow> bool" where
  "always P \<equiv> traces (\<lambda>es _. P es)"

lemma always_mono: "traces A m \<Longrightarrow> (\<And>es r. A es r \<Longrightarrow> P es) \<Longrightarrow> always P m"
  by (rule traces_mono)

lemma always_handle:
  assumes "closed_events P" and "always P m" and "\<And>x. always P (k x)" and "\<And>e. always P (h e)"
  shows "always P (handle m h k)"
proof (rule traces_handle [where A = "\<lambda>es _. P es"])
  have app: "P (as @ bs)" if "P as" "P bs" for as bs
    using assms(1) that by (simp add: closed_events_def)
  show "always (\<lambda>es. P (es0 @ es)) (k x)" if "P es0" for x es0
    by (rule traces_mono [OF assms(3)]) (rule app [OF that])
  show "always (\<lambda>es. P (es0 @ es)) (h e)" if "P es0" for e es0
    by (rule traces_mono [OF assms(4)]) (rule app [OF that])
qed (rule assms(2))

lemma always_pure: "closed_events P \<Longrightarrow> always P (retE x)" "closed_events P \<Longrightarrow> always P (throwE e)"
    "closed_events P \<Longrightarrow> always P (panicE p)" "closed_events P \<Longrightarrow> always P (liftO y)"
  by (auto simp: closed_events_def intro!: trace_intros)

lemma always_bindE: "closed_events P \<Longrightarrow> always P m \<Longrightarrow> (\<And>x. always P (k x)) \<Longrightarrow> always P (bindE m k)"
  unfolding bindE_def by (auto intro!: always_handle always_pure)

lemma always_wrapW: "closed_events P \<Longrightarrow> always P m \<Longrightarrow> always P (wrapW msg m)"
  unfolding wrapW_def by (auto intro!: always_handle always_pure)

lemma always_forE: "closed_events P \<Longrightarrow> (\<And>x. always P (body x)) \<Longrightarrow> always P (forE xs body)"
  unfolding closed_events_def by (rule traces_forE_closed) auto

lemma always_if: "always P m \<Longrightarrow> always P n \<Longrightarrow> always P (if b then m else n)"
  by simp

lemmas always_intros = always_if always_handle always_bindE always_wrapW always_forE always_pure

lemma closed_list_all: "closed_events (list_all Q)"
  by (simp add: closed_events_def)

end
