(* ===== verification/IngressReconciler.thy ===== *)
theory IngressReconciler
  imports IngressRules Events
begin

text \<open>
  The \<^verbatim>\<open>IngressReconciler\<close> of \<^verbatim>\<open>internal/controller/ingress_watcher.go\<close>: the operations that
  call the API server and the tunnel manager, the order of their events, and what a
  successful run leaves in Cloudflare. Log lines are not modelled.
\<close>

section \<open>The mutex\<close>

text \<open>\<^verbatim>\<open>r.mu.Lock(); defer r.mu.Unlock()\<close>: the deferred call runs on every way out, a panic included.\<close>

definition with_lock :: "('w state, 'a) io \<Rightarrow> ('w state, 'a) io" where
  "with_lock m = (\<lambda>s. case m (s\<lparr>trace := trace s @ [Lock]\<rparr>) of
     (r, s') \<Rightarrow> (r, s'\<lparr>trace := trace s' @ [Unlock]\<rparr>))"

section \<open>The tunnel of an ingress\<close>

definition getCloudflareTunnel :: "'w reconciler \<Rightarrow> NamespacedName \<Rightarrow> ('w state, CloudflareTunnel) io" where
  "getCloudflareTunnel r cfTunnelName =
     (if nn_Name cfTunnelName = '''' \<or> nn_Namespace cfTunnelName = '''' then
        bindE (wrapW ''failed to list default Cloudflare Tunnel''
          (List_CloudflareTunnels r 1 [(DefaultLabelKey, ''true'')]))
        (\<lambda>defaultCFTunnels. case cftl_Items defaultCFTunnels of
            [] \<Rightarrow> throwE ErrDefaultCloudflareTunnelNotExists
          | cfTunnel # _ \<Rightarrow> retE cfTunnel)
      else
        handle (Get_CloudflareTunnel r cfTunnelName)
          (\<lambda>e. if IsNotFound e then throwE ErrCloudflareTunnelNotFound
            else throwE (Errorf_w ''failed to get Cloudflare Tunnel'' e))
          retE)"

section \<open>The tunnel configuration\<close>

definition appendCloudflareTunnelConfig ::
  "'w reconciler \<Rightarrow> string \<Rightarrow> host list \<Rightarrow> Addr \<Rightarrow> CloudflareTunnelSettings \<Rightarrow> ('w state, unit) io" where
  "appendCloudflareTunnelConfig r tunnelID hosts ip tunnelSettings = with_lock (
     bindE (wrapV ''failed to get tunnel configs'' (call_GetTunnelConfiguration r tunnelID))
     (\<lambda>config. wrapV ''failed to update tunnel configs''
       (call_UpdateTunnelConfiguration r tunnelID
         (appended_config (r_MapValues r) tunnelSettings ip hosts config))))"

definition removeCloudflareTunnelConfig ::
  "'w reconciler \<Rightarrow> string \<Rightarrow> host list \<Rightarrow> CloudflareTunnelSettings \<Rightarrow> ('w state, unit) io" where
  "removeCloudflareTunnelConfig r tunnelID hosts tunnelSettings = with_lock (
     bindE (wrapV ''failed to get tunnel configs'' (call_GetTunnelConfiguration r tunnelID))
     (\<lambda>config. wrapV ''failed to update tunnel configs''
       (call_UpdateTunnelConfiguration r tunnelID
         (removed_config (r_MapValues r) tunnelSettings hosts config))))"

section \<open>DNS records\<close>

definition appendDNSRecord :: "'w reconciler \<Rightarrow> string \<Rightarrow> host \<Rightarrow> ('w state, unit) io" where
  "appendDNSRecord r tunnelID h = with_lock (
     bindE (wrapV ''failed to get DNS record'' (call_GetDNS r tunnelID (h_Host h)))
     (\<lambda>record.
       if rec_ID record = '''' then
         wrapV ''failed to add DNS record'' (call_AddDNS r tunnelID (h_Host h))
       else bindE (liftO (Healthy record tunnelID)) (\<lambda>healthy.
         if \<not> healthy then
           wrapV ''failed to update DNS record'' (call_UpdateDNS r tunnelID (h_Host h) record)
         else retE ())))"

definition removeDNSRecord :: "'w reconciler \<Rightarrow> string \<Rightarrow> host \<Rightarrow> ('w state, unit) io" where
  "removeDNSRecord r tunnelID h = with_lock (
     bindE (wrapV ''failed to get DNS record'' (call_GetDNS r tunnelID (h_Host h)))
     (\<lambda>record.
       if rec_ID record = '''' then retE ()
       else wrapV ''failed to delete DNS record'' (call_DeleteDNS r tunnelID (rec_ID record))))"

section \<open>Finalizing and reconciling\<close>

definition finalizeIngress :: "'w reconciler \<Rightarrow> Ingress \<Rightarrow> ('w state, unit) io" where
  "finalizeIngress r ingress =
     bindE (wrapW ''failed to detect Cloudflare Tunnel name''
       (liftO (detectCloudflareTunnelName (om_Annotations (ing_Meta ingress)))))
     (\<lambda>cfTunnelName. handle (getCloudflareTunnel r cfTunnelName)
       (\<lambda>e. if errors_Is e ErrDefaultCloudflareTunnelNotExists then retE ()
         else throwE (Errorf_w ''failed to get Cloudflare Tunnel'' e))
       (\<lambda>cfTunnel.
         if om_DeletionTimestamp (cft_Meta cfTunnel) \<noteq> None then retE ()
         else let tunnelID = cft_TunnelID cfTunnel in
         if tunnelID = '''' then throwE (NewError ''tunnel ID is empty'')
         else let hosts = getHosts ingress in
         bindE (wrapW ''failed to remove Cloudflare Tunnel config''
           (removeCloudflareTunnelConfig r tunnelID hosts (spec_Settings (cft_Spec cfTunnel))))
         (\<lambda>_. forE hosts (\<lambda>h.
           wrapW ''failed to delete Cloudflare Tunnel'' (removeDNSRecord r tunnelID h)))))"

text \<open>
  Every error return of \<^verbatim>\<open>Reconcile\<close> carries the zero \<^verbatim>\<open>ctrl.Result\<close>, so an outcome says it all.
  \<open>ingress_sync\<close> is its part from \<^verbatim>\<open>detectCloudflareTunnelName\<close> on. \<^verbatim>\<open>Update\<close> writes the
  server's reply into the object, which is what the function reads afterwards.
\<close>

definition ingress_sync :: "'w reconciler \<Rightarrow> Ingress \<Rightarrow> ('w state, Result) io" where
  "ingress_sync r ingress =
     bindE (wrapW ''failed to detect Cloudflare Tunnel name''
       (liftO (detectCloudflareTunnelName (om_Annotations (ing_Meta ingress)))))
     (\<lambda>cfTunnelName. handle (getCloudflareTunnel r cfTunnelName)
       (\<lambda>e. if errors_Is e ErrDefaultCloudflareTunnelNotExists then retE zero_Result
         else throwE (Errorf_w ''failed to get Cloudflare Tunnel'' e))
       (\<lambda>cfTunnel.
         if om_DeletionTimestamp (cft_Meta cfTunnel) \<noteq> None
         then throwE (Errorf_w ''cloudflare tunnel is being deleted'' ErrCloudflareTunnelNotFound)
         else let tunnelID = cft_TunnelID cfTunnel; settings = spec_Settings (cft_Spec cfTunnel) in
         if tunnelID = '''' then throwE (NewError ''tunnel ID is empty'')
         else if ing_LoadBalancerIPs ingress = []
         then throwE (NewError ''ingress status load balancer ingress is empty'')
         else bindE (wrapW ''failed to parse IP'' (liftO (ParseAddr (ing_LoadBalancerIPs ingress ! 0))))
         (\<lambda>ip. let hosts = getHosts ingress in
           if checkToBeIgnored (om_Annotations (ing_Meta ingress)) then
             bindE (wrapW ''failed to update Cloudflare Tunnel config''
               (removeCloudflareTunnelConfig r tunnelID hosts settings))
             (\<lambda>_. bindE (forE hosts (\<lambda>h.
               wrapW ''failed to update Cloudflare DNS Record'' (removeDNSRecord r tunnelID h)))
             (\<lambda>_. retE zero_Result))
           else
             bindE (wrapW ''failed to update Cloudflare Tunnel config''
               (appendCloudflareTunnelConfig r tunnelID hosts ip settings))
             (\<lambda>_. bindE (forE hosts (\<lambda>h.
               wrapW ''failed to update Cloudflare DNS Record'' (appendDNSRecord r tunnelID h)))
             (\<lambda>_. retE zero_Result)))))"

text \<open>The deletion branch, and the branch that adds the finalizer.\<close>

definition ingress_release :: "'w reconciler \<Rightarrow> Ingress \<Rightarrow> ('w state, Result) io" where
  "ingress_release r ingress =
     bindE (wrapW ''failed to finalize Ingress'' (finalizeIngress r ingress))
     (\<lambda>_. bindE (Update_Ingress r
         (ingress\<lparr>ing_Meta := RemoveFinalizer (r_Lib r) (ing_Meta ingress) finalizerName\<rparr>))
     (\<lambda>_. retE zero_Result))"

definition ingress_claim :: "'w reconciler \<Rightarrow> Ingress \<Rightarrow> ('w state, Ingress) io" where
  "ingress_claim r ingress =
     wrapW ''failed to add finalizer to Ingress'' (Update_Ingress r
       (ingress\<lparr>ing_Meta := AddFinalizer (r_Lib r) (ing_Meta ingress) finalizerName\<rparr>))"

definition ingress_Reconcile :: "'w reconciler \<Rightarrow> NamespacedName \<Rightarrow> ('w state, Result) io" where
  "ingress_Reconcile r key =
     handle (Get_Ingress r key)
       (\<lambda>e. if IsNotFound e then retE zero_Result else throwE (Errorf_w ''failed to get Ingress'' e))
       (\<lambda>ingress.
         if om_DeletionTimestamp (ing_Meta ingress) \<noteq> None then
           (if ContainsFinalizer (r_Lib r) (ing_Meta ingress) finalizerName then ingress_release r ingress
            else retE zero_Result)
         else if \<not> ContainsFinalizer (r_Lib r) (ing_Meta ingress) finalizerName then
           bindE (ingress_claim r ingress) (ingress_sync r)
         else ingress_sync r ingress)"

section \<open>Events of the parts\<close>

lemma traces_with_lock:
  fixes m :: "('w state, 'a) io"
  assumes "traces A m" and "\<And>es r. A es r \<Longrightarrow> R (Lock # es @ [Unlock]) r"
  shows "traces R (with_lock m)"
  unfolding traces_def with_lock_def
proof
  fix s :: "'w state"
  let ?s = "s\<lparr>trace := trace s @ [Lock]\<rparr>"
  from assms(1) obtain es where "trace (snd (m ?s)) = trace ?s @ es" "A es (fst (m ?s))"
    unfolding traces_def by blast
  with assms(2) show "\<exists>es. trace (snd (case m ?s of (r, s') \<Rightarrow> (r, s'\<lparr>trace := trace s' @ [Unlock]\<rparr>))) = trace s @ es
      \<and> R es (fst (case m ?s of (r, s') \<Rightarrow> (r, s'\<lparr>trace := trace s' @ [Unlock]\<rparr>)))"
    by (auto split: prod.splits)
qed

fun is_lookup :: "event \<Rightarrow> bool" where
  "is_lookup (K_GetCloudflareTunnel _ _) = True"
| "is_lookup (K_ListCloudflareTunnels _ _ _) = True"
| "is_lookup _ = False"

text \<open>Calls that publish a host name.\<close>

fun is_publish :: "event \<Rightarrow> bool" where
  "is_publish (M_AddDNS _ _ _) = True"
| "is_publish (M_UpdateDNS _ _ _ _) = True"
| "is_publish _ = False"

text \<open>The mutex as an automaton over events: manager calls need it, it is not reentrant.\<close>

fun lock_step :: "bool \<Rightarrow> event \<Rightarrow> bool option" where
  "lock_step held Lock = (if held then None else Some True)"
| "lock_step held Unlock = (if held then Some False else None)"
| "lock_step held e = (if is_manager_call e \<and> \<not> held then None else Some held)"

fun lock_run :: "bool \<Rightarrow> event list \<Rightarrow> bool option" where
  "lock_run held [] = Some held"
| "lock_run held (e # es) = (case lock_step held e of None \<Rightarrow> None | Some held' \<Rightarrow> lock_run held' es)"

lemma lock_run_append:
  "lock_run b (xs @ ys) = (case lock_run b xs of None \<Rightarrow> None | Some b' \<Rightarrow> lock_run b' ys)"
  by (induction xs arbitrary: b) (auto split: option.split)

text \<open>
  The four locked operations and the lookup, each with the exact events of a run. A locked
  operation is \<open>locked_call Q\<close>: a bracket around events that satisfy \<open>Q\<close>.
\<close>

definition locked_call :: "(event list \<Rightarrow> 'a outcome \<Rightarrow> bool) \<Rightarrow> event list \<Rightarrow> 'a outcome \<Rightarrow> bool" where
  "locked_call Q es r \<longleftrightarrow> (\<exists>body. es = Lock # body @ [Unlock] \<and> Q body r)"

lemma traces_locked: "traces Q m \<Longrightarrow> traces (locked_call Q) (with_lock m)"
  by (rule traces_with_lock) (auto simp: locked_call_def)

definition config_events :: "string \<Rightarrow> (TunnelConfiguration \<Rightarrow> TunnelConfiguration) \<Rightarrow>
    event list \<Rightarrow> unit outcome \<Rightarrow> bool" where
  "config_events t f es r \<longleftrightarrow>
     (\<exists>reply. es = [M_GetTunnelConfiguration t reply] \<and> \<not> (\<exists>c. reply = Ok c) \<and> r \<noteq> Ok ()) \<or>
     (\<exists>c reply. es = [M_GetTunnelConfiguration t (Ok c), M_UpdateTunnelConfiguration t (f c) reply]
        \<and> (r = Ok () \<longleftrightarrow> reply = Ok ()))"

definition dns_add_events :: "string \<Rightarrow> string \<Rightarrow> event list \<Rightarrow> unit outcome \<Rightarrow> bool" where
  "dns_add_events t h es r \<longleftrightarrow> (\<exists>reply. es = [M_GetDNS t h reply] \<and> (r = Ok () \<longrightarrow> (\<exists>d. reply = Ok d \<and> points_to d t))) \<or>
     (\<exists>d reply. rec_ID d = '''' \<and> es = [M_GetDNS t h (Ok d), M_AddDNS t h reply] \<and> (r = Ok () \<longleftrightarrow> reply = Ok ())) \<or>
     (\<exists>d reply. Healthy d t = Ok False \<and> es = [M_GetDNS t h (Ok d), M_UpdateDNS t h d reply]
        \<and> (r = Ok () \<longleftrightarrow> reply = Ok ()))"

definition dns_remove_events :: "string \<Rightarrow> string \<Rightarrow> event list \<Rightarrow> unit outcome \<Rightarrow> bool" where
  "dns_remove_events t h es r \<longleftrightarrow> (\<exists>reply. es = [M_GetDNS t h reply] \<and> (r = Ok () \<longrightarrow> (\<exists>d. reply = Ok d \<and> rec_ID d = ''''))) \<or>
     (\<exists>d reply. rec_ID d \<noteq> '''' \<and> es = [M_GetDNS t h (Ok d), M_DeleteDNS t (rec_ID d) reply]
        \<and> (r = Ok () \<longleftrightarrow> reply = Ok ()))"

lemma traces_appendConfig: "traces (locked_call (config_events t (appended_config (r_MapValues r) ts ip hosts)))
    (appendCloudflareTunnelConfig r t hosts ip ts)"
  unfolding appendCloudflareTunnelConfig_def
  by (rule traces_locked) (auto simp: config_events_def go_simps bindE_def intro!: trace_intros)

lemma traces_removeConfig: "traces (locked_call (config_events t (removed_config (r_MapValues r) ts hosts)))
    (removeCloudflareTunnelConfig r t hosts ts)"
  unfolding removeCloudflareTunnelConfig_def
  by (rule traces_locked) (auto simp: config_events_def go_simps bindE_def intro!: trace_intros)

lemma traces_appendDNS: "traces (locked_call (dns_add_events t (h_Host h))) (appendDNSRecord r t h)"
  unfolding appendDNSRecord_def
  by (rule traces_locked)
    (auto simp: dns_add_events_def go_simps bindE_def Healthy_True_iff intro!: trace_intros)

lemma traces_removeDNS: "traces (locked_call (dns_remove_events t (h_Host h))) (removeDNSRecord r t h)"
  unfolding removeDNSRecord_def
  by (rule traces_locked) (auto simp: dns_remove_events_def go_simps bindE_def intro!: trace_intros)

lemma traces_getCloudflareTunnel: "traces (\<lambda>es _. list_all is_lookup es) (getCloudflareTunnel r n)"
  unfolding getCloudflareTunnel_def
  by (auto simp: go_simps bindE_def intro!: trace_intros split: list.split)


lemma closed_lock: "closed_events (\<lambda>es. lock_run False es = Some False)"
  by (simp add: closed_events_def lock_run_append)

section \<open>Properties that every run keeps\<close>

text \<open>The parts of one synchronisation; only the last two publish.\<close>

definition remove_parts :: "(event list \<Rightarrow> bool) \<Rightarrow> bool" where
  "remove_parts P \<longleftrightarrow> (\<forall>es. list_all is_lookup es \<longrightarrow> P es)
     \<and> (\<forall>t f es r. locked_call (config_events t f) es r \<longrightarrow> P es)
     \<and> (\<forall>t h es r. locked_call (dns_remove_events t h) es r \<longrightarrow> P es)"

definition all_parts :: "(event list \<Rightarrow> bool) \<Rightarrow> bool" where
  "all_parts P \<longleftrightarrow> remove_parts P \<and> (\<forall>t h es r. locked_call (dns_add_events t h) es r \<longrightarrow> P es)"

lemma always_parts:
  "remove_parts P \<Longrightarrow> always P (getCloudflareTunnel r n)"
  "remove_parts P \<Longrightarrow> always P (appendCloudflareTunnelConfig r t hosts ip ts)"
  "remove_parts P \<Longrightarrow> always P (removeCloudflareTunnelConfig r t hosts ts)"
  "remove_parts P \<Longrightarrow> always P (removeDNSRecord r t h)"
  unfolding remove_parts_def
  subgoal by (rule always_mono [OF traces_getCloudflareTunnel]) simp
  subgoal by (rule always_mono [OF traces_appendConfig]) blast
  subgoal by (rule always_mono [OF traces_removeConfig]) blast
  subgoal by (rule always_mono [OF traces_removeDNS]) blast
  done

lemma always_appendDNS: "all_parts P \<Longrightarrow> always P (appendDNSRecord r t h)"
  unfolding all_parts_def by (rule always_mono [OF traces_appendDNS]) blast

lemma always_finalizeIngress:
  "closed_events P \<Longrightarrow> remove_parts P \<Longrightarrow> always P (finalizeIngress r ing)"
  unfolding finalizeIngress_def Let_def by (intro always_intros always_parts)

lemma always_ingress_sync:
  "closed_events P \<Longrightarrow> all_parts P \<Longrightarrow> always P (ingress_sync r ing)"
  unfolding ingress_sync_def Let_def
  by (intro always_intros always_parts always_appendDNS) (simp_all add: all_parts_def)

lemma always_ingress_sync_ignored:
  "checkToBeIgnored (om_Annotations (ing_Meta ing)) \<Longrightarrow> closed_events P \<Longrightarrow> remove_parts P \<Longrightarrow>
   always P (ingress_sync r ing)"
  unfolding ingress_sync_def Let_def
  by (simp only: if_True) (intro always_intros always_parts)

section \<open>The mutex is held for every Cloudflare call and always released\<close>

lemma lock_run_held: "list_all is_manager_call es \<Longrightarrow> lock_run True es = Some True"
  by (induction es) (auto elim!: is_manager_call.elims)

lemma lock_run_lookup: "list_all is_lookup es \<Longrightarrow> lock_run False es = Some False"
  by (induction es) (auto elim!: is_lookup.elims)

lemma lock_run_locked:
  "locked_call Q es r \<Longrightarrow> (\<And>es r. Q es r \<Longrightarrow> list_all is_manager_call es) \<Longrightarrow> lock_run False es = Some False"
  by (auto simp: locked_call_def lock_run_append lock_run_held)

lemma all_parts_lock: "all_parts (\<lambda>es. lock_run False es = Some False)"
  unfolding all_parts_def remove_parts_def
  by (auto simp: lock_run_lookup elim!: lock_run_locked
      simp: config_events_def dns_add_events_def dns_remove_events_def)

lemma traces_Reconcile_lock: "always (\<lambda>es. lock_run False es = Some False) (ingress_Reconcile r key)"
  unfolding ingress_Reconcile_def ingress_release_def ingress_claim_def
  using all_parts_lock unfolding all_parts_def
  by (intro always_intros closed_lock always_finalizeIngress always_ingress_sync all_parts_lock)
    (auto intro!: trace_intros)

text \<open>A property of the whole run, branch by branch.\<close>

lemma traces_Reconcile:
  assumes "\<And>e. R [K_GetIngress key (Err e)] (if IsNotFound e then Ok zero_Result
      else Err (Errorf_w ''failed to get Ingress'' e))"
    and "\<And>p. R [K_GetIngress key (Panic p)] (Panic p)"
    and "\<And>ing. om_DeletionTimestamp (ing_Meta ing) \<noteq> None \<Longrightarrow>
      \<not> ContainsFinalizer (r_Lib r) (ing_Meta ing) finalizerName \<Longrightarrow> R [K_GetIngress key (Ok ing)] (Ok zero_Result)"
    and "\<And>ing. om_DeletionTimestamp (ing_Meta ing) \<noteq> None \<Longrightarrow>
      ContainsFinalizer (r_Lib r) (ing_Meta ing) finalizerName \<Longrightarrow>
      traces (\<lambda>es. R (K_GetIngress key (Ok ing) # es)) (ingress_release r ing)"
    and "\<And>ing. om_DeletionTimestamp (ing_Meta ing) = None \<Longrightarrow>
      \<not> ContainsFinalizer (r_Lib r) (ing_Meta ing) finalizerName \<Longrightarrow>
      traces (\<lambda>es. R (K_GetIngress key (Ok ing) # es)) (bindE (ingress_claim r ing) (ingress_sync r))"
    and "\<And>ing. om_DeletionTimestamp (ing_Meta ing) = None \<Longrightarrow>
      ContainsFinalizer (r_Lib r) (ing_Meta ing) finalizerName \<Longrightarrow>
      traces (\<lambda>es. R (K_GetIngress key (Ok ing) # es)) (ingress_sync r ing)"
  shows "traces R (ingress_Reconcile r key)"
  unfolding ingress_Reconcile_def
proof (rule traces_handle_logged)
  show "traces (\<lambda>es. R (K_GetIngress key (Err e) # es))
     (if IsNotFound e then retE zero_Result else throwE (Errorf_w ''failed to get Ingress'' e))" for e
    using assms(1) [of e] by (auto intro!: trace_intros)
  show "traces (\<lambda>es. R (K_GetIngress key (Ok ing) # es))
     (if om_DeletionTimestamp (ing_Meta ing) \<noteq> None then
       (if ContainsFinalizer (r_Lib r) (ing_Meta ing) finalizerName then ingress_release r ing
        else retE zero_Result)
      else if \<not> ContainsFinalizer (r_Lib r) (ing_Meta ing) finalizerName then
        bindE (ingress_claim r ing) (ingress_sync r)
      else ingress_sync r ing)" for ing
    using assms(3-6) [of ing] by (cases "om_DeletionTimestamp (ing_Meta ing) = None") (auto intro!: traces_retE)
qed (rule assms(2))

lemma traces_claim:
  assumes "\<And>x. traces (\<lambda>es. R (K_UpdateIngress
      (ing\<lparr>ing_Meta := AddFinalizer (r_Lib r) (ing_Meta ing) finalizerName\<rparr>) (Ok x) # es)) (k x)"
    and "\<And>reply e. R [K_UpdateIngress
      (ing\<lparr>ing_Meta := AddFinalizer (r_Lib r) (ing_Meta ing) finalizerName\<rparr>) (Err e)]
      (Err (Errorf_w ''failed to add finalizer to Ingress'' e))"
    and "\<And>p. R [K_UpdateIngress
      (ing\<lparr>ing_Meta := AddFinalizer (r_Lib r) (ing_Meta ing) finalizerName\<rparr>) (Panic p)] (Panic p)"
  shows "traces R (bindE (ingress_claim r ing) k)"
  unfolding ingress_claim_def go_simps bindE_def
  by (rule traces_handle_logged) (auto intro!: traces_throwE assms)

section \<open>The finalizer protects what was written to Cloudflare\<close>

fun holds_finalizer :: "k8s_lib \<Rightarrow> event \<Rightarrow> bool" where
  "holds_finalizer lib (K_GetIngress _ (Ok ing)) = ContainsFinalizer lib (ing_Meta ing) finalizerName"
| "holds_finalizer lib (K_UpdateIngress ing (Ok _)) = ContainsFinalizer lib (ing_Meta ing) finalizerName"
| "holds_finalizer lib _ = False"

lemma all_parts_true: "all_parts (\<lambda>_. True)" "remove_parts (\<lambda>_. True)" "closed_events (\<lambda>_. True)"
  by (simp_all add: all_parts_def remove_parts_def closed_events_def)

lemmas always_True_intros = always_intros always_finalizeIngress always_ingress_sync all_parts_true

lemma always_True_Update: "always (\<lambda>_. True) (Update_Ingress r ing)"
  by (auto intro: trace_intros)

lemma always_True_release: "always (\<lambda>_. True) (ingress_release r ing)"
  unfolding ingress_release_def by (intro always_True_intros always_True_Update)

lemma traces_Reconcile_finalizer_first:
  assumes lib: "finalizer_helpers (r_Lib r)"
  shows "always (preceded (holds_finalizer (r_Lib r)) is_cloudflare_write) (ingress_Reconcile r key)"
proof (rule traces_Reconcile)
  have add: "ContainsFinalizer (r_Lib r) (AddFinalizer (r_Lib r) m finalizerName) finalizerName" for m
    using lib by (simp add: finalizer_helpers_def)
  fix ing :: Ingress
  show "always (\<lambda>es. preceded (holds_finalizer (r_Lib r)) is_cloudflare_write (K_GetIngress key (Ok ing) # es))
      (bindE (ingress_claim r ing) (ingress_sync r))"
    by (rule traces_claim) (simp_all add: add always_ingress_sync all_parts_true)
next
  fix ing :: Ingress
  assume "ContainsFinalizer (r_Lib r) (ing_Meta ing) finalizerName"
  then show "always (\<lambda>es. preceded (holds_finalizer (r_Lib r)) is_cloudflare_write (K_GetIngress key (Ok ing) # es))
      (ingress_release r ing)"
    and "always (\<lambda>es. preceded (holds_finalizer (r_Lib r)) is_cloudflare_write (K_GetIngress key (Ok ing) # es))
      (ingress_sync r ing)"
    by (simp_all add: always_True_release always_ingress_sync all_parts_true)
qed auto

section \<open>An ignored ingress is never published\<close>

fun shows_unignored :: "event \<Rightarrow> bool" where
  "shows_unignored (K_GetIngress _ (Ok ing)) = (\<not> checkToBeIgnored (om_Annotations (ing_Meta ing)))"
| "shows_unignored (K_UpdateIngress _ (Ok ing)) = (\<not> checkToBeIgnored (om_Annotations (ing_Meta ing)))"
| "shows_unignored _ = False"

lemma remove_parts_no_publish: "remove_parts (list_all (\<lambda>e. \<not> is_publish e))"
proof -
  have "list_all is_lookup es \<Longrightarrow> list_all (\<lambda>e. \<not> is_publish e) es" for es
    by (induction es) (auto elim!: is_lookup.elims)
  then show ?thesis
    unfolding remove_parts_def locked_call_def config_events_def dns_remove_events_def by auto
qed

lemma sync_publishes_unignored:
  "A e \<or> checkToBeIgnored (om_Annotations (ing_Meta ing)) \<Longrightarrow> \<not> is_publish e \<Longrightarrow>
   always (\<lambda>es. preceded A is_publish (e # es)) (ingress_sync r ing)"
proof (cases "checkToBeIgnored (om_Annotations (ing_Meta ing))")
  case True
  assume "\<not> is_publish e"
  then show ?thesis
    by (intro traces_mono [OF always_ingress_sync_ignored [OF True closed_list_all remove_parts_no_publish]])
      (auto intro: preceded_none)
next
  case False
  assume "A e \<or> checkToBeIgnored (om_Annotations (ing_Meta ing))" and "\<not> is_publish e"
  with False show ?thesis
    by (intro traces_mono [OF always_ingress_sync [OF all_parts_true(3,1)]]) auto
qed

lemma traces_Reconcile_ignore:
  "always (preceded shows_unignored is_publish) (ingress_Reconcile r key)"
proof (rule traces_Reconcile)
  fix ing :: Ingress
  have "always (list_all (\<lambda>e. \<not> is_publish e)) (ingress_release r ing)"
    unfolding ingress_release_def
    by (intro always_intros always_finalizeIngress closed_list_all remove_parts_no_publish)
      (auto intro!: trace_intros)
  then show "always (\<lambda>es. preceded shows_unignored is_publish (K_GetIngress key (Ok ing) # es))
      (ingress_release r ing)"
    by (rule traces_mono) (auto intro: preceded_none)
  show "always (\<lambda>es. preceded shows_unignored is_publish (K_GetIngress key (Ok ing) # es))
      (ingress_sync r ing)"
    by (rule sync_publishes_unignored) auto
  show "always (\<lambda>es. preceded shows_unignored is_publish (K_GetIngress key (Ok ing) # es))
      (bindE (ingress_claim r ing) (ingress_sync r))"
  proof (rule traces_claim)
    fix x :: Ingress
    let ?upd = "K_UpdateIngress (ing\<lparr>ing_Meta := AddFinalizer (r_Lib r) (ing_Meta ing) finalizerName\<rparr>) (Ok x)"
    show "always (\<lambda>es. preceded shows_unignored is_publish (K_GetIngress key (Ok ing) # ?upd # es))
        (ingress_sync r x)"
      by (rule traces_mono [OF sync_publishes_unignored [where A = shows_unignored and e = ?upd]]) auto
  qed auto
qed auto


section \<open>The finalizer is removed only after the clean-up\<close>

text \<open>
  The lookup of a tunnel is one call. It found \<open>cf\<close>, or it says that there is no default
  tunnel (an API error that is itself the sentinel counts as that, as in the code).
\<close>

definition default_name :: "NamespacedName \<Rightarrow> bool" where
  "default_name n \<longleftrightarrow> nn_Name n = '''' \<or> nn_Namespace n = ''''"

definition found :: "NamespacedName \<Rightarrow> event \<Rightarrow> CloudflareTunnel \<Rightarrow> bool" where
  "found n look cf \<longleftrightarrow> (if default_name n
     then \<exists>l rest. look = K_ListCloudflareTunnels 1 [(DefaultLabelKey, ''true'')] (Ok l) \<and> cftl_Items l = cf # rest
     else look = K_GetCloudflareTunnel n (Ok cf))"

definition absent :: "NamespacedName \<Rightarrow> event \<Rightarrow> bool" where
  "absent n look \<longleftrightarrow> (if default_name n
     then \<exists>reply. look = K_ListCloudflareTunnels 1 [(DefaultLabelKey, ''true'')] reply \<and>
       (case reply of Ok l \<Rightarrow> cftl_Items l = [] | Err e \<Rightarrow> errors_Is e ErrDefaultCloudflareTunnelNotExists | _ \<Rightarrow> False)
     else \<exists>e. look = K_GetCloudflareTunnel n (Err e) \<and> errors_Is e ErrDefaultCloudflareTunnelNotExists)"

lemma traces_lookup:
  "traces (\<lambda>es res. \<exists>look. es = [look] \<and> (case res of
      Ok cf \<Rightarrow> found n look cf
    | Err e \<Rightarrow> errors_Is e ErrDefaultCloudflareTunnelNotExists \<longrightarrow> absent n look
    | Panic _ \<Rightarrow> True)) (getCloudflareTunnel r n)"
  unfolding getCloudflareTunnel_def found_def absent_def default_name_def
  by (auto simp: go_simps bindE_def intro!: trace_intros split: list.split)

definition dns_gone :: "string \<Rightarrow> host \<Rightarrow> event list \<Rightarrow> bool" where
  "dns_gone t h es \<longleftrightarrow> locked_call (dns_remove_events t (h_Host h)) es (Ok ())"

definition cleaned :: "'w reconciler \<Rightarrow> Ingress \<Rightarrow> event list \<Rightarrow> bool" where
  "cleaned r ing es \<longleftrightarrow> (\<exists>n look. detectCloudflareTunnelName (om_Annotations (ing_Meta ing)) = Ok n \<and>
     (es = [look] \<and> absent n look \<or>
     (\<exists>cf. found n look cf \<and>
       (es = [look] \<and> om_DeletionTimestamp (cft_Meta cf) \<noteq> None \<or>
       (\<exists>config dns. cft_TunnelID cf \<noteq> '''' \<and> es = look # config @ dns \<and>
          locked_call (config_events (cft_TunnelID cf)
            (removed_config (r_MapValues r) (spec_Settings (cft_Spec cf)) (getHosts ing))) config (Ok ()) \<and>
          each (dns_gone (cft_TunnelID cf)) (getHosts ing) dns)))))"

lemma cleaned_intros:
  assumes "detectCloudflareTunnelName (om_Annotations (ing_Meta ing)) = Ok n"
  shows "absent n look \<Longrightarrow> cleaned r ing [look]"
    and "found n look cf \<Longrightarrow> om_DeletionTimestamp (cft_Meta cf) \<noteq> None \<Longrightarrow> cleaned r ing [look]"
    and "found n look cf \<Longrightarrow> cft_TunnelID cf \<noteq> '''' \<Longrightarrow>
      locked_call (config_events (cft_TunnelID cf)
        (removed_config (r_MapValues r) (spec_Settings (cft_Spec cf)) (getHosts ing))) config (Ok ()) \<Longrightarrow>
      each (dns_gone (cft_TunnelID cf)) (getHosts ing) dns \<Longrightarrow> cleaned r ing (look # config @ dns)"
  using assms unfolding cleaned_def by blast+

lemma traces_wrapped:
  "traces (\<lambda>es r. r = Ok () \<longrightarrow> A es (Ok ())) m \<Longrightarrow> traces (\<lambda>es r. r = Ok () \<longrightarrow> A es (Ok ())) (wrapW msg m)"
  unfolding wrapW_def
  by (rule traces_handle [where A = "\<lambda>es r. r = Ok () \<longrightarrow> A es (Ok ())"]) (auto intro!: traces_retE traces_throwE)

lemma traces_finalizeIngress:
  "traces (\<lambda>es res. res = Ok () \<longrightarrow> cleaned r ing es) (finalizeIngress r ing)"
  unfolding finalizeIngress_def go_simps bindE_def
proof (rule traces_handle_liftO)
  fix n
  assume n: "detectCloudflareTunnelName (om_Annotations (ing_Meta ing)) = Ok n"
  show "traces (\<lambda>es res. res = Ok () \<longrightarrow> cleaned r ing es)
      (handle (getCloudflareTunnel r n)
       (\<lambda>e. if errors_Is e ErrDefaultCloudflareTunnelNotExists then retE ()
         else throwE (Errorf_w ''failed to get Cloudflare Tunnel'' e))
       (\<lambda>cf. if om_DeletionTimestamp (cft_Meta cf) \<noteq> None then retE ()
         else let t = cft_TunnelID cf in if t = '''' then throwE (NewError ''tunnel ID is empty'')
         else let hosts = getHosts ing in
         handle (removeCloudflareTunnelConfig r t hosts (spec_Settings (cft_Spec cf)))
           (\<lambda>e. throwE (Errorf_w ''failed to remove Cloudflare Tunnel config'' e))
         (\<lambda>_. forE hosts (\<lambda>h. wrapW ''failed to delete Cloudflare Tunnel'' (removeDNSRecord r t h)))))"
  proof (rule traces_handle [OF traces_lookup], elim exE conjE, goal_cases)
    case (1 cf es0 look)
    have gone: "traces (\<lambda>es res. res = Ok () \<longrightarrow> each (dns_gone (cft_TunnelID cf)) (getHosts ing) es)
       (forE (getHosts ing) (\<lambda>h. wrapW ''failed to delete Cloudflare Tunnel''
          (removeDNSRecord r (cft_TunnelID cf) h)))"
      unfolding dns_gone_def
      by (intro traces_forE_each traces_wrapped) (auto intro: traces_mono [OF traces_removeDNS])
    from 1 show ?case
      unfolding Let_def
      by (auto intro!: traces_retE traces_throwE traces_handle [OF traces_removeConfig]
          traces_mono [OF gone] cleaned_intros(2,3) [OF n])
  next
    case (2 e es0)
    then show ?case by (auto intro!: traces_retE traces_throwE cleaned_intros(1) [OF n])
  qed auto
qed (auto intro!: traces_throwE)


fun is_update :: "event \<Rightarrow> bool" where
  "is_update (K_UpdateIngress _ _) = True"
| "is_update _ = False"

text \<open>
  \<open>release_order r key es\<close>: an update that drops the finalizer is the last event of the run,
  and between the read of the ingress and that update its clean-up ran to its end.
\<close>

definition release_order :: "'w reconciler \<Rightarrow> NamespacedName \<Rightarrow> event list \<Rightarrow> bool" where
  "release_order r key es \<longleftrightarrow> (\<forall>pre ing' reply post.
     es = pre @ K_UpdateIngress ing' reply # post \<and>
     \<not> ContainsFinalizer (r_Lib r) (ing_Meta ing') finalizerName \<longrightarrow>
     post = [] \<and> (\<exists>ing clean. pre = K_GetIngress key (Ok ing) # clean
       \<and> om_DeletionTimestamp (ing_Meta ing) \<noteq> None \<and> cleaned r ing clean))"

lemma all_parts_no_update: "all_parts (list_all (\<lambda>e. \<not> is_update e))"
proof -
  have "list_all is_lookup es \<Longrightarrow> list_all (\<lambda>e. \<not> is_update e) es" for es
    by (induction es) (auto elim!: is_lookup.elims)
  then show ?thesis
    unfolding all_parts_def remove_parts_def locked_call_def config_events_def dns_remove_events_def
      dns_add_events_def by auto
qed

lemma no_update_split:
  "list_all (\<lambda>e. \<not> is_update e) es \<Longrightarrow> es \<noteq> pre @ K_UpdateIngress ing' reply # post"
  by auto

lemma release_order_no_update: "list_all (\<lambda>e. \<not> is_update e) es \<Longrightarrow> release_order r key es"
  unfolding release_order_def using no_update_split by blast

lemma release_order_claim:
  assumes "list_all (\<lambda>e. \<not> is_update e) es"
    and "ContainsFinalizer (r_Lib r) (ing_Meta upd) finalizerName"
  shows "release_order r key (K_GetIngress key (Ok ing) # K_UpdateIngress upd reply # es)"
  unfolding release_order_def
proof (intro allI impI)
  fix pre ing' reply' post
  assume "K_GetIngress key (Ok ing) # K_UpdateIngress upd reply # es = pre @ K_UpdateIngress ing' reply' # post
    \<and> \<not> ContainsFinalizer (r_Lib r) (ing_Meta ing') finalizerName"
  with assms show "post = [] \<and> (\<exists>ing clean. pre = K_GetIngress key (Ok ing) # clean
       \<and> om_DeletionTimestamp (ing_Meta ing) \<noteq> None \<and> cleaned r ing clean)"
    by (auto simp: Cons_eq_append_conv)
qed

lemma release_order_last:
  assumes "om_DeletionTimestamp (ing_Meta ing) \<noteq> None" and "cleaned r ing clean"
    and "list_all (\<lambda>e. \<not> is_update e) clean"
  shows "release_order r key (K_GetIngress key (Ok ing) # clean @ [K_UpdateIngress upd reply])"
  unfolding release_order_def
proof (intro allI impI)
  fix pre ing' reply' post
  assume "K_GetIngress key (Ok ing) # clean @ [K_UpdateIngress upd reply] = pre @ K_UpdateIngress ing' reply' # post
    \<and> \<not> ContainsFinalizer (r_Lib r) (ing_Meta ing') finalizerName"
  then obtain pre' where pre: "pre = K_GetIngress key (Ok ing) # pre'"
    and eq: "clean @ [K_UpdateIngress upd reply] = pre' @ K_UpdateIngress ing' reply' # post"
    by (auto simp: Cons_eq_append_conv)
  from eq have "post = [] \<and> clean = pre'"
    using assms(3) by (cases post rule: rev_cases) auto
  with pre assms show "post = [] \<and> (\<exists>ing clean. pre = K_GetIngress key (Ok ing) # clean
       \<and> om_DeletionTimestamp (ing_Meta ing) \<noteq> None \<and> cleaned r ing clean)" by blast
qed

lemma traces_Reconcile_release:
  assumes lib: "finalizer_helpers (r_Lib r)"
  shows "always (release_order r key) (ingress_Reconcile r key)"
proof (rule traces_Reconcile)
  have add: "ContainsFinalizer (r_Lib r) (AddFinalizer (r_Lib r) m finalizerName) finalizerName" for m
    using lib by (simp add: finalizer_helpers_def)
  fix ing :: Ingress
  have sync: "always (list_all (\<lambda>e. \<not> is_update e)) (ingress_sync r x)" for x
    by (intro always_ingress_sync closed_list_all all_parts_no_update)
  show "always (\<lambda>es. release_order r key (K_GetIngress key (Ok ing) # es)) (ingress_sync r ing)"
    by (rule traces_mono [OF sync]) (simp add: release_order_no_update)
  show "always (\<lambda>es. release_order r key (K_GetIngress key (Ok ing) # es))
      (bindE (ingress_claim r ing) (ingress_sync r))"
    by (rule traces_claim) (auto intro!: traces_mono [OF sync] release_order_claim simp: add)
  have fin: "traces (\<lambda>es res. (res = Ok () \<longrightarrow> cleaned r ing es) \<and> list_all (\<lambda>e. \<not> is_update e) es)
      (finalizeIngress r ing)"
    using all_parts_no_update unfolding all_parts_def
    by (intro traces_conj traces_finalizeIngress always_finalizeIngress closed_list_all) simp
  show "always (\<lambda>es. release_order r key (K_GetIngress key (Ok ing) # es)) (ingress_release r ing)"
    if "om_DeletionTimestamp (ing_Meta ing) \<noteq> None"
    unfolding ingress_release_def go_simps bindE_def
    using that
    by (auto intro!: traces_handle [OF fin] trace_intros release_order_last
        intro: release_order_no_update)
qed (auto intro!: release_order_no_update)

end
