(* ===== verification/RandomString.thy ===== *)
theory RandomString
  imports Prelude
begin

text \<open>
  Package \<^verbatim>\<open>pkg/utils/random\<close>: the character sets, \<^verbatim>\<open>SecureString\<close> over the system's
  random bytes and the fixed strings of the \<^verbatim>\<open>dummy\<close> source. The bytes come from the world:
  \<open>rand_Read n\<close> is \<^verbatim>\<open>crypto/rand.Read\<close> on a slice of length \<open>n\<close>.
\<close>

section \<open>Character sets\<close>

definition UpperLetters :: string where
  "UpperLetters = ''ABCDEFGHIJKLMNOPQRSTUVWXYZ''"

definition LowerLetters :: string where
  "LowerLetters = ''abcdefghijklmnopqrstuvwxyz''"

definition Numbers :: string where
  "Numbers = ''0123456789''"

definition Alphabets :: string where
  "Alphabets = UpperLetters @ LowerLetters"

definition Alphanumeric :: string where
  "Alphanumeric = Alphabets @ Numbers"

definition Symbols :: string where
  "Symbols = map char_of ([33..<48] @ [58..<65] @ [91..<97] @ [123..<127])"

definition AlphanumericSymbols :: string where
  "AlphanumericSymbols = Alphanumeric @ Symbols"

section \<open>Insecure strings\<close>

text \<open>
  \<^verbatim>\<open>mathrand.IntN\<close> is a draw from the world, which panics on zero. The runes of a string are its
  bytes, since the character sets are ASCII.
\<close>

fun insecure_loop :: "(nat \<Rightarrow> ('w, nat) io) \<Rightarrow> string \<Rightarrow> nat \<Rightarrow> string \<Rightarrow> ('w, string) io" where
  "insecure_loop intN runes 0 result = retE result"
| "insecure_loop intN runes (Suc n) result =
     (if runes = '''' then panicE ''invalid argument to IntN''
      else bindE (intN (length runes)) (\<lambda>i. insecure_loop intN runes n (result @ [runes ! i])))"

definition random_InsecureString :: "(nat \<Rightarrow> ('w, nat) io) \<Rightarrow> nat \<Rightarrow> string \<Rightarrow> ('w, string) io" where
  "random_InsecureString intN n base = insecure_loop intN base n ''''"

definition dummy_InsecureString :: "nat \<Rightarrow> string \<Rightarrow> ('w, string) io" where
  "dummy_InsecureString n base = retE ''dummy''"

lemma insecure_loop_spec:
  assumes draw: "\<And>k s. 0 < k \<Longrightarrow> \<exists>i s'. intN k s = (Ok i, s') \<and> i < k" and "runes \<noteq> ''''"
  shows "\<exists>v s'. insecure_loop intN runes n result s = (Ok (result @ v), s') \<and> length v = n \<and> set v \<subseteq> set runes"
proof (induction n arbitrary: result s)
  case (Suc n)
  from draw [of "length runes" s] \<open>runes \<noteq> ''''\<close> obtain i s1 where i: "intN (length runes) s = (Ok i, s1)" "i < length runes"
    by auto
  from Suc [of "result @ [runes ! i]" s1] obtain v s' where
    "insecure_loop intN runes n (result @ [runes ! i]) s1 = (Ok (result @ runes ! i # v), s')" "length v = n" "set v \<subseteq> set runes"
    by auto
  with i \<open>runes \<noteq> ''''\<close> show ?case
    by (intro exI [of _ "runes ! i # v"]) (auto simp: bindE_def handle_def)
qed (simp add: retE_def)

lemma random_InsecureString_spec:
  assumes "\<And>k s. 0 < k \<Longrightarrow> \<exists>i s'. intN k s = (Ok i, s') \<and> i < k" and "base \<noteq> ''''"
  shows "\<exists>v s'. random_InsecureString intN n base s = (Ok v, s') \<and> length v = n \<and> set v \<subseteq> set base"
  using insecure_loop_spec [of intN base n "''''" s, OF assms] by (simp add: random_InsecureString_def)

section \<open>Secure strings\<close>

text \<open>
  A slice of length \<open>n\<close> starts as zeros; \<^verbatim>\<open>Read\<close> overwrites a prefix of it.
\<close>

definition fill_slice :: "nat \<Rightarrow> nat list \<Rightarrow> nat list" where
  "fill_slice n bs = take n (map (\<lambda>b. b mod 256) bs @ replicate n 0)"

lemma length_fill_slice [simp]: "length (fill_slice n bs) = n"
  by (simp add: fill_slice_def)

lemma fill_slice_bytes: "b \<in> set (fill_slice n bs) \<Longrightarrow> b < 256"
  unfolding fill_slice_def by (auto dest!: in_set_takeD)

text \<open>
  \<^verbatim>\<open>string(c)\<close> for a byte \<open>c\<close> is the UTF-8 encoding of the code point \<open>c\<close>: one byte below 128,
  two bytes from 128 on.
\<close>

definition string_of_byte :: "char \<Rightarrow> string" where
  "string_of_byte c = (let n = (of_char c :: nat) in
     if n < 128 then [c] else [char_of (192 + n div 64), char_of (128 + n mod 64)])"

text \<open>
  The loop \<^verbatim>\<open>for _, v := range b { result += string(base[int(v)%len(base)]) }\<close>. The remainder
  by an empty base panics.
\<close>

fun secure_loop :: "string \<Rightarrow> nat list \<Rightarrow> string \<Rightarrow> string outcome" where
  "secure_loop base [] result = Ok result"
| "secure_loop base (v # vs) result =
     (if length base = 0 then Panic ''integer divide by zero''
      else secure_loop base vs (result @ string_of_byte (base ! (v mod length base))))"

definition random_SecureString ::
  "(nat \<Rightarrow> ('w, nat list) io) \<Rightarrow> nat \<Rightarrow> string \<Rightarrow> ('w, string) io" where
  "random_SecureString rand_Read n base =
     bindE (wrapW ''failed to read random'' (rand_Read n))
       (\<lambda>bs. liftO (secure_loop base (fill_slice n bs) ''''))"

definition dummy_SecureString :: "nat \<Rightarrow> string \<Rightarrow> ('w, string) io" where
  "dummy_SecureString n base = retE ''dummy''"

section \<open>What the loop computes\<close>

definition ascii :: "string \<Rightarrow> bool" where
  "ascii s \<longleftrightarrow> list_all (\<lambda>c. (of_char c :: nat) < 128) s"

lemma string_of_byte_ascii [simp]: "(of_char c :: nat) < 128 \<Longrightarrow> string_of_byte c = [c]"
  by (simp add: string_of_byte_def)

lemma secure_loop_ascii:
  assumes "base \<noteq> []" and "ascii base"
  shows "secure_loop base vs acc = Ok (acc @ map (\<lambda>v. base ! (v mod length base)) vs)"
proof (induction vs arbitrary: acc)
  case Nil
  then show ?case by simp
next
  case (Cons v vs)
  have "base ! (v mod length base) \<in> set base" using assms(1) by simp
  with assms Cons show ?case by (auto simp: ascii_def list_all_iff)
qed

lemma secure_loop_empty_base: "vs \<noteq> [] \<Longrightarrow> secure_loop [] vs acc = Panic ''integer divide by zero''"
  by (cases vs) auto

lemma secure_loop_no_panic: "base \<noteq> [] \<Longrightarrow> \<exists>r. secure_loop base vs acc = Ok r"
  by (induction vs arbitrary: acc) auto

lemma length_Alphanumeric [simp]: "length Alphanumeric = 62"
  by (simp add: Alphanumeric_def Alphabets_def UpperLetters_def LowerLetters_def Numbers_def)

lemma Alphanumeric_nonempty [simp]: "Alphanumeric \<noteq> []"
  using length_Alphanumeric by (metis list.size(3) zero_neq_numeral)

lemma ascii_Alphanumeric [simp]: "ascii Alphanumeric"
  by code_simp

lemma distinct_Alphanumeric: "distinct Alphanumeric"
  by code_simp

section \<open>The interface of a source of secrets\<close>

text \<open>
  What a caller of \<^verbatim>\<open>Random.SecureString\<close> relies on: for a non-empty ASCII base the call does
  not panic, and a string it returns has the asked length and only characters of the base.
\<close>

locale secret_source =
  fixes SecureString :: "nat \<Rightarrow> string \<Rightarrow> ('w, string) io"
  assumes drawn_from_base: "base \<noteq> [] \<Longrightarrow> ascii base \<Longrightarrow> SecureString n base w = (Ok x, w') \<Longrightarrow>
      length x = n \<and> set x \<subseteq> set base"
begin

lemma alphanumeric_secret:
  assumes "SecureString n Alphanumeric w = (Ok x, w')"
  shows "length x = n" and "set x \<subseteq> set Alphanumeric"
  using drawn_from_base [OF Alphanumeric_nonempty ascii_Alphanumeric assms] by auto

end

text \<open>
  The shipped source \<^verbatim>\<open>random\<close> fulfils it whatever bytes the system delivers (no panic of the
  byte source is assumed away: \<open>Panic\<close> is an outcome of its own).
\<close>

interpretation secure: secret_source "random_SecureString rand_Read" for rand_Read
proof unfold_locales
  fix base n w x w'
  assume base: "base \<noteq> []" "ascii base"
    and run: "random_SecureString rand_Read n base w = (Ok x, w')"
  then obtain bs where "x = map (\<lambda>v. base ! (v mod length base)) (fill_slice n bs)"
    by (auto simp: random_SecureString_def io_defs liftO_def secure_loop_ascii
        split: prod.splits outcome.splits)
  with base show "length x = n \<and> set x \<subseteq> set base" by auto
qed

section \<open>Distribution\<close>

text \<open>
  256 is no multiple of 62: the first eight characters are hit by five byte values each, the
  other 54 by four.
\<close>

lemma bytes_hitting:
  assumes "i < (62::nat)"
  shows "{v. v < 256 \<and> v mod 62 = i} = (\<lambda>q. 62 * q + i) ` {..< if i < 8 then 5 else 4}"
proof (intro set_eqI iffI)
  fix v assume v: "v \<in> {v. v < 256 \<and> v mod 62 = i}"
  define q where "q = v div 62"
  have "v = 62 * q + i" using v unfolding q_def by (auto simp: mult_div_mod_eq [symmetric])
  moreover from this v have "q < (if i < 8 then 5 else 4)" by auto
  ultimately show "v \<in> (\<lambda>q. 62 * q + i) ` {..< if i < 8 then 5 else 4}" by blast
next
  fix v assume "v \<in> (\<lambda>q. 62 * q + i) ` {..< if i < 8 then 5 else 4}"
  then obtain q where "v = 62 * q + i" "q < (if i < 8 then 5 else 4)" by blast
  with assms show "v \<in> {v. v < 256 \<and> v mod 62 = i}" by (auto split: if_splits)
qed

lemma card_bytes_hitting:
  assumes "i < (62::nat)"
  shows "card {v. v < 256 \<and> v mod 62 = i} = (if i < 8 then 5 else 4)"
  unfolding bytes_hitting [OF assms] by (subst card_image) (auto simp: inj_on_def)

section \<open>The two sources\<close>

text \<open>The interface \<^verbatim>\<open>Random\<close> and its constructors.\<close>

record 'w Random =
  rnd_InsecureString :: "nat \<Rightarrow> string \<Rightarrow> ('w, string) io"
  rnd_SecureString :: "nat \<Rightarrow> string \<Rightarrow> ('w, string) io"

definition NewSecure :: "(nat \<Rightarrow> ('w, nat) io) \<Rightarrow> (nat \<Rightarrow> ('w, nat list) io) \<Rightarrow> 'w Random" where
  "NewSecure intN rand_Read = \<lparr>rnd_InsecureString = random_InsecureString intN,
     rnd_SecureString = random_SecureString rand_Read\<rparr>"

definition NewDummy :: "'w Random" where
  "NewDummy = \<lparr>rnd_InsecureString = dummy_InsecureString, rnd_SecureString = dummy_SecureString\<rparr>"

lemma NewSecure_source: "secret_source (rnd_SecureString (NewSecure intN rand_Read))"
  by (simp add: NewSecure_def secure.secret_source_axioms)


end
