(* ===== verification/Triples.thy ===== *)
theory Triples
  imports Prelude
begin

text \<open>
  Assertions on the world of a run. The rules of \<open>traces\<close> speak of the calls a run makes and
  of their replies; the triples here speak of what the world is like before and after, when
  something is known of the code the operator calls. They read like the rules of Hoare logic:
  one rule per combinator, applied backwards.
\<close>

named_theorems triple_intros \<open>backward rules for assertions on the world\<close>
named_theorems keeps_intros \<open>backward rules for assertions every step keeps\<close>

definition triple :: "('w \<Rightarrow> bool) \<Rightarrow> (('w, 'e) sys, 'a) io \<Rightarrow> ('a outcome \<Rightarrow> 'w \<Rightarrow> bool) \<Rightarrow> bool" where
  "triple P m Q \<longleftrightarrow> (\<forall>s. P (world s) \<longrightarrow> Q (fst (m s)) (world (snd (m s))))"

definition keeps :: "('w \<Rightarrow> bool) \<Rightarrow> (('w, 'e) sys, 'a) io \<Rightarrow> bool" where
  "keeps I m \<longleftrightarrow> triple I m (\<lambda>_. I)"

lemma tripleD: "triple P m Q \<Longrightarrow> P (world s) \<Longrightarrow> m s = (r, s') \<Longrightarrow> Q r (world s')"
  unfolding triple_def by (metis fst_conv snd_conv)

lemma keepsD: "keeps I m \<Longrightarrow> I (world s) \<Longrightarrow> m s = (r, s') \<Longrightarrow> I (world s')"
  unfolding keeps_def by (rule tripleD)

section \<open>Weakening\<close>

lemma triple_post: "triple P m R \<Longrightarrow> (\<And>r w. R r w \<Longrightarrow> Q r w) \<Longrightarrow> triple P m Q"
  unfolding triple_def by blast

lemma triple_pre: "triple P' m Q \<Longrightarrow> (\<And>w. P w \<Longrightarrow> P' w) \<Longrightarrow> triple P m Q"
  unfolding triple_def by blast

lemma triple_assume: "(c \<Longrightarrow> triple P m Q) \<Longrightarrow> triple (\<lambda>w. c \<and> P w) m Q"
  unfolding triple_def by blast

lemma triple_empty: "triple (\<lambda>w. False) m Q"
  by (simp add: triple_def)

section \<open>One rule per combinator\<close>

lemma triple_retE [triple_intros]: "(\<And>w. P w \<Longrightarrow> Q (Ok x) w) \<Longrightarrow> triple P (retE x) Q"
  by (simp add: triple_def retE_def)

lemma triple_throwE [triple_intros]: "(\<And>w. P w \<Longrightarrow> Q (Err e) w) \<Longrightarrow> triple P (throwE e) Q"
  by (simp add: triple_def throwE_def)

lemma triple_panicE [triple_intros]: "(\<And>w. P w \<Longrightarrow> Q (Panic p) w) \<Longrightarrow> triple P (panicE p) Q"
  by (simp add: triple_def panicE_def)

lemma triple_liftO [triple_intros]: "(\<And>w. P w \<Longrightarrow> Q r w) \<Longrightarrow> triple P (liftO r) Q"
  by (simp add: triple_def liftO_def)

lemma triple_emit [triple_intros]: "(\<And>w. P w \<Longrightarrow> Q (Ok ()) w) \<Longrightarrow> triple P (emit e) Q"
  by (simp add: triple_def emit_def)

lemma triple_logged [triple_intros]: "(\<And>w. P w \<Longrightarrow> Q (fst (m w)) (snd (m w))) \<Longrightarrow> triple P (logged ev m) Q"
  unfolding triple_def logged_def by (auto split: prod.split) (metis fst_conv snd_conv)

lemma triple_handle:
  assumes "triple P m R"
    and "\<And>x. triple (R (Ok x)) (k x) Q"
    and "\<And>e. triple (R (Err e)) (h e) Q"
    and "\<And>p w. R (Panic p) w \<Longrightarrow> Q (Panic p) w"
  shows "triple P (handle m h k) Q"
  using assms unfolding triple_def handle_def
  by (auto split: prod.split outcome.split; metis (mono_tags, lifting) fst_conv snd_conv)

lemma triple_bindE:
  assumes "triple P m R" and "\<And>x. triple (R (Ok x)) (k x) Q"
    and "\<And>e w. R (Err e) w \<Longrightarrow> Q (Err e) w" and "\<And>p w. R (Panic p) w \<Longrightarrow> Q (Panic p) w"
  shows "triple P (bindE m k) Q"
  unfolding bindE_def by (rule triple_handle [OF assms(1,2)]) (auto intro: triple_throwE assms(3,4))

text \<open>The outcome of \<open>wrapW\<close>, as a function of the outcome it wraps.\<close>

fun wrapped :: "string \<Rightarrow> 'a outcome \<Rightarrow> 'a outcome" where
  "wrapped msg (Err e) = Err (Errorf_w msg e)"
| "wrapped msg r = r"

lemma wrapped_Ok [simp]: "wrapped msg r = Ok x \<longleftrightarrow> r = Ok x"
  by (cases r) simp_all

lemma triple_wrapW: "triple P m (\<lambda>r. Q (wrapped msg r)) \<Longrightarrow> triple P (wrapW msg m) Q"
  unfolding wrapW_def by (erule triple_handle) (auto intro: triple_intros)

lemma triple_if [triple_intros]:
  "(b \<Longrightarrow> triple P m Q) \<Longrightarrow> (\<not> b \<Longrightarrow> triple P n Q) \<Longrightarrow> triple P (if b then m else n) Q"
  by simp

section \<open>Assertions that every step keeps\<close>

lemma keeps_pure [keeps_intros]:
  "keeps I (retE x)" "keeps I (throwE e)" "keeps I (panicE p)" "keeps I (liftO r)" "keeps I (emit ev)"
  by (simp_all add: keeps_def triple_intros)

lemma keeps_handle [keeps_intros]:
  "keeps I m \<Longrightarrow> (\<And>e. keeps I (h e)) \<Longrightarrow> (\<And>x. keeps I (k x)) \<Longrightarrow> keeps I (handle m h k)"
  unfolding keeps_def by (rule triple_handle)

lemma keeps_bindE [keeps_intros]: "keeps I m \<Longrightarrow> (\<And>x. keeps I (k x)) \<Longrightarrow> keeps I (bindE m k)"
  unfolding bindE_def by (intro keeps_intros)

lemma keeps_wrap [keeps_intros]: "keeps I m \<Longrightarrow> keeps I (wrapW msg m)" "keeps I m \<Longrightarrow> keeps I (wrapV msg m)"
  unfolding wrapW_def wrapV_def by (intro keeps_intros; assumption)+

lemma keeps_if [keeps_intros]: "(b \<Longrightarrow> keeps I m) \<Longrightarrow> (\<not> b \<Longrightarrow> keeps I n) \<Longrightarrow> keeps I (if b then m else n)"
  by simp

lemma keeps_forE: "(\<And>x. x \<in> set xs \<Longrightarrow> keeps I (body x)) \<Longrightarrow> keeps I (forE xs body)"
  by (induction xs) (auto intro: keeps_intros)

lemma keeps_logged: "(\<And>w. I w \<Longrightarrow> I (snd (m w))) \<Longrightarrow> keeps I (logged ev m)"
  unfolding keeps_def by (rule triple_logged)

lemma triple_keeps: "keeps I m \<Longrightarrow> (\<And>w. P w \<Longrightarrow> I w) \<Longrightarrow> (\<And>r w. I w \<Longrightarrow> Q r w) \<Longrightarrow> triple P m Q"
  unfolding keeps_def triple_def by blast

section \<open>What a run calls\<close>

text \<open>\<open>only P C m\<close>: in a world where \<open>P\<close> holds, every call of the run satisfies \<open>C\<close>.\<close>

definition only :: "('w \<Rightarrow> bool) \<Rightarrow> ('e \<Rightarrow> bool) \<Rightarrow> (('w, 'e) sys, 'a) io \<Rightarrow> bool" where
  "only P C m \<longleftrightarrow> (\<forall>s. P (world s) \<longrightarrow> (\<exists>es. trace (snd (m s)) = trace s @ es \<and> list_all C es))"

lemma onlyD: "only P C m \<Longrightarrow> P (world s) \<Longrightarrow> list_all C (events_of m s)"
  unfolding only_def events_of_def by (metis append_eq_conv_conj)

lemma only_traces: "traces (\<lambda>es _. list_all C es) m \<Longrightarrow> only P C m"
  unfolding only_def traces_def by blast

lemma only_empty: "only (\<lambda>w. False) C m"
  by (simp add: only_def)

lemma only_pre: "only P' C m \<Longrightarrow> (\<And>w. P w \<Longrightarrow> P' w) \<Longrightarrow> only P C m"
  unfolding only_def by blast

lemma only_if: "(b \<Longrightarrow> only P C m) \<Longrightarrow> (\<not> b \<Longrightarrow> only P C n) \<Longrightarrow> only P C (if b then m else n)"
  by simp

lemma only_logged: "(\<And>r. C (ev r)) \<Longrightarrow> only P C (logged ev m)"
  by (rule only_traces) (auto intro: trace_intros)

lemma only_handle:
  fixes m :: "(('w, 'e) sys, 'a) io"
  assumes "only P C m" and t: "triple P m R"
    and "\<And>x. only (R (Ok x)) C (k x)" and "\<And>e. only (R (Err e)) C (h e)"
  shows "only P C (handle m h k)"
  unfolding only_def
proof (intro allI impI)
  fix s :: "('w, 'e) sys" assume P: "P (world s)"
  obtain x s1 where m: "m s = (x, s1)" by (cases "m s")
  from P assms(1) m obtain es where es: "trace s1 = trace s @ es" "list_all C es"
    unfolding only_def by fastforce
  from tripleD [OF t P m] have R: "R x (world s1)" .
  show "\<exists>es. trace (snd (handle m h k s)) = trace s @ es \<and> list_all C es"
  proof (cases x)
    case (Ok v)
    with R assms(3) [of v] es m show ?thesis unfolding only_def handle_def by fastforce
  next
    case (Err e)
    with R assms(4) [of e] es m show ?thesis unfolding only_def handle_def by fastforce
  qed (use es m in \<open>auto simp: handle_def\<close>)
qed

end
