(* ===== verification/CloudflareClient.thy ===== *)
theory CloudflareClient
  imports Manager RandomString Triples
begin

text \<open>
  \<^verbatim>\<open>pkg/external/cloudflare.go\<close>: the implementation of the manager interface over
  \<^verbatim>\<open>cloudflare-go\<close>. The library's calls are parameters (the record \<open>cf_api\<close>) on an unknown
  world; each is recorded with its arguments and reply.
\<close>

section \<open>The library calls used\<close>

datatype ResourceContainer = AccountIdentifier string | ZoneIdentifier string

record TunnelCreateParams =
  tcp_Name :: string
  tcp_ConfigSrc :: string
  tcp_Secret :: string

record DNSRecordParams = \<comment> \<open>\<^verbatim>\<open>CreateDNSRecordParams\<close> and \<^verbatim>\<open>UpdateDNSRecordParams\<close>\<close>
  drp_ID :: string
  drp_Name :: string
  drp_TTL :: int
  drp_Proxied :: "bool option"
  drp_Type :: string
  drp_Content :: string
  drp_Comment :: string

record ListDNSRecordsParams =
  ldp_Type :: string
  ldp_Name :: string
  ldp_Comment :: string

record 'w cf_api =
  api_CreateTunnel :: "ResourceContainer \<Rightarrow> TunnelCreateParams \<Rightarrow> ('w, CFTunnel) io"
  api_DeleteTunnel :: "ResourceContainer \<Rightarrow> string \<Rightarrow> ('w, unit) io"
  api_GetTunnelToken :: "ResourceContainer \<Rightarrow> string \<Rightarrow> ('w, string) io"
  api_GetTunnel :: "ResourceContainer \<Rightarrow> string \<Rightarrow> ('w, CFTunnel) io"
  api_GetTunnelConfiguration :: "ResourceContainer \<Rightarrow> string \<Rightarrow> ('w, TunnelConfiguration) io"
  api_UpdateTunnelConfiguration ::
    "ResourceContainer \<Rightarrow> string \<Rightarrow> TunnelConfiguration \<Rightarrow> ('w, unit) io"
  api_CreateDNSRecord :: "ResourceContainer \<Rightarrow> DNSRecordParams \<Rightarrow> ('w, unit) io"
  api_ListDNSRecords :: "ResourceContainer \<Rightarrow> ListDNSRecordsParams \<Rightarrow> ('w, DNSRecord list) io"
  api_UpdateDNSRecord :: "ResourceContainer \<Rightarrow> DNSRecordParams \<Rightarrow> ('w, unit) io"
  api_DeleteDNSRecord :: "ResourceContainer \<Rightarrow> string \<Rightarrow> ('w, unit) io"

datatype api_event =
    A_SecureString nat string "string outcome"
  | A_CreateTunnel ResourceContainer TunnelCreateParams "CFTunnel outcome"
  | A_DeleteTunnel ResourceContainer string "unit outcome"
  | A_GetTunnelToken ResourceContainer string "string outcome"
  | A_GetTunnel ResourceContainer string "CFTunnel outcome"
  | A_GetTunnelConfiguration ResourceContainer string "TunnelConfiguration outcome"
  | A_UpdateTunnelConfiguration ResourceContainer string TunnelConfiguration "unit outcome"
  | A_CreateDNSRecord ResourceContainer DNSRecordParams "unit outcome"
  | A_ListDNSRecords ResourceContainer ListDNSRecordsParams "DNSRecord list outcome"
  | A_UpdateDNSRecord ResourceContainer DNSRecordParams "unit outcome"
  | A_DeleteDNSRecord ResourceContainer string "unit outcome"

type_synonym 'w client_state = "('w, api_event) sys"

record 'w CloudflareTunnelClient =
  c_client :: "'w cf_api"
  c_accountId :: string
  c_zoneID :: string
  c_random :: "nat \<Rightarrow> string \<Rightarrow> ('w, string) io" \<comment> \<open>\<^verbatim>\<open>random.SecureString\<close>\<close>

text \<open>The account and the zone of the client, as the library's calls take them.\<close>

abbreviation account :: "'w CloudflareTunnelClient \<Rightarrow> ResourceContainer" where
  "account c \<equiv> AccountIdentifier (c_accountId c)"

abbreviation zone_rc :: "'w CloudflareTunnelClient \<Rightarrow> ResourceContainer" where
  "zone_rc c \<equiv> ZoneIdentifier (c_zoneID c)"

text \<open>\<^verbatim>\<open>cloudflare.NewWithAPIToken\<close> is a parameter.\<close>

definition NewCloudflareTunnelClient :: "(string \<Rightarrow> 'w cf_api outcome) \<Rightarrow> string \<Rightarrow> string \<Rightarrow> string \<Rightarrow>
    (nat \<Rightarrow> string \<Rightarrow> ('w, string) io) \<Rightarrow> 'w CloudflareTunnelClient outcome" where
  "NewCloudflareTunnelClient NewWithAPIToken apiToken accountId zoneID random =
     (case NewWithAPIToken apiToken of
        Err e \<Rightarrow> Err (Errorf_v ''failed to initialize cloudflare provider'' e)
      | Panic p \<Rightarrow> Panic p
      | Ok client \<Rightarrow> Ok \<lparr>c_client = client, c_accountId = accountId, c_zoneID = zoneID, c_random = random\<rparr>)"

section \<open>The comment of a DNS record\<close>

definition managedBy :: string where
  "managedBy = ''cloudflare-tunnel-operator''"

record DNSComment =
  dc_ManagedBy :: string
  dc_TunnelID :: string

text \<open>
  \<^verbatim>\<open>encoding/json\<close> on a string, byte by byte for ASCII: quotes, backslashes, control
  characters and the HTML characters are escaped. Bytes from 128 on are copied.
\<close>

definition hex_digit :: "nat \<Rightarrow> char" where
  "hex_digit n = ''0123456789abcdef'' ! (n mod 16)"

definition json_escape_char :: "char \<Rightarrow> string" where
  "json_escape_char c = (let n = (of_char c :: nat) in
     if c = CHR 0x22 \<or> c = CHR 0x5C then [CHR 0x5C, c]
     else if n = 8 then [CHR 0x5C, CHR ''b'']
     else if n = 12 then [CHR 0x5C, CHR ''f'']
     else if n = 10 then [CHR 0x5C, CHR ''n'']
     else if n = 13 then [CHR 0x5C, CHR ''r'']
     else if n = 9 then [CHR 0x5C, CHR ''t'']
     else if n < 32 \<or> c = CHR 0x3C \<or> c = CHR 0x3E \<or> c = CHR 0x26
       then [CHR 0x5C, CHR ''u'', CHR ''0'', CHR ''0'', hex_digit (n div 16), hex_digit n]
     else [c])"

definition json_string :: "string \<Rightarrow> string" where
  "json_string s = CHR 0x22 # concat (map json_escape_char s) @ [CHR 0x22]"

definition json_Marshal_DNSComment :: "DNSComment \<Rightarrow> string outcome" where
  "json_Marshal_DNSComment dc =
     Ok (''{'' @ json_string ''managed-by'' @ '':'' @ json_string (dc_ManagedBy dc) @ '',''
       @ json_string ''tunnelID'' @ '':'' @ json_string (dc_TunnelID dc) @ ''}'')"

section \<open>The operations\<close>

definition client_CreateTunnel :: "'w CloudflareTunnelClient \<Rightarrow> string \<Rightarrow> ('w client_state, CFTunnel) io" where
  "client_CreateTunnel c name =
     bindE (wrapV ''failed to generate secret''
       (logged (A_SecureString 32 Alphanumeric) (c_random c 32 Alphanumeric)))
     (\<lambda>secret. let params = \<lparr>tcp_Name = name, tcp_ConfigSrc = ''cloudflare'', tcp_Secret = secret\<rparr> in
     bindE (wrapV ''failed to create tunnel''
       (logged (A_CreateTunnel (account c) params) (api_CreateTunnel (c_client c) (account c) params)))
     (\<lambda>t. retE \<lparr>cft_tunnel_ID = cft_tunnel_ID t, cft_tunnel_Name = cft_tunnel_Name t\<rparr>))"

definition client_DeleteTunnel :: "'w CloudflareTunnelClient \<Rightarrow> string \<Rightarrow> ('w client_state, unit) io" where
  "client_DeleteTunnel c i =
     bindE (wrapV ''failed to delete tunnel''
       (logged (A_DeleteTunnel (account c) i) (api_DeleteTunnel (c_client c) (account c) i)))
     (\<lambda>_. retE ())"

definition client_GetTunnelToken ::
  "'w CloudflareTunnelClient \<Rightarrow> string \<Rightarrow> ('w client_state, CloudflareTunnelToken) io" where
  "client_GetTunnelToken c tunnelID =
     bindE (wrapV ''failed to get tunnel token''
       (logged (A_GetTunnelToken (account c) tunnelID)
         (api_GetTunnelToken (c_client c) (account c) tunnelID)))
     (\<lambda>t. retE t)"

definition client_GetTunnel :: "'w CloudflareTunnelClient \<Rightarrow> string \<Rightarrow> ('w client_state, CFTunnel) io" where
  "client_GetTunnel c i =
     bindE (wrapV ''failed to get tunnel''
       (logged (A_GetTunnel (account c) i) (api_GetTunnel (c_client c) (account c) i)))
     (\<lambda>t. retE \<lparr>cft_tunnel_ID = cft_tunnel_ID t, cft_tunnel_Name = cft_tunnel_Name t\<rparr>)"

definition client_DeleteToken :: "'w CloudflareTunnelClient \<Rightarrow> string \<Rightarrow> ('w client_state, unit) io" where
  "client_DeleteToken c tunnelID = retE ()"

definition client_GetTunnelConfiguration ::
  "'w CloudflareTunnelClient \<Rightarrow> string \<Rightarrow> ('w client_state, TunnelConfiguration) io" where
  "client_GetTunnelConfiguration c tunnelID =
     bindE (wrapV ''failed to get tunnel configs''
       (logged (A_GetTunnelConfiguration (account c) tunnelID)
         (api_GetTunnelConfiguration (c_client c) (account c) tunnelID)))
     (\<lambda>config. retE config)"

definition client_UpdateTunnelConfiguration ::
  "'w CloudflareTunnelClient \<Rightarrow> string \<Rightarrow> TunnelConfiguration \<Rightarrow> ('w client_state, unit) io" where
  "client_UpdateTunnelConfiguration c tunnelID config =
     bindE (wrapV ''failed to update tunnel configs''
       (logged (A_UpdateTunnelConfiguration (account c) tunnelID config)
         (api_UpdateTunnelConfiguration (c_client c) (account c) tunnelID config)))
     (\<lambda>_. retE ())"

definition client_AddDNS :: "'w CloudflareTunnelClient \<Rightarrow> string \<Rightarrow> string \<Rightarrow> ('w client_state, unit) io" where
  "client_AddDNS c tunnelID hostname =
     bindE (wrapV ''failed to generate comment''
       (liftO (json_Marshal_DNSComment \<lparr>dc_ManagedBy = managedBy, dc_TunnelID = tunnelID\<rparr>)))
     (\<lambda>comment. let params = \<lparr>drp_ID = '''', drp_Name = hostname, drp_TTL = 1, drp_Proxied = Some True,
         drp_Type = ''CNAME'', drp_Content = tunnel_target tunnelID, drp_Comment = comment\<rparr> in
     bindE (wrapV ''failed to create DNS record''
       (logged (A_CreateDNSRecord (zone_rc c) params) (api_CreateDNSRecord (c_client c) (zone_rc c) params)))
     (\<lambda>_. retE ()))"

definition client_GetDNS ::
  "'w CloudflareTunnelClient \<Rightarrow> string \<Rightarrow> string \<Rightarrow> ('w client_state, DNSRecord) io" where
  "client_GetDNS c tunnelID hostname =
     (let params = \<lparr>ldp_Type = ''CNAME'', ldp_Name = hostname, ldp_Comment = ''''\<rparr> in
     bindE (wrapV ''failed to get DNS record''
       (logged (A_ListDNSRecords (zone_rc c) params) (api_ListDNSRecords (c_client c) (zone_rc c) params)))
     (\<lambda>records. case records of [] \<Rightarrow> retE zero_DNSRecord | r # _ \<Rightarrow> retE r))"

definition client_UpdateDNS ::
  "'w CloudflareTunnelClient \<Rightarrow> string \<Rightarrow> string \<Rightarrow> DNSRecord \<Rightarrow> ('w client_state, unit) io" where
  "client_UpdateDNS c tunnelID hostname current =
     bindE (wrapV ''failed to generate comment''
       (liftO (json_Marshal_DNSComment \<lparr>dc_ManagedBy = managedBy, dc_TunnelID = tunnelID\<rparr>)))
     (\<lambda>comment. let params = \<lparr>drp_ID = rec_ID current, drp_Name = hostname, drp_TTL = 1,
         drp_Proxied = Some True, drp_Type = ''CNAME'', drp_Content = tunnel_target tunnelID,
         drp_Comment = comment\<rparr> in
     bindE (wrapV ''failed to update DNS record''
       (logged (A_UpdateDNSRecord (zone_rc c) params) (api_UpdateDNSRecord (c_client c) (zone_rc c) params)))
     (\<lambda>_. retE ()))"

definition client_DeleteDNS ::
  "'w CloudflareTunnelClient \<Rightarrow> string \<Rightarrow> string \<Rightarrow> ('w client_state, unit) io" where
  "client_DeleteDNS c tunnelID recordID =
     bindE (wrapV ''failed to delete DNS record''
       (logged (A_DeleteDNSRecord (zone_rc c) recordID)
         (api_DeleteDNSRecord (c_client c) (zone_rc c) recordID)))
     (\<lambda>_. retE ())"

definition client_DeleteAllDNS :: "'w CloudflareTunnelClient \<Rightarrow> string \<Rightarrow> ('w client_state, unit) io" where
  "client_DeleteAllDNS c tunnelID =
     bindE (wrapV ''failed to generate comment''
       (liftO (json_Marshal_DNSComment \<lparr>dc_ManagedBy = managedBy, dc_TunnelID = tunnelID\<rparr>)))
     (\<lambda>comment. let params = \<lparr>ldp_Type = ''CNAME'', ldp_Name = '''', ldp_Comment = comment\<rparr> in
     bindE (wrapV ''failed to get DNS record''
       (logged (A_ListDNSRecords (zone_rc c) params) (api_ListDNSRecords (c_client c) (zone_rc c) params)))
     (\<lambda>records. if length records = 0 then retE () else
     forE records (\<lambda>record.
       wrapV ''failed to update tunnel configs''
         (logged (A_DeleteDNSRecord (zone_rc c) (rec_ID record))
           (api_DeleteDNSRecord (c_client c) (zone_rc c) (rec_ID record))))))"

text \<open>The client as a value of the manager interface.\<close>

definition client_manager :: "'w CloudflareTunnelClient \<Rightarrow> 'w client_state CloudflareTunnelManager" where
  "client_manager c = \<lparr>
     m_CreateTunnel = client_CreateTunnel c,
     m_DeleteTunnel = client_DeleteTunnel c,
     m_GetTunnel = client_GetTunnel c,
     m_GetTunnelToken = client_GetTunnelToken c,
     m_GetTunnelConfiguration = client_GetTunnelConfiguration c,
     m_UpdateTunnelConfiguration = client_UpdateTunnelConfiguration c,
     m_AddDNS = client_AddDNS c,
     m_GetDNS = client_GetDNS c,
     m_UpdateDNS = client_UpdateDNS c,
     m_DeleteDNS = client_DeleteDNS c,
     m_DeleteAllDNS = client_DeleteAllDNS c\<rparr>"

section \<open>What every run does\<close>

text \<open>An error that passed through \<open>%v\<close> keeps no cause.\<close>

lemma wrapV_Err: "wrapV msg m s = (Err e, s') \<Longrightarrow> \<exists>e'. e = Errorf_v msg e'"
  by (auto simp: io_defs split: prod.splits outcome.splits)

lemma client_GetTunnelToken_error:
  "client_GetTunnelToken c t s = (Err e, s') \<Longrightarrow> \<exists>e'. e = Errorf_v ''failed to get tunnel token'' e'"
  by (auto simp: client_GetTunnelToken_def io_defs split: prod.splits outcome.splits)

interpretation client: opaque_manager "client_manager c" for c
  by unfold_locales (auto simp: client_manager_def dest!: client_GetTunnelToken_error)

text \<open>The secret of a new tunnel: 32 characters of the secret source's alphabet.\<close>

lemma traces_client_CreateTunnel:
  assumes "secret_source (c_random c)"
  shows "traces (\<lambda>es r. \<forall>rc p reply. A_CreateTunnel rc p reply \<in> set es \<longrightarrow>
     rc = account c \<and> tcp_Name p = name \<and> length (tcp_Secret p) = 32 \<and>
     set (tcp_Secret p) \<subseteq> set Alphanumeric) (client_CreateTunnel c name)"
proof -
  have drawn: "\<forall>x. fst (c_random c 32 Alphanumeric w) = Ok x \<longrightarrow>
      length x = 32 \<and> set x \<subseteq> set Alphanumeric" for w
    using secret_source.alphanumeric_secret [OF assms, of 32 w]
    by (cases "c_random c 32 Alphanumeric w") auto
  show ?thesis
    unfolding client_CreateTunnel_def go_simps bindE_def
    by (rule traces_handle_reply [where P = "\<lambda>r. \<forall>x. r = Ok x \<longrightarrow> length x = 32 \<and> set x \<subseteq> set Alphanumeric", OF drawn])
      (auto simp: Let_def intro!: trace_intros)
qed

text \<open>
  \<open>DeleteAllDNS\<close> lists the records that carry this tunnel's comment and deletes listed
  records only, in order, up to the first failure.
\<close>

definition own_comment :: "string \<Rightarrow> string" where
  "own_comment tunnelID = (case json_Marshal_DNSComment \<lparr>dc_ManagedBy = managedBy, dc_TunnelID = tunnelID\<rparr> of
     Ok comment \<Rightarrow> comment | _ \<Rightarrow> '''')"

definition own_listing :: "string \<Rightarrow> ListDNSRecordsParams" where
  "own_listing tunnelID = \<lparr>ldp_Type = ''CNAME'', ldp_Name = '''', ldp_Comment = own_comment tunnelID\<rparr>"

text \<open>The events of the deletion loop over the listed records.\<close>

fun deletes_prefix :: "ResourceContainer \<Rightarrow> DNSRecord list \<Rightarrow> api_event list \<Rightarrow> unit outcome \<Rightarrow> bool" where
  "deletes_prefix z rs [] r = (rs = [] \<and> r = Ok ())"
| "deletes_prefix z rs (e # es) r = (case rs of
      [] \<Rightarrow> False
    | x # xs \<Rightarrow> (case e of
        A_DeleteDNSRecord z' i reply \<Rightarrow> z' = z \<and> i = rec_ID x \<and>
          (case reply of
            Ok _ \<Rightarrow> deletes_prefix z xs es r
          | Err e' \<Rightarrow> es = [] \<and> r = Err (Errorf_v ''failed to update tunnel configs'' e')
          | Panic p \<Rightarrow> es = [] \<and> r = Panic p)
      | _ \<Rightarrow> False))"

lemma traces_deletes:
  "traces (deletes_prefix z rs) (forE rs (\<lambda>record.
     wrapV ''failed to update tunnel configs''
       (logged (A_DeleteDNSRecord z (rec_ID record)) (f record))))"
proof (induction rs)
  case Nil
  then show ?case by (simp add: traces_retE)
next
  case (Cons x xs)
  then show ?case
    by (auto simp: go_simps bindE_def intro!: trace_intros)
qed

lemma traces_client_DeleteAllDNS:
  "traces (\<lambda>es r. \<exists>reply ds. es = A_ListDNSRecords (zone_rc c) (own_listing t) reply # ds \<and>
      (case reply of
        Ok records \<Rightarrow> deletes_prefix (zone_rc c) records ds r
      | Err e \<Rightarrow> ds = [] \<and> r = Err (Errorf_v ''failed to get DNS record'' e)
      | Panic p \<Rightarrow> ds = [] \<and> r = Panic p))
    (client_DeleteAllDNS c t)"
  unfolding client_DeleteAllDNS_def own_listing_def own_comment_def json_Marshal_DNSComment_def
  by (auto simp: go_simps bindE_def Let_def intro!: trace_intros traces_deletes)

section \<open>The comment identifies the tunnel\<close>

text \<open>
  \<open>escape_shape c\<close>: the escape of \<open>c\<close> is \<open>c\<close> itself, or a backslash and a letter that
  determines \<open>c\<close>, or a \<open>\u00\<close> sequence whose digits determine \<open>c\<close>. Checked for all 256 bytes.
\<close>

definition hex_value :: "char \<Rightarrow> nat" where
  "hex_value h = (let n = (of_char h :: nat) in if n < 58 then n - 48 else n - 87)"

definition short_escape :: "char \<Rightarrow> char" where
  "short_escape x = (if x = CHR ''b'' then char_of (8::nat) else if x = CHR ''f'' then char_of (12::nat)
     else if x = CHR ''n'' then char_of (10::nat) else if x = CHR ''r'' then char_of (13::nat)
     else if x = CHR ''t'' then char_of (9::nat) else x)"

definition escape_shape :: "char \<Rightarrow> bool" where
  "escape_shape c = (case json_escape_char c of
      [d] \<Rightarrow> d = c \<and> d \<noteq> CHR 0x5C \<and> d \<noteq> CHR 0x22
    | [b, x] \<Rightarrow> b = CHR 0x5C \<and> x \<noteq> CHR ''u'' \<and> short_escape x = c
    | [b, u, z, z', h, l] \<Rightarrow> b = CHR 0x5C \<and> u = CHR ''u''
        \<and> char_of (16 * hex_value h + hex_value l) = c
    | _ \<Rightarrow> False)"

lemma hex_value_hex_digit: "hex_value (hex_digit k) = k mod 16"
proof -
  have "list_all (\<lambda>j. hex_value (''0123456789abcdef'' ! j) = j) [0..<16]" by code_simp
  then show ?thesis by (simp add: hex_digit_def list_all_iff)
qed

lemma unicode_escape_inverse:
  "char_of (16 * hex_value (hex_digit (of_char c div 16)) + hex_value (hex_digit (of_char c))) = c"
proof -
  have "of_char c < (256::nat)" by (rule nat_of_char_less_256)
  then have "of_char c div 16 < (16::nat)" by (simp add: div_less_iff_less_mult)
  then show ?thesis by (simp add: hex_value_hex_digit)
qed

lemma escape_shape_all: "escape_shape c"
proof -
  have "c = char_of n" if "(of_char c :: nat) = n" for n using that by (metis char_of_char)
  then show ?thesis
    using unicode_escape_inverse [of c]
    by (auto simp: escape_shape_def json_escape_char_def Let_def short_escape_def)
qed

lemma json_escape_char_cases:
  obtains (plain) "json_escape_char c = [c]" "c \<noteq> CHR 0x5C" "c \<noteq> CHR 0x22"
  | (short) x where "json_escape_char c = [CHR 0x5C, x]" "x \<noteq> CHR ''u''" "short_escape x = c"
  | (long) z z' h l where "json_escape_char c = [CHR 0x5C, CHR ''u'', z, z', h, l]"
      "char_of (16 * hex_value h + hex_value l) = c"
  using escape_shape_all [of c] unfolding escape_shape_def
  by (auto split: list.splits)

lemma json_escape_char_prefix_free:
  "json_escape_char c @ xs = json_escape_char d @ ys \<Longrightarrow> c = d \<and> xs = ys"
  by (cases c rule: json_escape_char_cases; cases d rule: json_escape_char_cases) auto

lemma json_escape_char_not_quote:
  "json_escape_char c @ xs \<noteq> CHR 0x22 # ys"
  by (cases c rule: json_escape_char_cases) auto

lemma json_escapes_inj:
  "concat (map json_escape_char a) @ CHR 0x22 # xs = concat (map json_escape_char b) @ CHR 0x22 # ys \<Longrightarrow>
   a = b \<and> xs = ys"
proof (induction a arbitrary: b)
  case Nil
  show ?case
  proof (cases b)
    case Nil
    with Nil.prems show ?thesis by simp
  next
    case (Cons d b')
    with Nil.prems have "json_escape_char d @ (concat (map json_escape_char b') @ CHR 0x22 # ys) = CHR 0x22 # xs"
      by simp
    then show ?thesis by (simp only: json_escape_char_not_quote)
  qed
next
  case (Cons c a)
  show ?case
  proof (cases b)
    case Nil
    with Cons.prems have "json_escape_char c @ (concat (map json_escape_char a) @ CHR 0x22 # xs) = CHR 0x22 # ys"
      by simp
    then show ?thesis by (simp only: json_escape_char_not_quote)
  next
    case (Cons d b')
    with Cons.prems have "json_escape_char c @ (concat (map json_escape_char a) @ CHR 0x22 # xs)
        = json_escape_char d @ (concat (map json_escape_char b') @ CHR 0x22 # ys)" by simp
    from json_escape_char_prefix_free [OF this] Cons.IH [of b'] Cons show ?thesis by auto
  qed
qed

lemma own_comment_inj: "own_comment a = own_comment b \<longleftrightarrow> a = b"
  using json_escapes_inj [of a "''}''" b "''}''"]
  by (auto simp: own_comment_def json_Marshal_DNSComment_def json_string_def)

section \<open>Over a DNS service that behaves as documented\<close>

text \<open>
  What Cloudflare documents of the DNS record calls, on a view \<open>zone\<close> of the world: a listing
  returns the records that pass the filters that are set; a created record is new, has an
  identifier and carries the given fields; an update replaces the fields of the record with
  the identifier; a deletion removes it.
\<close>

definition listed :: "ListDNSRecordsParams \<Rightarrow> DNSRecord \<Rightarrow> bool" where
  "listed p r \<longleftrightarrow> (ldp_Type p = '''' \<or> rec_Type r = ldp_Type p)
     \<and> (ldp_Name p = '''' \<or> rec_Name r = ldp_Name p)
     \<and> (ldp_Comment p = '''' \<or> rec_Comment r = ldp_Comment p)"

definition with_params :: "DNSRecordParams \<Rightarrow> string \<Rightarrow> DNSRecord" where
  "with_params p i = \<lparr>rec_ID = i, rec_Type = drp_Type p, rec_Name = drp_Name p,
     rec_Content = drp_Content p, rec_Proxied = drp_Proxied p, rec_TTL = drp_TTL p,
     rec_Comment = drp_Comment p\<rparr>"

definition dns_service :: "'w cf_api \<Rightarrow> string \<Rightarrow> ('w \<Rightarrow> DNSRecord list) \<Rightarrow> bool" where
  "dns_service api zid zone \<longleftrightarrow>
     (\<forall>p w rs w'. api_ListDNSRecords api (ZoneIdentifier zid) p w = (Ok rs, w') \<longrightarrow>
        zone w' = zone w \<and> rs = filter (listed p) (zone w)) \<and>
     (\<forall>p w u w'. api_CreateDNSRecord api (ZoneIdentifier zid) p w = (Ok u, w') \<longrightarrow>
        (\<exists>i. i \<noteq> '''' \<and> i \<notin> rec_ID ` set (zone w) \<and> zone w' = zone w @ [with_params p i])) \<and>
     (\<forall>p w u w'. api_UpdateDNSRecord api (ZoneIdentifier zid) p w = (Ok u, w') \<longrightarrow>
        zone w' = map (\<lambda>r. if rec_ID r = drp_ID p then with_params p (drp_ID p) else r) (zone w)) \<and>
     (\<forall>i w u w'. api_DeleteDNSRecord api (ZoneIdentifier zid) i w = (Ok u, w') \<longrightarrow>
        zone w' = filter (\<lambda>r. rec_ID r \<noteq> i) (zone w))"

lemma dns_service_list: "dns_service api zid zone \<Longrightarrow>
    api_ListDNSRecords api (ZoneIdentifier zid) p w = (Ok rs, w') \<Longrightarrow>
    zone w' = zone w \<and> rs = filter (listed p) (zone w)"
  unfolding dns_service_def by blast

lemma dns_service_create: "dns_service api zid zone \<Longrightarrow>
    api_CreateDNSRecord api (ZoneIdentifier zid) p w = (Ok u, w') \<Longrightarrow>
    \<exists>i. i \<noteq> '''' \<and> i \<notin> rec_ID ` set (zone w) \<and> zone w' = zone w @ [with_params p i]"
  unfolding dns_service_def by blast

lemma dns_service_update: "dns_service api zid zone \<Longrightarrow>
    api_UpdateDNSRecord api (ZoneIdentifier zid) p w = (Ok u, w') \<Longrightarrow>
    zone w' = map (\<lambda>r. if rec_ID r = drp_ID p then with_params p (drp_ID p) else r) (zone w)"
  unfolding dns_service_def by blast

lemma dns_service_delete: "dns_service api zid zone \<Longrightarrow>
    api_DeleteDNSRecord api (ZoneIdentifier zid) i w = (Ok u, w') \<Longrightarrow>
    zone w' = filter (\<lambda>r. rec_ID r \<noteq> i) (zone w)"
  unfolding dns_service_def by blast

lemma first_cname_listed:
  "first_cname h zone = (case filter (listed \<lparr>ldp_Type = ''CNAME'', ldp_Name = h, ldp_Comment = ''''\<rparr>) zone of
     [] \<Rightarrow> zero_DNSRecord | r # _ \<Rightarrow> r)"
proof -
  have "cname_matches h = listed \<lparr>ldp_Type = ''CNAME'', ldp_Name = h, ldp_Comment = ''''\<rparr>"
    by (auto simp: cname_matches_def listed_def fun_eq_iff)
  then show ?thesis by (simp add: first_cname_def)
qed

interpretation client_dns: dns_manager "client_manager c" "\<lambda>s. zone (world s)"
    "dns_service (c_client c) (c_zoneID c) zone" for c zone
proof unfold_locales
  assume doc: "dns_service (c_client c) (c_zoneID c) zone"
  fix t h i cur and s s' :: "('a, api_event) sys" and r and u :: unit
  show "zone (world s') = zone (world s) \<and> r = first_cname h (zone (world s))"
    if get: "m_GetDNS (client_manager c) t h s = (Ok r, s')"
  proof -
    let ?p = "\<lparr>ldp_Type = ''CNAME'', ldp_Name = h, ldp_Comment = ''''\<rparr>"
    from get obtain rs w where api: "api_ListDNSRecords (c_client c) (zone_rc c) ?p (world s) = (Ok rs, w)"
      and k: "(case rs of [] \<Rightarrow> retE zero_DNSRecord | r # _ \<Rightarrow> retE r)
        (s\<lparr>world := w, trace := trace s @ [A_ListDNSRecords (zone_rc c) ?p (Ok rs)]\<rparr>) = (Ok r, s')"
      by (auto simp: client_manager_def client_GetDNS_def ok_simps Let_def)
    from dns_service_list [OF doc api] have w: "zone w = zone (world s)"
      and rs: "filter (listed ?p) (zone (world s)) = rs" by simp_all
    from k w show ?thesis
      unfolding first_cname_listed rs by (cases rs) (auto simp: ok_simps)
  qed
  show "\<exists>new. zone (world s') = zone (world s) @ [new] \<and> points_to new t \<and> rec_Name new = h
        \<and> rec_ID new \<notin> rec_ID ` set (zone (world s))"
    if "m_AddDNS (client_manager c) t h s = (Ok u, s')"
    using that
    by (auto simp: client_manager_def client_AddDNS_def ok_simps Let_def
        json_Marshal_DNSComment_def points_to_def with_params_def
        dest!: dns_service_create [OF doc])
  show "\<exists>f. zone (world s') = map (\<lambda>r. if rec_ID r = rec_ID cur then f r else r) (zone (world s))
        \<and> (\<forall>r. repoint t h r (f r))"
    if upd: "m_UpdateDNS (client_manager c) t h cur s = (Ok u, s')"
  proof -
    define p where "p = \<lparr>drp_ID = rec_ID cur, drp_Name = h, drp_TTL = 1, drp_Proxied = Some True,
      drp_Type = ''CNAME'', drp_Content = tunnel_target t, drp_Comment = own_comment t\<rparr>"
    from upd obtain w where "api_UpdateDNSRecord (c_client c) (zone_rc c) p (world s) = (Ok (), w)"
      and "world s' = w"
      by (auto simp: client_manager_def client_UpdateDNS_def ok_simps Let_def p_def own_comment_def
          json_Marshal_DNSComment_def)
    then have "zone (world s') = map (\<lambda>r. if rec_ID r = drp_ID p then with_params p (drp_ID p) else r)
        (zone (world s))"
      using dns_service_update [OF doc] by blast
    then have "zone (world s') =
        map (\<lambda>r. if rec_ID r = rec_ID cur then with_params p (rec_ID r) else r) (zone (world s))"
      by (auto simp: p_def)
    moreover have "\<forall>r. repoint t h r (with_params p (rec_ID r))"
      by (simp add: p_def repoint_def with_params_def)
    ultimately show ?thesis by (intro exI [of _ "\<lambda>r. with_params p (rec_ID r)"]) simp
  qed
  show "zone (world s') = filter (\<lambda>r. rec_ID r \<noteq> i) (zone (world s))"
    if "m_DeleteDNS (client_manager c) t i s = (Ok u, s')"
    using that
    by (auto simp: client_manager_def client_DeleteDNS_def ok_simps
        dest!: dns_service_delete [OF doc])
qed

text \<open>A successful \<^verbatim>\<open>DeleteAllDNS\<close> removes the tunnel's own records, and no other.\<close>

lemma zone_ok_id_inj: "zone_ok zone \<Longrightarrow> x \<in> set zone \<Longrightarrow> y \<in> set zone \<Longrightarrow> rec_ID x = rec_ID y \<Longrightarrow> x = y"
  by (auto simp: zone_ok_def distinct_map inj_on_def)

lemma client_DeleteAllDNS_zone:
  assumes doc: "dns_service (c_client c) (c_zoneID c) zone" and ok: "zone_ok (zone (world s))"
    and run: "client_DeleteAllDNS c t s = (Ok (), s')"
  shows "zone (world s') = filter (\<lambda>r. \<not> listed (own_listing t) r) (zone (world s))"
proof -
  let ?z = "zone (world s)" and ?rs = "filter (listed (own_listing t)) (zone (world s))"
  from run obtain rs w s1 where
    api: "api_ListDNSRecords (c_client c) (zone_rc c) (own_listing t) (world s) = (Ok rs, w)"
    and s1: "world s1 = w"
    and k: "(if length rs = 0 then retE () else forE rs (\<lambda>record.
       wrapV ''failed to update tunnel configs''
         (logged (A_DeleteDNSRecord (zone_rc c) (rec_ID record))
           (api_DeleteDNSRecord (c_client c) (zone_rc c) (rec_ID record))))) s1 = (Ok (), s')"
    by (force simp: client_DeleteAllDNS_def own_listing_def own_comment_def json_Marshal_DNSComment_def
        ok_simps Let_def simp del: length_0_conv)
  from dns_service_list [OF doc api] s1 have z1: "zone (world s1) = ?z" and rs: "rs = ?rs" by auto
  have loop: "forE rs (\<lambda>record. wrapV ''failed to update tunnel configs''
         (logged (A_DeleteDNSRecord (zone_rc c) (rec_ID record))
           (api_DeleteDNSRecord (c_client c) (zone_rc c) (rec_ID record)))) s1 = (Ok (), s')"
    using k by (cases rs) auto
  define I where "I D s = (zone (world s) = filter (\<lambda>r. rec_ID r \<notin> rec_ID ` D) ?z)"
    for D :: "DNSRecord set" and s :: "('a, api_event) sys"
  have "I ({} \<union> set rs) s'"
  proof (rule forE_Ok_induct [OF loop])
    show "I {} s1" by (simp add: I_def z1)
    fix x :: DNSRecord and D s2 s3
    assume I: "I D s2" and "wrapV ''failed to update tunnel configs''
      (logged (A_DeleteDNSRecord (zone_rc c) (rec_ID x))
        (api_DeleteDNSRecord (c_client c) (zone_rc c) (rec_ID x))) s2 = (Ok (), s3)"
    then have "zone (world s3) = filter (\<lambda>r. rec_ID r \<noteq> rec_ID x) (zone (world s2))"
      by (auto simp: ok_simps dest!: dns_service_delete [OF doc])
    with I show "I (insert x D) s3" by (auto simp: I_def intro: filter_cong)
  qed
  then have "zone (world s') = filter (\<lambda>r. rec_ID r \<notin> rec_ID ` set ?rs) ?z" by (simp add: I_def rs)
  also have "\<dots> = filter (\<lambda>r. \<not> listed (own_listing t) r) ?z"
    by (rule filter_cong) (use zone_ok_id_inj [OF ok] in \<open>auto simp: image_iff\<close>)
  finally show ?thesis .
qed

section \<open>Over a tunnel service that behaves as documented\<close>

text \<open>
  What Cloudflare documents of the configuration calls of an account, on a view \<open>config\<close>: a
  read returns the stored configuration, a write replaces it; neither touches DNS records,
  and DNS calls do not touch configurations.
\<close>

definition tunnel_service :: "'w cf_api \<Rightarrow> string \<Rightarrow> string \<Rightarrow> ('w \<Rightarrow> DNSRecord list) \<Rightarrow>
    ('w \<Rightarrow> string \<Rightarrow> TunnelConfiguration) \<Rightarrow> bool" where
  "tunnel_service api aid zid zone config \<longleftrightarrow>
     (\<forall>t w c w'. api_GetTunnelConfiguration api (AccountIdentifier aid) t w = (Ok c, w') \<longrightarrow>
        c = config w t \<and> config w' = config w \<and> zone w' = zone w) \<and>
     (\<forall>t c w u w'. api_UpdateTunnelConfiguration api (AccountIdentifier aid) t c w = (Ok u, w') \<longrightarrow>
        config w' = (config w)(t := c) \<and> zone w' = zone w) \<and>
     (\<forall>p w rs w'. api_ListDNSRecords api (ZoneIdentifier zid) p w = (Ok rs, w') \<longrightarrow> config w' = config w) \<and>
     (\<forall>p w u w'. api_CreateDNSRecord api (ZoneIdentifier zid) p w = (Ok u, w') \<longrightarrow> config w' = config w) \<and>
     (\<forall>p w u w'. api_UpdateDNSRecord api (ZoneIdentifier zid) p w = (Ok u, w') \<longrightarrow> config w' = config w) \<and>
     (\<forall>i w u w'. api_DeleteDNSRecord api (ZoneIdentifier zid) i w = (Ok u, w') \<longrightarrow> config w' = config w)"

definition documented_service :: "'w CloudflareTunnelClient \<Rightarrow> ('w \<Rightarrow> DNSRecord list) \<Rightarrow>
    ('w \<Rightarrow> string \<Rightarrow> TunnelConfiguration) \<Rightarrow> bool" where
  "documented_service c zone config \<longleftrightarrow> dns_service (c_client c) (c_zoneID c) zone
     \<and> tunnel_service (c_client c) (c_accountId c) (c_zoneID c) zone config"

lemma client_GetDNS_call: "client_GetDNS c t h s = (Ok d, s') \<Longrightarrow>
    \<exists>p rs. api_ListDNSRecords (c_client c) (zone_rc c) p (world s) = (Ok rs, world s')"
proof -
  assume "client_GetDNS c t h s = (Ok d, s')"
  then obtain p rs w s1 where "api_ListDNSRecords (c_client c) (zone_rc c) p (world s) = (Ok rs, w)"
    and "world s1 = w" and "(case rs of [] \<Rightarrow> retE zero_DNSRecord | r # _ \<Rightarrow> retE r) s1 = (Ok d, s')"
    by (force simp: client_GetDNS_def ok_simps Let_def)
  then show ?thesis by (cases rs) (auto simp: ok_simps)
qed

interpretation client_view: cloudflare_view "client_manager c" "\<lambda>s. zone (world s)"
    "documented_service c zone config" "\<lambda>s. config (world s)" for c zone config
proof (intro cloudflare_view.intro cloudflare_view_axioms.intro)
  show "dns_manager (client_manager c) (\<lambda>s. zone (world s)) (documented_service c zone config)"
    by (unfold_locales; unfold documented_service_def)
      (blast dest: client_dns.get_dns client_dns.add_dns client_dns.update_dns client_dns.delete_dns)+
next
  assume "documented_service c zone config"
  then have svc: "tunnel_service (c_client c) (c_accountId c) (c_zoneID c) zone config"
    by (simp add: documented_service_def)
  fix t h i d and s s' :: "('a, api_event) sys" and cf cf' and u :: unit
  show "cf = config (world s) t \<and> config (world s') = config (world s) \<and> zone (world s') = zone (world s)"
    if "m_GetTunnelConfiguration (client_manager c) t s = (Ok cf, s')"
    using that svc
    by (auto simp: client_manager_def client_GetTunnelConfiguration_def ok_simps tunnel_service_def)
  show "config (world s') = (config (world s))(t := cf') \<and> zone (world s') = zone (world s)"
    if "m_UpdateTunnelConfiguration (client_manager c) t cf' s = (Ok u, s')"
    using that svc
    by (auto simp: client_manager_def client_UpdateTunnelConfiguration_def ok_simps tunnel_service_def)
  show "config (world s') = config (world s)" if "m_GetDNS (client_manager c) t h s = (Ok d, s')"
    using that svc by (auto simp: client_manager_def tunnel_service_def dest!: client_GetDNS_call)
  show "config (world s') = config (world s)" if "m_AddDNS (client_manager c) t h s = (Ok u, s')"
    using that svc by (auto simp: client_manager_def client_AddDNS_def ok_simps Let_def tunnel_service_def)
  show "config (world s') = config (world s)" if "m_UpdateDNS (client_manager c) t h d s = (Ok u, s')"
    using that svc by (auto simp: client_manager_def client_UpdateDNS_def ok_simps Let_def tunnel_service_def)
  show "config (world s') = config (world s)" if "m_DeleteDNS (client_manager c) t i s = (Ok u, s')"
    using that svc by (auto simp: client_manager_def client_DeleteDNS_def ok_simps tunnel_service_def)
qed

text \<open>The client's mark is its comment.\<close>

definition own_mark :: "string \<Rightarrow> DNSRecord \<Rightarrow> bool" where
  "own_mark t r \<longleftrightarrow> rec_Comment r = own_comment t"

lemma own_mark_inj: "own_mark t r \<Longrightarrow> own_mark t' r \<Longrightarrow> t = t'"
  by (simp add: own_mark_def own_comment_inj)

lemma own_comment_eq: "json_Marshal_DNSComment \<lparr>dc_ManagedBy = managedBy, dc_TunnelID = t\<rparr> = Ok (own_comment t)"
  by (simp add: own_comment_def json_Marshal_DNSComment_def)

lemma own_listing_listed: "listed (own_listing t) r \<longleftrightarrow> rec_Type r = ''CNAME'' \<and> own_mark t r"
proof -
  have "own_comment t \<noteq> ''''" by (simp add: own_comment_def json_Marshal_DNSComment_def)
  then show ?thesis by (auto simp: listed_def own_listing_def own_mark_def)
qed

interpretation client_owner: record_owner "client_manager c" "\<lambda>s. zone (world s)"
    "documented_service c zone config" "\<lambda>s. config (world s)" own_mark for c zone config
proof (intro record_owner.intro record_owner_axioms.intro client_view.cloudflare_view_axioms)
  show "t = t'" if "own_mark t r" "own_mark t' r" for t t' r using that by (rule own_mark_inj)
next
  assume "documented_service c zone config"
  then have doc: "dns_service (c_client c) (c_zoneID c) zone" by (simp add: documented_service_def)
  fix t h cur and s s' :: "('a, api_event) sys" and u :: unit
  show "\<exists>new. zone (world s') = zone (world s) @ [new] \<and> rec_Type new = ''CNAME'' \<and> own_mark t new"
    if "m_AddDNS (client_manager c) t h s = (Ok u, s')"
    using that
    by (auto simp: client_manager_def client_AddDNS_def ok_simps Let_def own_comment_eq own_mark_def with_params_def
        dest!: dns_service_create [OF doc])
  show "\<exists>f. zone (world s') = map (\<lambda>r. if rec_ID r = rec_ID cur then f r else r) (zone (world s)) \<and>
      (\<forall>r. repoint t h r (f r) \<and> own_mark t (f r))"
    if upd: "m_UpdateDNS (client_manager c) t h cur s = (Ok u, s')"
  proof -
    define p where "p = \<lparr>drp_ID = rec_ID cur, drp_Name = h, drp_TTL = 1, drp_Proxied = Some True,
      drp_Type = ''CNAME'', drp_Content = tunnel_target t, drp_Comment = own_comment t\<rparr>"
    from upd have "api_UpdateDNSRecord (c_client c) (zone_rc c) p (world s) = (Ok (), world s')"
      by (auto simp: client_manager_def client_UpdateDNS_def ok_simps Let_def p_def own_comment_eq)
    from dns_service_update [OF doc this]
    have "zone (world s') = map (\<lambda>r. if rec_ID r = rec_ID cur then with_params p (rec_ID r) else r) (zone (world s))"
      by (auto simp: p_def)
    then show ?thesis
      by (intro exI [of _ "\<lambda>r. with_params p (rec_ID r)"]) (simp add: p_def repoint_def with_params_def own_mark_def)
  qed
  show "zone (world s') = filter (\<lambda>r. \<not> (rec_Type r = ''CNAME'' \<and> own_mark t r)) (zone (world s))"
    if "zone_ok (zone (world s))" "m_DeleteAllDNS (client_manager c) t s = (Ok u, s')"
    using client_DeleteAllDNS_zone [OF doc that(1), of t s'] that(2) by (simp add: client_manager_def own_listing_listed)
qed

section \<open>Tunnels and tokens\<close>

text \<open>
  Documented behaviour of the calls a tunnel's life uses: a created tunnel has an identifier,
  the token endpoint returns a token issued for the tunnel in the path, and none of the calls
  changes anything but the Cloudflare account (\<open>step\<close> relates the world before to the world
  after, and may include what other parties do meanwhile).
\<close>

definition issuing_service :: "'w CloudflareTunnelClient \<Rightarrow> (string \<Rightarrow> CloudflareTunnelToken \<Rightarrow> bool) \<Rightarrow>
    ('w \<Rightarrow> 'w \<Rightarrow> bool) \<Rightarrow> bool" where
  "issuing_service c issued step \<longleftrightarrow> reflp step \<and> transp step \<and>
     (\<forall>n alphabet w. step w (snd (c_random c n alphabet w))) \<and>
     (\<forall>p w. step w (snd (api_CreateTunnel (c_client c) (account c) p w))) \<and>
     (\<forall>t w. step w (snd (api_GetTunnelToken (c_client c) (account c) t w))) \<and>
     (\<forall>t w. step w (snd (api_DeleteTunnel (c_client c) (account c) t w))) \<and>
     (\<forall>p w. step w (snd (api_ListDNSRecords (c_client c) (zone_rc c) p w))) \<and>
     (\<forall>i w. step w (snd (api_DeleteDNSRecord (c_client c) (zone_rc c) i w))) \<and>
     (\<forall>p w tunnel. fst (api_CreateTunnel (c_client c) (account c) p w) = Ok tunnel \<longrightarrow> cft_tunnel_ID tunnel \<noteq> '''') \<and>
     (\<forall>t w token. fst (api_GetTunnelToken (c_client c) (account c) t w) = Ok token \<longrightarrow> issued t token)"

text \<open>A call moves by a step when it keeps everything reachable by steps.\<close>

lemma step_keeps:
  assumes "issuing_service c issued step" and "\<And>w. keeps (step w) m"
  shows "step (world s) (world (snd (m s)))"
proof -
  from assms(1) have "step (world s) (world s)" by (simp add: issuing_service_def reflpD)
  from keepsD [OF assms(2) this surjective_pairing] show ?thesis .
qed

lemma keeps_step:
  "issuing_service c issued step \<Longrightarrow> (\<And>w. step w (snd (m w))) \<Longrightarrow> keeps (step w0) (logged ev m)"
  by (rule keeps_logged) (auto simp: issuing_service_def elim: transpE)

lemma issuing_service_calls:
  assumes "issuing_service c issued step"
  shows "keeps (step w) (client_CreateTunnel c n)" "keeps (step w) (client_GetTunnelToken c t)"
    "keeps (step w) (client_DeleteTunnel c t)" "keeps (step w) (client_DeleteAllDNS c t)"
proof -
  note call = keeps_step [OF assms]
  note doc = assms [unfolded issuing_service_def]
  show "keeps (step w) (client_CreateTunnel c n)" "keeps (step w) (client_GetTunnelToken c t)"
    "keeps (step w) (client_DeleteTunnel c t)"
    unfolding client_CreateTunnel_def client_GetTunnelToken_def client_DeleteTunnel_def Let_def
    by (intro keeps_intros call; simp add: doc)+
  show "keeps (step w) (client_DeleteAllDNS c t)"
    unfolding client_DeleteAllDNS_def Let_def
    by (intro keeps_intros keeps_forE call; simp add: doc)
qed

interpretation client_tokens: tunnel_issuer "client_manager c" "issuing_service c issued step" issued
    "\<lambda>s s'. step (world s) (world s')" for c issued step
proof unfold_locales
  assume doc: "issuing_service c issued step"
  fix s :: "('a, api_event) sys" and n t tunnel token
  show "step (world s) (world (snd (m_CreateTunnel (client_manager c) n s)))"
    "step (world s) (world (snd (m_GetTunnelToken (client_manager c) t s)))"
    "step (world s) (world (snd (m_DeleteTunnel (client_manager c) t s)))"
    "step (world s) (world (snd (m_DeleteAllDNS (client_manager c) t s)))"
    unfolding client_manager_def by (simp_all add: step_keeps [OF doc] issuing_service_calls [OF doc])
  show "cft_tunnel_ID tunnel \<noteq> ''''" if "fst (m_CreateTunnel (client_manager c) n s) = Ok tunnel"
    using that doc
    by (auto simp: client_manager_def client_CreateTunnel_def issuing_service_def io_defs Let_def logged_def
        split: prod.splits outcome.splits) (metis fst_conv)
  show "issued t token" if "fst (m_GetTunnelToken (client_manager c) t s) = Ok token"
    using that doc
    by (auto simp: client_manager_def client_GetTunnelToken_def issuing_service_def io_defs logged_def
        split: prod.splits outcome.splits) (metis fst_conv)
qed


end
