(* ===== verification/IngressEffects.thy ===== *)
theory IngressEffects
  imports IngressReconciler CloudflareClient
begin

text \<open>
  What the ingress reconciler leaves in Cloudflare. The lemmas are proved once, from the
  contracts \<open>dns_manager\<close> and \<open>cloudflare_view\<close>, for any manager; the interpretations in
  \<^verbatim>\<open>CloudflareClient\<close> give them for the client of \<^verbatim>\<open>pkg/external\<close>.
\<close>

lemma with_lock_eq [ok_simps]: "with_lock m s = (r, s') \<longleftrightarrow>
    (\<exists>s1. m (s\<lparr>trace := trace s @ [Lock]\<rparr>) = (r, s1) \<and> s' = s1\<lparr>trace := trace s1 @ [Unlock]\<rparr>)"
  by (auto simp: with_lock_def split: prod.splits)

section \<open>DNS records\<close>

context dns_manager
begin

definition lookup :: "string \<Rightarrow> 's state \<Rightarrow> DNSRecord" where
  "lookup h s = first_cname h (zone (world s))"

lemma GetDNS_Ok: "documented \<Longrightarrow> r_Manager r = mgr \<Longrightarrow>
    call_GetDNS r t h s = (Ok d, s1) \<Longrightarrow> d = lookup h s \<and> zone (world s1) = zone (world s)"
  by (auto simp: ok_simps lookup_def dest!: get_dns)

text \<open>A successful \<^verbatim>\<open>appendDNSRecord\<close> adds a record, keeps a healthy one or updates one.\<close>

lemma appendDNS_cases:
  assumes doc: documented and mgr: "r_Manager r = mgr" and run: "appendDNSRecord r t h s = (Ok (), s')"
  obtains (add) w where "rec_ID (lookup (h_Host h) s) = ''''" "zone w = zone (world s)"
      "m_AddDNS mgr t (h_Host h) w = (Ok (), world s')"
    | (keep) "points_to (lookup (h_Host h) s) t" "zone (world s') = zone (world s)"
    | (upd) w where "rec_ID (lookup (h_Host h) s) \<noteq> ''''" "\<not> points_to (lookup (h_Host h) s) t" "zone w = zone (world s)"
      "m_UpdateDNS mgr t (h_Host h) (lookup (h_Host h) s) w = (Ok (), world s')"
proof -
  let ?s = "s\<lparr>trace := trace s @ [Lock]\<rparr>" and ?z = "zone (world s)"
  from run obtain d s1 s2 where get: "call_GetDNS r t (h_Host h) ?s = (Ok d, s1)"
    and k: "(if rec_ID d = '''' then wrapV ''failed to add DNS record'' (call_AddDNS r t (h_Host h))
       else bindE (liftO (Healthy d t)) (\<lambda>healthy. if \<not> healthy
         then wrapV ''failed to update DNS record'' (call_UpdateDNS r t (h_Host h) d) else retE ())) s1
      = (Ok (), s2)" and s': "world s' = world s2"
    by (auto simp: appendDNSRecord_def ok_simps)
  from GetDNS_Ok [OF doc mgr get] have d: "d = lookup (h_Host h) s" and z1: "zone (world s1) = ?z"
    by (simp_all add: lookup_def)
  show ?thesis
  proof (cases "rec_ID d = ''''")
    case True
    with k mgr z1 d s' show ?thesis by (auto simp: ok_simps intro: add [of "world s1"])
  next
    case False
    show ?thesis
    proof (cases "Healthy d t")
      case (Ok b)
      with False k mgr have "if b then s2 = s1 else m_UpdateDNS mgr t (h_Host h) d (world s1) = (Ok (), world s2)"
        by (cases b) (auto simp: bindE_def ok_simps)
      with Ok False d z1 s' show ?thesis
        using Healthy_True_iff [of d t] by (cases b) (auto intro: keep upd [of "world s1"])
    qed (use False k in \<open>auto simp: bindE_def ok_simps\<close>)
  qed
qed

text \<open>A record that is an alias of the tunnel already is left alone.\<close>

lemma appendDNS_noop:
  assumes "documented" and "r_Manager r = mgr" and "appendDNSRecord r t h s = (Ok (), s')"
    and "points_to (lookup (h_Host h) s) t"
  shows "zone (world s') = zone (world s)"
  using assms(1-3) by (cases rule: appendDNS_cases) (use assms(4) in \<open>auto simp: points_to_def\<close>)

lemma appendDNS_loop_noop:
  assumes doc: documented and mgr: "r_Manager r = mgr"
    and run: "forE hosts (\<lambda>h. wrapW msg (appendDNSRecord r t h)) s = (Ok (), s')"
    and there: "\<forall>h \<in> set hosts. points_to (lookup (h_Host h) s) t"
  shows "zone (world s') = zone (world s)"
  by (rule forE_Ok_induct [OF run, where D = "{}" and I = "\<lambda>_ s1. zone (world s1) = zone (world s)"])
    (use there in \<open>auto simp: ok_simps lookup_def dest!: appendDNS_noop [OF doc mgr]\<close>)

lemma appendDNS_effect:
  assumes doc: documented and mgr: "r_Manager r = mgr" and ok: "zone_ok (zone (world s))"
    and run: "appendDNSRecord r t h s = (Ok (), s')" and h: "h_Host h \<noteq> ''''"
  shows "points_to (lookup (h_Host h) s') t" and "zone_ok (zone (world s'))"
    and "k \<noteq> '''' \<Longrightarrow> k \<noteq> h_Host h \<Longrightarrow> lookup k s' = lookup k s"
proof -
  let ?z = "zone (world s)"
  from doc mgr run
  have "points_to (first_cname (h_Host h) (zone (world s'))) t \<and> zone_ok (zone (world s')) \<and>
    (k \<noteq> '''' \<longrightarrow> k \<noteq> h_Host h \<longrightarrow> first_cname k (zone (world s')) = first_cname k ?z)"
  proof (cases rule: appendDNS_cases)
    case (add w)
    from add_dns [OF doc add(3)] add(2) obtain new where "zone (world s') = ?z @ [new]"
      "points_to new t" "rec_Name new = h_Host h" "rec_ID new \<notin> rec_ID ` set ?z" by auto
    with first_cname_add [OF ok add(1) [unfolded lookup_def]] show ?thesis by simp
  next
    case keep
    with ok show ?thesis by (simp add: lookup_def)
  next
    case (upd w)
    from update_dns [OF doc upd(4)] upd(3) obtain f where
      z2: "zone (world s') = map (\<lambda>r. if rec_ID r = rec_ID (lookup (h_Host h) s) then f r else r) ?z"
      and f: "\<And>r. repoint t (h_Host h) r (f r)" by auto
    from first_cname_map [OF ok upd(1) [unfolded lookup_def] h f z2 [unfolded lookup_def]] show ?thesis by simp
  qed
  then show "points_to (lookup (h_Host h) s') t" and "zone_ok (zone (world s'))"
    and "k \<noteq> '''' \<Longrightarrow> k \<noteq> h_Host h \<Longrightarrow> lookup k s' = lookup k s"
    by (simp_all add: lookup_def)
qed

lemma appendDNS_loop:
  assumes doc: documented and mgr: "r_Manager r = mgr" and ok: "zone_ok (zone (world s))"
    and run: "forE hosts (\<lambda>h. wrapW msg (appendDNSRecord r t h)) s = (Ok (), s')"
    and named: "\<forall>h \<in> set hosts. h_Host h \<noteq> ''''"
  shows "\<forall>h \<in> set hosts. points_to (lookup (h_Host h) s') t" and "zone_ok (zone (world s'))"
    and "k \<noteq> '''' \<Longrightarrow> \<forall>h \<in> set hosts. h_Host h \<noteq> k \<Longrightarrow> lookup k s' = lookup k s"
proof -
  define I :: "host set \<Rightarrow> 's state \<Rightarrow> bool" where "I D s1 \<longleftrightarrow> zone_ok (zone (world s1)) \<and> (\<forall>h \<in> D. points_to (lookup (h_Host h) s1) t)
      \<and> (\<forall>h \<in> D. h_Host h \<noteq> '''')
      \<and> (\<forall>k. k \<noteq> '''' \<longrightarrow> (\<forall>h \<in> D. h_Host h \<noteq> k) \<longrightarrow> lookup k s1 = lookup k s)" for D s1
  have "I ({} \<union> set hosts) s'"
  proof (rule forE_Ok_induct [OF run])
    show "I {} s" using ok by (simp add: I_def)
    fix h D s1 s2
    assume "h \<in> set hosts" and I: "I D s1" and "wrapW msg (appendDNSRecord r t h) s1 = (Ok (), s2)"
    then have step: "appendDNSRecord r t h s1 = (Ok (), s2)" and h: "h_Host h \<noteq> ''''"
      using named by (auto simp: ok_simps)
    from I have "zone_ok (zone (world s1))" by (simp add: I_def)
    note eff = appendDNS_effect [OF doc mgr this step h]
    have "points_to (lookup (h_Host x) s2) t" if "x \<in> insert h D" for x
      using that eff(1) eff(3) [of "h_Host x"] I by (cases "h_Host x = h_Host h") (auto simp: I_def)
    with eff I h show "I (insert h D) s2" unfolding I_def by auto
  qed
  then show "\<forall>h \<in> set hosts. points_to (lookup (h_Host h) s') t" and "zone_ok (zone (world s'))"
    and "k \<noteq> '''' \<Longrightarrow> \<forall>h \<in> set hosts. h_Host h \<noteq> k \<Longrightarrow> lookup k s' = lookup k s"
    by (auto simp: I_def)
qed

lemma removeDNS_effect:
  assumes doc: documented and mgr: "r_Manager r = mgr" and ok: "zone_ok (zone (world s))"
    and run: "removeDNSRecord r t h s = (Ok (), s')" and h: "h_Host h \<noteq> ''''"
  shows "sole_cname (h_Host h) (zone (world s)) \<Longrightarrow> lookup (h_Host h) s' = zero_DNSRecord"
    and "zone_ok (zone (world s'))"
    and "sole_cname j (zone (world s)) \<Longrightarrow> sole_cname j (zone (world s'))"
    and "k \<noteq> '''' \<Longrightarrow> k \<noteq> h_Host h \<Longrightarrow> lookup k s' = lookup k s"
proof -
  let ?s = "s\<lparr>trace := trace s @ [Lock]\<rparr>" and ?z = "zone (world s)"
  from run obtain d s1 s2 where get: "call_GetDNS r t (h_Host h) ?s = (Ok d, s1)"
    and k: "(if rec_ID d = '''' then retE ()
       else wrapV ''failed to delete DNS record'' (call_DeleteDNS r t (rec_ID d))) s1 = (Ok (), s2)"
    and s': "world s' = world s2"
    by (auto simp: removeDNSRecord_def ok_simps)
  from GetDNS_Ok [OF doc mgr get] have d: "d = first_cname (h_Host h) ?z" and z1: "zone (world s1) = ?z"
    by (simp_all add: lookup_def)
  have "(sole_cname (h_Host h) ?z \<longrightarrow> first_cname (h_Host h) (zone (world s2)) = zero_DNSRecord) \<and>
    zone_ok (zone (world s2)) \<and> (sole_cname j ?z \<longrightarrow> sole_cname j (zone (world s2))) \<and>
    (k \<noteq> '''' \<longrightarrow> k \<noteq> h_Host h \<longrightarrow> first_cname k (zone (world s2)) = first_cname k ?z)"
  proof (cases "rec_ID d = ''''")
    case True
    with k have "s2 = s1" by (simp add: ok_simps)
    moreover have "first_cname (h_Host h) ?z = zero_DNSRecord"
      using True d first_cname_id [OF ok, of "h_Host h"] by blast
    ultimately show ?thesis using z1 ok by simp
  next
    case False
    with k mgr have "m_DeleteDNS mgr t (rec_ID d) (world s1) = (Ok (), world s2)"
      by (auto simp: ok_simps)
    from delete_dns [OF doc this] z1
    have z2: "zone (world s2) = filter (\<lambda>r. rec_ID r \<noteq> rec_ID d) ?z" by simp
    show ?thesis
      using first_cname_delete [OF ok False [unfolded d] h z2 [unfolded d]] by blast
  qed
  then show "sole_cname (h_Host h) (zone (world s)) \<Longrightarrow> lookup (h_Host h) s' = zero_DNSRecord"
    and "zone_ok (zone (world s'))"
    and "sole_cname j (zone (world s)) \<Longrightarrow> sole_cname j (zone (world s'))"
    and "k \<noteq> '''' \<Longrightarrow> k \<noteq> h_Host h \<Longrightarrow> lookup k s' = lookup k s"
    by (simp_all add: lookup_def s')
qed

lemma removeDNS_loop:
  assumes doc: documented and mgr: "r_Manager r = mgr" and ok: "zone_ok (zone (world s))"
    and run: "forE hosts (\<lambda>h. wrapW msg (removeDNSRecord r t h)) s = (Ok (), s')"
    and named: "\<forall>h \<in> set hosts. h_Host h \<noteq> ''''"
    and sole: "\<And>h. h \<in> set hosts \<Longrightarrow> sole_cname (h_Host h) (zone (world s))"
  shows "\<forall>h \<in> set hosts. lookup (h_Host h) s' = zero_DNSRecord" and "zone_ok (zone (world s'))"
    and "k \<noteq> '''' \<Longrightarrow> \<forall>h \<in> set hosts. h_Host h \<noteq> k \<Longrightarrow> lookup k s' = lookup k s"
proof -
  define I :: "host set \<Rightarrow> 's state \<Rightarrow> bool" where "I D s1 \<longleftrightarrow> zone_ok (zone (world s1)) \<and> (\<forall>h \<in> D. lookup (h_Host h) s1 = zero_DNSRecord)
      \<and> (\<forall>h \<in> set hosts. sole_cname (h_Host h) (zone (world s1)))
      \<and> (\<forall>h \<in> D. h_Host h \<noteq> '''')
      \<and> (\<forall>k. k \<noteq> '''' \<longrightarrow> (\<forall>h \<in> D. h_Host h \<noteq> k) \<longrightarrow> lookup k s1 = lookup k s)" for D s1
  have "I ({} \<union> set hosts) s'"
  proof (rule forE_Ok_induct [OF run])
    show "I {} s" using ok sole by (simp add: I_def)
    fix h D s1 s2
    assume mem: "h \<in> set hosts" and I: "I D s1" and "wrapW msg (removeDNSRecord r t h) s1 = (Ok (), s2)"
    then have step: "removeDNSRecord r t h s1 = (Ok (), s2)" and h: "h_Host h \<noteq> ''''"
      using named by (auto simp: ok_simps)
    from I have "zone_ok (zone (world s1))" by (simp add: I_def)
    note eff = removeDNS_effect [OF doc mgr this step h]
    have "lookup (h_Host x) s2 = zero_DNSRecord" if "x \<in> insert h D" for x
      using that mem eff(1) eff(4) [of "h_Host x"] I
      by (cases "h_Host x = h_Host h") (auto simp: I_def)
    with eff I h show "I (insert h D) s2" unfolding I_def by auto
  qed
  then show "\<forall>h \<in> set hosts. lookup (h_Host h) s' = zero_DNSRecord" and "zone_ok (zone (world s'))"
    and "k \<noteq> '''' \<Longrightarrow> \<forall>h \<in> set hosts. h_Host h \<noteq> k \<Longrightarrow> lookup k s' = lookup k s"
    by (auto simp: I_def)
qed

end


section \<open>Published and withdrawn hosts\<close>

text \<open>
  A host is published when the tunnel's rule for it leads to the endpoint and its DNS record
  is an alias of the tunnel; it is withdrawn when it has neither.
\<close>

definition published :: "CloudflareTunnelSettings \<Rightarrow> Addr \<Rightarrow> string \<Rightarrow> host list \<Rightarrow>
    TunnelConfiguration \<Rightarrow> DNSRecord list \<Rightarrow> bool" where
  "published ts ip t hosts config zone \<longleftrightarrow> (\<forall>h \<in> set hosts.
     rule_table (tc_Ingress config) (h_Host h) = Some (host_rule ts ip h) \<and>
     points_to (first_cname (h_Host h) zone) t)"

definition withdrawn :: "host list \<Rightarrow> TunnelConfiguration \<Rightarrow> DNSRecord list \<Rightarrow> bool" where
  "withdrawn hosts config zone \<longleftrightarrow> (\<forall>h \<in> set hosts.
     rule_table (tc_Ingress config) (h_Host h) = None \<and> first_cname (h_Host h) zone = zero_DNSRecord)"

text \<open>
  Nothing else changes: a host name outside the list keeps its DNS record, and its rule up to
  the origin settings, which are rewritten for every rule.
\<close>

definition others_kept :: "CloudflareTunnelSettings \<Rightarrow> host list \<Rightarrow> TunnelConfiguration \<Rightarrow> TunnelConfiguration \<Rightarrow>
    DNSRecord list \<Rightarrow> DNSRecord list \<Rightarrow> bool" where
  "others_kept ts hosts config config' zone zone' \<longleftrightarrow> (\<forall>k. k \<noteq> '''' \<and> k \<notin> h_Host ` set hosts \<longrightarrow>
     rule_table (tc_Ingress config') k = map_option (restamp ts) (rule_table (tc_Ingress config) k) \<and>
     first_cname k zone' = first_cname k zone)"

lemma find_same_host:
  assumes "h \<in> set hosts" and "\<And>x y. x \<in> set hosts \<Longrightarrow> y \<in> set hosts \<Longrightarrow> h_Host x = h_Host y \<Longrightarrow> x = y"
  shows "find (\<lambda>x. h_Host x = h_Host h) (rev hosts) = Some h"
proof (cases "find (\<lambda>x. h_Host x = h_Host h) (rev hosts)")
  case None
  with assms(1) show ?thesis by (auto simp: find_None_iff)
next
  case (Some x)
  with find_SomeD [OF Some] assms show ?thesis by auto
qed

lemma getHosts_unique: "x \<in> set (getHosts ing) \<Longrightarrow> y \<in> set (getHosts ing) \<Longrightarrow> h_Host x = h_Host y \<Longrightarrow> x = y"
  by (auto simp: getHosts_def Let_def)

context cloudflare_view
begin

lemma appendConfig_effect:
  assumes documented and "r_Manager r = mgr"
    and "appendCloudflareTunnelConfig r t hosts ip ts s = (Ok (), s')"
  shows "config_of (world s') =
      (config_of (world s))(t := appended_config (r_MapValues r) ts ip hosts (config_of (world s) t))"
    and "zone (world s') = zone (world s)"
  using assms(3)
  by (auto simp: appendCloudflareTunnelConfig_def ok_simps
      dest!: get_config [OF assms(1), folded assms(2)] update_config [OF assms(1), folded assms(2)])

lemma removeConfig_effect:
  assumes documented and "r_Manager r = mgr"
    and "removeCloudflareTunnelConfig r t hosts ts s = (Ok (), s')"
  shows "config_of (world s') =
      (config_of (world s))(t := removed_config (r_MapValues r) ts hosts (config_of (world s) t))"
    and "zone (world s') = zone (world s)"
  using assms(3)
  by (auto simp: removeCloudflareTunnelConfig_def ok_simps
      dest!: get_config [OF assms(1), folded assms(2)] update_config [OF assms(1), folded assms(2)])

lemma appendDNS_config:
  assumes documented and "r_Manager r = mgr" and "appendDNSRecord r t h s = (Ok (), s')"
  shows "config_of (world s') = config_of (world s)"
  using assms(3)
  by (auto simp: appendDNSRecord_def ok_simps split: if_splits dest!: dns_keeps_config [OF assms(1), folded assms(2)])

lemma removeDNS_config:
  assumes documented and "r_Manager r = mgr" and "removeDNSRecord r t h s = (Ok (), s')"
  shows "config_of (world s') = config_of (world s)"
  using assms(3)
  by (auto simp: removeDNSRecord_def ok_simps split: if_splits dest!: dns_keeps_config [OF assms(1), folded assms(2)])

lemma forE_config:
  assumes "forE xs body s = (Ok (), s')"
    and "\<And>x s s'. body x s = (Ok (), s') \<Longrightarrow> config_of (world s') = config_of (world s)"
  shows "config_of (world s') = config_of (world s)"
  using forE_Ok_induct [OF assms(1), where D = "{}" and I = "\<lambda>_ s1. config_of (world s1) = config_of (world s)"]
    assms(2) by force

lemma append_effect:
  assumes doc: documented and mgr: "r_Manager r = mgr" and mv: "enumerates (r_MapValues r)"
    and ok: "zone_ok (zone (world s))" and named: "\<forall>h \<in> set (getHosts ing). h_Host h \<noteq> ''''"
    and c: "appendCloudflareTunnelConfig r t (getHosts ing) ip ts s = (Ok (), s1)"
    and d: "forE (getHosts ing) (\<lambda>h. wrapW msg (appendDNSRecord r t h)) s1 = (Ok (), s')"
  shows "published ts ip t (getHosts ing) (config_of (world s') t) (zone (world s'))"
    and "others_kept ts (getHosts ing) (config_of (world s) t) (config_of (world s') t)
      (zone (world s)) (zone (world s'))"
proof -
  note cfg = appendConfig_effect [OF doc mgr c]
  have "config_of (world s') = config_of (world s1)"
    by (rule forE_config [OF d]) (auto simp: ok_simps dest!: appendDNS_config [OF doc mgr])
  with cfg(1) have table: "rule_table (tc_Ingress (config_of (world s') t)) =
      spec_append ts ip (getHosts ing) (rule_table (tc_Ingress (config_of (world s) t)))"
    by (simp add: table_appended [OF mv])
  note dns = appendDNS_loop [OF doc mgr _ d named, unfolded cfg(2), OF ok]
  show "published ts ip t (getHosts ing) (config_of (world s') t) (zone (world s'))"
    unfolding published_def table using named dns(1) find_same_host [OF _ getHosts_unique]
    by (auto simp: spec_append_def lookup_def)
  show "others_kept ts (getHosts ing) (config_of (world s) t) (config_of (world s') t)
      (zone (world s)) (zone (world s'))"
    unfolding others_kept_def
  proof (intro allI impI)
    fix k assume k: "k \<noteq> '''' \<and> k \<notin> h_Host ` set (getHosts ing)"
    then have "lookup k s' = lookup k s1" by (intro dns(3)) auto
    with k cfg(2) show "rule_table (tc_Ingress (config_of (world s') t)) k =
        map_option (restamp ts) (rule_table (tc_Ingress (config_of (world s) t)) k) \<and>
        first_cname k (zone (world s')) = first_cname k (zone (world s))"
      unfolding table using find_host_None [of k "getHosts ing"] by (auto simp: spec_append_def lookup_def)
  qed
qed

lemma remove_effect:
  assumes doc: documented and mgr: "r_Manager r = mgr" and mv: "enumerates (r_MapValues r)"
    and ok: "zone_ok (zone (world s))" and named: "\<forall>h \<in> set hosts. h_Host h \<noteq> ''''"
    and sole: "\<And>h. h \<in> set hosts \<Longrightarrow> sole_cname (h_Host h) (zone (world s))"
    and c: "removeCloudflareTunnelConfig r t hosts ts s = (Ok (), s1)"
    and d: "forE hosts (\<lambda>h. wrapW msg (removeDNSRecord r t h)) s1 = (Ok (), s')"
  shows "withdrawn hosts (config_of (world s') t) (zone (world s'))"
    and "others_kept ts hosts (config_of (world s) t) (config_of (world s') t) (zone (world s)) (zone (world s'))"
proof -
  note cfg = removeConfig_effect [OF doc mgr c]
  have "config_of (world s') = config_of (world s1)"
    by (rule forE_config [OF d]) (auto simp: ok_simps dest!: removeDNS_config [OF doc mgr])
  with cfg(1) have table: "rule_table (tc_Ingress (config_of (world s') t)) =
      spec_remove ts hosts (rule_table (tc_Ingress (config_of (world s) t)))"
    by (simp add: table_removed [OF mv])
  note dns = removeDNS_loop [OF doc mgr _ d named, unfolded cfg(2), OF ok sole]
  show "withdrawn hosts (config_of (world s') t) (zone (world s'))"
    unfolding withdrawn_def table using named dns(1) by (auto simp: spec_remove_def lookup_def)
  show "others_kept ts hosts (config_of (world s) t) (config_of (world s') t) (zone (world s)) (zone (world s'))"
    unfolding others_kept_def
  proof (intro allI impI)
    fix k assume k: "k \<noteq> '''' \<and> k \<notin> h_Host ` set hosts"
    then have "lookup k s' = lookup k s1" by (intro dns(3)) auto
    with k cfg(2) show "rule_table (tc_Ingress (config_of (world s') t)) k =
        map_option (restamp ts) (rule_table (tc_Ingress (config_of (world s) t)) k) \<and>
        first_cname k (zone (world s')) = first_cname k (zone (world s))"
      unfolding table by (auto simp: spec_remove_def lookup_def)
  qed
qed

text \<open>The same for a whole synchronisation and a whole finalization, on the tunnel they found.\<close>

lemma sync_publishes:
  assumes doc: documented and mgr: "r_Manager r = mgr" and mv: "enumerates (r_MapValues r)"
    and name: "detectCloudflareTunnelName (om_Annotations (ing_Meta ing)) = Ok n"
    and cf: "getCloudflareTunnel r n s = (Ok cf, s0)"
    and ok: "zone_ok (zone (world s0))" and named: "'''' \<notin> set (ing_Rules ing)"
    and shown: "\<not> checkToBeIgnored (om_Annotations (ing_Meta ing))"
    and run: "ingress_sync r ing s = (Ok res, s')"
  shows "\<exists>ip. ParseAddr (ing_LoadBalancerIPs ing ! 0) = Ok ip \<and>
      published (spec_Settings (cft_Spec cf)) ip (cft_TunnelID cf) (getHosts ing)
        (config_of (world s') (cft_TunnelID cf)) (zone (world s'))"
    and "others_kept (spec_Settings (cft_Spec cf)) (getHosts ing) (config_of (world s0) (cft_TunnelID cf))
      (config_of (world s') (cft_TunnelID cf)) (zone (world s0)) (zone (world s'))"
proof -
  have hosts: "\<forall>h \<in> set (getHosts ing). h_Host h \<noteq> ''''"
    using named by (metis getHosts_names imageI list.set_map)
  from run name cf shown obtain ip s1 where
    ip: "ParseAddr (ing_LoadBalancerIPs ing ! 0) = Ok ip"
    and c: "appendCloudflareTunnelConfig r (cft_TunnelID cf) (getHosts ing) ip
      (spec_Settings (cft_Spec cf)) s0 = (Ok (), s1)"
    and d: "forE (getHosts ing) (\<lambda>h. wrapW ''failed to update Cloudflare DNS Record''
      (appendDNSRecord r (cft_TunnelID cf) h)) s1 = (Ok (), s')"
    by (auto simp: ingress_sync_def ok_simps Let_def split: if_splits)
  from append_effect [OF doc mgr mv ok hosts c d] ip
  show "\<exists>ip. ParseAddr (ing_LoadBalancerIPs ing ! 0) = Ok ip \<and>
      published (spec_Settings (cft_Spec cf)) ip (cft_TunnelID cf) (getHosts ing)
        (config_of (world s') (cft_TunnelID cf)) (zone (world s'))"
    and "others_kept (spec_Settings (cft_Spec cf)) (getHosts ing) (config_of (world s0) (cft_TunnelID cf))
      (config_of (world s') (cft_TunnelID cf)) (zone (world s0)) (zone (world s'))" by blast+
qed

text \<open>
  A second synchronisation, on a zone and configurations as the first one left them, leaves both
  as they are.
\<close>

lemma sync_fixpoint:
  assumes doc: documented and mgr: "r_Manager r = mgr" and mv: "enumerates (r_MapValues r)"
    and name: "detectCloudflareTunnelName (om_Annotations (ing_Meta ing)) = Ok n"
    and cf: "getCloudflareTunnel r n s = (Ok cf, s0)"
    and ok: "zone_ok (zone (world s0))" and named: "'''' \<notin> set (ing_Rules ing)"
    and shown: "\<not> checkToBeIgnored (om_Annotations (ing_Meta ing))"
    and run: "ingress_sync r ing s = (Ok res, s1)"
    and again: "getCloudflareTunnel r n t = (Ok cf, t0)"
    and same: "zone (world t0) = zone (world s1)" "config_of (world t0) = config_of (world s1)"
    and rerun: "ingress_sync r ing t = (Ok res', t1)"
  shows "zone (world t1) = zone (world s1)" and "config_of (world t1) = config_of (world s1)"
proof -
  let ?t = "cft_TunnelID cf" and ?ts = "spec_Settings (cft_Spec cf)" and ?hs = "getHosts ing"
  from run name cf shown obtain ip s2 where
    ip: "ParseAddr (ing_LoadBalancerIPs ing ! 0) = Ok ip"
    and c: "appendCloudflareTunnelConfig r ?t ?hs ip ?ts s0 = (Ok (), s2)"
    and d: "forE ?hs (\<lambda>h. wrapW ''failed to update Cloudflare DNS Record'' (appendDNSRecord r ?t h)) s2 = (Ok (), s1)"
    by (auto simp: ingress_sync_def ok_simps Let_def split: if_splits)
  from rerun name again shown ip obtain t2 where
    c': "appendCloudflareTunnelConfig r ?t ?hs ip ?ts t0 = (Ok (), t2)"
    and d': "forE ?hs (\<lambda>h. wrapW ''failed to update Cloudflare DNS Record'' (appendDNSRecord r ?t h)) t2 = (Ok (), t1)"
    by (auto simp: ingress_sync_def ok_simps Let_def split: if_splits)
  note cfg = appendConfig_effect [OF doc mgr c] and cfg' = appendConfig_effect [OF doc mgr c']
  have after: "config_of (world s1) = config_of (world s2)" "config_of (world t1) = config_of (world t2)"
    by (rule forE_config [OF d] forE_config [OF d'], auto simp: ok_simps dest!: appendDNS_config [OF doc mgr])+
  have "config_of (world t2) = config_of (world s1)"
    unfolding cfg' same after cfg(1) by (simp add: appended_config_idem [OF mv])
  then show "config_of (world t1) = config_of (world s1)" by (simp add: after)
  from sync_publishes(1) [OF doc mgr mv name cf ok named shown run]
  have "\<forall>h \<in> set ?hs. points_to (lookup (h_Host h) t2) ?t"
    by (auto simp: published_def lookup_def cfg'(2) same)
  from appendDNS_loop_noop [OF doc mgr d' this] show "zone (world t1) = zone (world s1)"
    by (simp add: cfg'(2) same)
qed

lemma finalize_withdraws:
  assumes doc: documented and mgr: "r_Manager r = mgr" and mv: "enumerates (r_MapValues r)"
    and name: "detectCloudflareTunnelName (om_Annotations (ing_Meta ing)) = Ok n"
    and cf: "getCloudflareTunnel r n s = (Ok cf, s0)" and live: "om_DeletionTimestamp (cft_Meta cf) = None"
    and ok: "zone_ok (zone (world s0))" and named: "'''' \<notin> set (ing_Rules ing)"
    and sole: "\<And>h. h \<in> set (ing_Rules ing) \<Longrightarrow> sole_cname h (zone (world s0))"
    and run: "finalizeIngress r ing s = (Ok (), s')"
  shows "withdrawn (getHosts ing) (config_of (world s') (cft_TunnelID cf)) (zone (world s'))"
    and "others_kept (spec_Settings (cft_Spec cf)) (getHosts ing) (config_of (world s0) (cft_TunnelID cf))
      (config_of (world s') (cft_TunnelID cf)) (zone (world s0)) (zone (world s'))"
proof -
  have hosts: "\<forall>h \<in> set (getHosts ing). h_Host h \<noteq> ''''"
    and sole': "h \<in> set (getHosts ing) \<Longrightarrow> sole_cname (h_Host h) (zone (world s0))" for h
    using named sole by (metis getHosts_names imageI list.set_map)+
  from run name cf live obtain s1 where
    c: "removeCloudflareTunnelConfig r (cft_TunnelID cf) (getHosts ing)
      (spec_Settings (cft_Spec cf)) s0 = (Ok (), s1)"
    and d: "forE (getHosts ing) (\<lambda>h. wrapW ''failed to delete Cloudflare Tunnel''
      (removeDNSRecord r (cft_TunnelID cf) h)) s1 = (Ok (), s')"
    by (auto simp: finalizeIngress_def ok_simps Let_def split: if_splits)
  from remove_effect [OF doc mgr mv ok hosts sole' c d]
  show "withdrawn (getHosts ing) (config_of (world s') (cft_TunnelID cf)) (zone (world s'))"
    and "others_kept (spec_Settings (cft_Spec cf)) (getHosts ing) (config_of (world s0) (cft_TunnelID cf))
      (config_of (world s') (cft_TunnelID cf)) (zone (world s0)) (zone (world s'))" by blast+
qed

end


context dns_manager
begin

text \<open>A host that is published already costs one lookup and no write.\<close>

lemma appendDNS_settled:
  assumes doc: documented and mgr: "r_Manager r = mgr" and healthy: "points_to (lookup (h_Host h) s) t"
  shows "\<exists>reply. events_of (appendDNSRecord r t h) s = [Lock, M_GetDNS t (h_Host h) reply, Unlock]"
proof -
  let ?s = "s\<lparr>trace := trace s @ [Lock]\<rparr>"
  have [simp]: "first_cname k (zone (world ?s)) = lookup k s" for k by (simp add: lookup_def)
  obtain reply w where get: "m_GetDNS mgr t (h_Host h) (world s) = (reply, w)" by fastforce
  then have "Healthy d t = Ok True \<and> rec_ID d \<noteq> ''''" if "reply = Ok d" for d
    using get_dns [OF doc, of t "h_Host h" "world s" d w] that healthy
    by (simp add: lookup_def Healthy_True_iff points_to_def)
  then have "trace (snd (appendDNSRecord r t h s)) = trace s @ [Lock, M_GetDNS t (h_Host h) reply, Unlock]"
    using get mgr
    by (cases reply)
      (auto simp: appendDNSRecord_def with_lock_def io_defs liftO_def logged_def split: outcome.splits)
  then show ?thesis by (auto simp: events_of_def)
qed

text \<open>
  A rule without a host: the lookup of the empty name finds the first CNAME record of the zone,
  whatever its name, and the update turns that record into an alias of the tunnel.
\<close>

lemma appendDNS_empty_host:
  assumes doc: documented and mgr: "r_Manager r = mgr" and host: "h_Host h = ''''"
    and d: "d = lookup '''' s" "rec_ID d \<noteq> ''''" "\<not> points_to d t"
    and run: "appendDNSRecord r t h s = (Ok (), s')"
  shows "\<exists>d' \<in> set (zone (world s')). rec_ID d' = rec_ID d \<and> rec_Name d' = '''' \<and>
    rec_Content d' = tunnel_target t"
proof -
  let ?s = "s\<lparr>trace := trace s @ [Lock]\<rparr>"
  have [simp]: "lookup k ?s = lookup k s" for k by (simp add: lookup_def)
  from run obtain d1 s1 s2 where get: "call_GetDNS r t (h_Host h) ?s = (Ok d1, s1)"
    and k: "(if rec_ID d1 = '''' then wrapV ''failed to add DNS record'' (call_AddDNS r t (h_Host h))
       else bindE (liftO (Healthy d1 t)) (\<lambda>healthy. if \<not> healthy
         then wrapV ''failed to update DNS record'' (call_UpdateDNS r t (h_Host h) d1) else retE ())) s1
      = (Ok (), s2)" and s': "world s' = world s2"
    by (auto simp: appendDNSRecord_def ok_simps)
  from GetDNS_Ok [OF doc mgr get] d host have d1: "d1 = d" and z1: "zone (world s1) = zone (world s)" by simp_all
  from d d1 have "Healthy d1 t \<noteq> Ok True" by (simp add: Healthy_True_iff)
  with k d d1 mgr host have "m_UpdateDNS mgr t '''' d (world s1) = (Ok (), world s2)"
    by (auto simp: ok_simps split: if_splits)
  from update_dns [OF doc this] obtain f where
    z2: "zone (world s2) = map (\<lambda>r. if rec_ID r = rec_ID d then f r else r) (zone (world s1))"
    and f: "\<And>r. repoint t '''' r (f r)" by blast
  have "d \<noteq> zero_DNSRecord" using d(2) by (auto simp: zero_DNSRecord_def)
  then have "d \<in> set (zone (world s1))"
    using d(1) first_cname_in [of "''''" "zone (world s)"] z1 by (simp add: lookup_def)
  then have "f d \<in> set (zone (world s2))" unfolding z2 by force
  with f [of d] show ?thesis unfolding s' by (auto simp: repoint_def intro!: bexI [of _ "f d"])
qed

end

end
