(* ===== verification/Desired.thy ===== *)
theory Desired
  imports Kubernetes
begin

text \<open>
  The objects \<^verbatim>\<open>internal/controller/cloudflaretunnel_controller.go\<close> wants in the cluster for a
  tunnel, as functions of the custom resource: the server-side apply configurations of the
  secret, the deployment and the service, and the mutations passed to
  \<^verbatim>\<open>ctrl.CreateOrUpdate\<close> for the service monitor and the disruption budget. The typed
  builders of \<^verbatim>\<open>client-go\<close> (\<^verbatim>\<open>WithName\<close> and so on) set the field they name.
\<close>

section \<open>Names, labels and the owner\<close>

definition appName :: string where "appName = ''cloudflared''"
definition managerName :: string where "managerName = ''cloudflare-tunnel-operator''"
definition MetricsPort :: nat where "MetricsPort = 60123"
definition tunnelTokenKey :: string where "tunnelTokenKey = ''cloudflared-tunnel-token''"
definition cloudflaredImage :: string where "cloudflaredImage = ''cloudflare/cloudflared:2025.11.1''"

definition appLabels :: "CloudflareTunnel \<Rightarrow> (string \<rightharpoonup> string)" where
  "appLabels cf = [
     ''app.kubernetes.io/name'' \<mapsto> appName,
     ''app.kubernetes.io/instance'' \<mapsto> cft_Name cf,
     ''app.kubernetes.io/created-by'' \<mapsto> managerName]"

definition controllerReference :: "k8s_lib \<Rightarrow> CloudflareTunnel \<Rightarrow> OwnerReferenceApply outcome" where
  "controllerReference lib cf = (case GVKForObject lib cf of
      Err e \<Rightarrow> Err e
    | Panic p \<Rightarrow> Panic p
    | Ok (gv, kind) \<Rightarrow> Ok \<lparr>or_APIVersion = gv, or_Kind = kind, or_Name = cft_Name cf,
        or_UID = om_UID (cft_Meta cf), or_BlockOwnerDeletion = True, or_Controller = True\<rparr>)"

section \<open>The secret\<close>

definition desired_secret :: "CloudflareTunnel \<Rightarrow> OwnerReferenceApply \<Rightarrow> CloudflareTunnelToken \<Rightarrow> SecretApply" where
  "desired_secret cf owner token = \<lparr>sa_Name = cft_Name cf, sa_Namespace = cft_Namespace cf,
     sa_Labels = appLabels cf, sa_OwnerReferences = [owner], sa_Data = [tunnelTokenKey \<mapsto> token]\<rparr>"

section \<open>The deployment\<close>

definition token_env :: "NamespacedName \<Rightarrow> EnvVarApply" where
  "token_env secretName = \<lparr>env_Name = Some ''TUNNEL_TOKEN'', env_Value = None,
     env_SecretKeyRef = Some \<lparr>sks_Name = nn_Name secretName, sks_Key = tunnelTokenKey\<rparr>, env_Rest = []\<rparr>"

definition deployment_envs :: "CloudflareTunnel \<Rightarrow> NamespacedName \<Rightarrow> EnvVarApply list" where
  "deployment_envs cf secretName = token_env secretName # spec_ExtraEnv (cft_Spec cf)"

text \<open>Only cpu and memory are passed on; a missing one becomes the zero quantity.\<close>

definition quantity_or_zero :: "ResourceList \<Rightarrow> string \<Rightarrow> Quantity" where
  "quantity_or_zero rl name = (case rl name of None \<Rightarrow> QuantityZero | Some q \<Rightarrow> q)"

definition cpu_and_memory :: "ResourceList \<Rightarrow> ResourceList" where
  "cpu_and_memory rl = [''cpu'' \<mapsto> quantity_or_zero rl ''cpu'', ''memory'' \<mapsto> quantity_or_zero rl ''memory'']"

definition deployment_resources :: "CloudflareTunnel \<Rightarrow> ResourceRequirements" where
  "deployment_resources cf = (let res = spec_Resources (cft_Spec cf) in
     \<lparr>rr_Limits = map_option cpu_and_memory (rr_Limits res),
      rr_Requests = map_option cpu_and_memory (rr_Requests res)\<rparr>)"

definition default_spread :: "CloudflareTunnel \<Rightarrow> TopologySpreadConstraintApply" where
  "default_spread cf = \<lparr>tsc_MaxSkew = Some 1, tsc_TopologyKey = Some ''kubernetes.io/hostname'',
     tsc_WhenUnsatisfiable = Some ''ScheduleAnyway'', tsc_MatchLabels = Some (appLabels cf),
     tsc_MatchLabelKeys = [''pod-template-hash''], tsc_Rest = []\<rparr>"

definition deployment_spread :: "CloudflareTunnel \<Rightarrow> TopologySpreadConstraintApply list" where
  "deployment_spread cf = (case spec_TopologySpreadConstraints (cft_Spec cf) of
      Some (c # cs) \<Rightarrow> c # cs
    | _ \<Rightarrow> [default_spread cf])"

definition deployment_image :: "CloudflareTunnel \<Rightarrow> string" where
  "deployment_image cf = (let image = spec_Image (cft_Spec cf) in
     if image = '''' then cloudflaredImage else image)"

text \<open>\<^verbatim>\<open>strconv.Itoa\<close> of a number that is not negative.\<close>

fun strconv_Itoa :: "nat \<Rightarrow> string" where
  "strconv_Itoa n = (if n < 10 then [''0123456789'' ! n]
     else strconv_Itoa (n div 10) @ [''0123456789'' ! (n mod 10)])"

declare strconv_Itoa.simps [simp del]

definition deployment_args :: "CloudflareTunnel \<Rightarrow> string list" where
  "deployment_args cf = (case spec_ArgsOverride (cft_Spec cf) of
      Some args \<Rightarrow> args
    | None \<Rightarrow> [''--no-autoupdate'', ''--metrics=0.0.0.0:'' @ strconv_Itoa MetricsPort, ''tunnel'', ''run''])"

definition deployment_pod_security :: "CloudflareTunnel \<Rightarrow> PodSecurityContextApply" where
  "deployment_pod_security cf = (case spec_PodSecurityContext (cft_Spec cf) of
      Some c \<Rightarrow> c
    | None \<Rightarrow> \<lparr>psc_Sysctls = [(''net.ipv4.ping_group_range'', ''0 2147483647'')], psc_Rest = []\<rparr>)"

definition deployment_security :: "CloudflareTunnel \<Rightarrow> SecurityContextApply" where
  "deployment_security cf = (case spec_SecurityContext (cft_Spec cf) of
      Some c \<Rightarrow> c
    | None \<Rightarrow> \<lparr>sc_ReadOnlyRootFilesystem = Some True, sc_Rest = []\<rparr>)"

definition desired_container :: "CloudflareTunnel \<Rightarrow> NamespacedName \<Rightarrow> ContainerApply" where
  "desired_container cf secretName = \<lparr>
     ca_Name = ''cloudflared'',
     ca_Image = deployment_image cf,
     ca_ImagePullPolicy = ''IfNotPresent'',
     ca_Args = deployment_args cf,
     ca_Env = deployment_envs cf secretName,
     ca_Ports = [\<lparr>cp_Name = ''metrics'', cp_Protocol = ''TCP'', cp_ContainerPort = of_nat MetricsPort\<rparr>],
     ca_Resources = deployment_resources cf,
     ca_SecurityContext = deployment_security cf,
     ca_LivenessProbe = \<lparr>pr_HTTPGetPath = ''/ready'', pr_HTTPGetPort = StrVal ''metrics'',
       pr_FailureThreshold = 1, pr_InitialDelaySeconds = 10, pr_PeriodSeconds = 10\<rparr>\<rparr>"

definition desired_deployment :: "CloudflareTunnel \<Rightarrow> OwnerReferenceApply \<Rightarrow> NamespacedName \<Rightarrow> DeploymentApply" where
  "desired_deployment cf owner secretName = (let labels = appLabels cf in \<lparr>
     da_Name = cft_Name cf,
     da_Namespace = cft_Namespace cf,
     da_Labels = labels,
     da_OwnerReferences = [owner],
     da_Replicas = spec_Replicas (cft_Spec cf),
     da_MatchLabels = labels,
     da_Template = \<lparr>
       pt_Labels = labels,
       pt_TopologySpreadConstraints = deployment_spread cf,
       pt_SecurityContext = deployment_pod_security cf,
       pt_ImagePullSecrets = spec_ImagePullSecrets (cft_Spec cf),
       pt_Containers = [desired_container cf secretName],
       pt_NodeSelector = spec_NodeSelector (cft_Spec cf),
       pt_Tolerations = spec_Tolerations (cft_Spec cf),
       pt_Affinity = spec_Affinity (cft_Spec cf)\<rparr>\<rparr>)"

section \<open>The service\<close>

definition desired_service :: "CloudflareTunnel \<Rightarrow> OwnerReferenceApply \<Rightarrow> ServiceApply" where
  "desired_service cf owner = (let labels = appLabels cf in \<lparr>
     sva_Name = cft_Name cf,
     sva_Namespace = cft_Namespace cf,
     sva_Labels = labels,
     sva_OwnerReferences = [owner],
     sva_Ports = [\<lparr>sp_Name = ''metrics'', sp_Protocol = ''TCP'', sp_Port = of_nat MetricsPort,
       sp_TargetPort = StrVal ''metrics''\<rparr>],
     sva_Selector = labels,
     sva_Type = ''ClusterIP''\<rparr>)"

section \<open>The service monitor\<close>

definition new_meta :: "CloudflareTunnel \<Rightarrow> ObjectMeta" where
  "new_meta cf = zero_meta\<lparr>om_Namespace := cft_Namespace cf, om_Name := cft_Name cf,
     om_Labels := Some (appLabels cf)\<rparr>"

definition new_service_monitor :: "CloudflareTunnel \<Rightarrow> ServiceMonitor" where
  "new_service_monitor cf = \<lparr>sm_Meta = new_meta cf, sm_MatchLabels = None, sm_Endpoints = None,
     sm_JobLabel = '''', sm_MatchNames = None, sm_Rest = JNull\<rparr>"

text \<open>
  \<^verbatim>\<open>if obj.CreationTimestamp.IsZero()\<close>: an object about to be created gets the tunnel as its
  controller.
\<close>

definition own_if_new :: "k8s_lib \<Rightarrow> CloudflareTunnel \<Rightarrow> ObjectMeta \<Rightarrow> ObjectMeta outcome" where
  "own_if_new lib cf m =
     (if om_CreationTimestamp m = None then SetControllerReference lib cf m else Ok m)"

definition mutate_service_monitor :: "k8s_lib \<Rightarrow> CloudflareTunnel \<Rightarrow> ServiceMonitor \<Rightarrow> ServiceMonitor outcome" where
  "mutate_service_monitor lib cf sm =
     (if om_DeletionTimestamp (sm_Meta sm) \<noteq> None then Ok sm
      else let sm = sm\<lparr>
          sm_MatchLabels := map_set_all (sm_MatchLabels sm) (appLabels cf),
          sm_Endpoints := Some [\<lparr>ep_Port = ''metrics'', ep_TargetPort = Some (StrVal ''metrics''),
            ep_Path = ''/metrics'', ep_HonorLabels = False\<rparr>],
          sm_JobLabel := appName,
          sm_MatchNames := Some [cft_Namespace cf]\<rparr> in
        (case own_if_new lib cf (sm_Meta sm) of
            Ok m \<Rightarrow> Ok (sm\<lparr>sm_Meta := m\<rparr>)
          | Err e \<Rightarrow> Err e
          | Panic p \<Rightarrow> Panic p))"

section \<open>The disruption budget\<close>

definition new_pdb :: "CloudflareTunnel \<Rightarrow> PodDisruptionBudget" where
  "new_pdb cf = \<lparr>pdb_Meta = new_meta cf, pdb_MinAvailable = None, pdb_MaxUnavailable = None,
     pdb_Selector = None, pdb_Rest = JNull\<rparr>"

definition override :: "'a option \<Rightarrow> 'a option \<Rightarrow> 'a option" where
  "override new old = (case new of None \<Rightarrow> old | Some x \<Rightarrow> Some x)"

definition mutate_pdb :: "k8s_lib \<Rightarrow> CloudflareTunnel \<Rightarrow> PDBSpec \<Rightarrow> PodDisruptionBudget \<Rightarrow> PodDisruptionBudget outcome" where
  "mutate_pdb lib cf spec pdb =
     (if om_DeletionTimestamp (pdb_Meta pdb) \<noteq> None then Ok pdb
      else let m = (pdb_Meta pdb)\<lparr>om_Labels := map_set_all (om_Labels (pdb_Meta pdb)) (appLabels cf)\<rparr>;
          pdb = pdb\<lparr>
            pdb_MinAvailable := override (pdbs_MinAvailable spec) (pdb_MinAvailable pdb),
            pdb_MaxUnavailable := override (pdbs_MaxUnavailable spec) (pdb_MaxUnavailable pdb),
            pdb_Selector := Some (appLabels cf)\<rparr> in
        (case own_if_new lib cf m of
            Ok m \<Rightarrow> Ok (pdb\<lparr>pdb_Meta := m\<rparr>)
          | Err e \<Rightarrow> Err e
          | Panic p \<Rightarrow> Panic p))"

section \<open>Lemmas\<close>

lemma metrics_arg: "''--metrics=0.0.0.0:'' @ strconv_Itoa MetricsPort = ''--metrics=0.0.0.0:60123''"
  by (simp add: MetricsPort_def strconv_Itoa.simps)

lemma appLabels_apply: "appLabels cf k = (if k = ''app.kubernetes.io/created-by'' then Some managerName
    else if k = ''app.kubernetes.io/instance'' then Some (cft_Name cf)
    else if k = ''app.kubernetes.io/name'' then Some appName else None)"
  by (simp add: appLabels_def)

text \<open>Two tunnels of a namespace never select each other's pods.\<close>

lemma appLabels_eq_iff: "appLabels a = appLabels b \<longleftrightarrow> cft_Name a = cft_Name b"
proof
  assume "appLabels a = appLabels b"
  then have "appLabels a ''app.kubernetes.io/instance'' = appLabels b ''app.kubernetes.io/instance''" by simp
  then show "cft_Name a = cft_Name b" by (simp add: appLabels_apply)
qed (simp add: appLabels_def)

text \<open>A label selector given as a map selects the objects that have all its labels.\<close>

definition selects :: "(string \<rightharpoonup> string) \<Rightarrow> (string \<rightharpoonup> string) \<Rightarrow> bool" where
  "selects selector labels \<longleftrightarrow> selector \<subseteq>\<^sub>m labels"

lemma selects_appLabels: "selects (appLabels a) (appLabels b) \<longleftrightarrow> cft_Name a = cft_Name b"
proof
  assume "selects (appLabels a) (appLabels b)"
  moreover have "appLabels a ''app.kubernetes.io/instance'' = Some (cft_Name a)"
    by (simp add: appLabels_apply)
  ultimately have "appLabels b ''app.kubernetes.io/instance'' = Some (cft_Name a)"
    unfolding selects_def map_le_def by force
  then show "cft_Name a = cft_Name b" by (simp add: appLabels_apply)
qed (simp add: selects_def appLabels_def)

lemma cpu_and_memory_dom: "dom (cpu_and_memory rl) = {''cpu'', ''memory''}"
  by (auto simp: cpu_and_memory_def)

lemma cpu_and_memory_kept: "rl name = Some q \<Longrightarrow> name \<in> {''cpu'', ''memory''} \<Longrightarrow>
    cpu_and_memory rl name = Some q"
  by (auto simp: cpu_and_memory_def quantity_or_zero_def)

lemma mutate_pdb_Ok:
  assumes "mutate_pdb lib cf spec pdb = Ok pdb'" and "om_DeletionTimestamp (pdb_Meta pdb) = None"
  shows "pdb_MinAvailable pdb' = override (pdbs_MinAvailable spec) (pdb_MinAvailable pdb)"
    and "pdb_MaxUnavailable pdb' = override (pdbs_MaxUnavailable spec) (pdb_MaxUnavailable pdb)"
    and "pdb_Selector pdb' = Some (appLabels cf)"
  using assms by (auto simp: mutate_pdb_def Let_def split: outcome.splits)

lemma mutate_service_monitor_Ok:
  assumes "mutate_service_monitor lib cf sm = Ok sm'" and "om_DeletionTimestamp (sm_Meta sm) = None"
  shows "sm_MatchLabels sm' = map_set_all (sm_MatchLabels sm) (appLabels cf)"
    and "sm_MatchNames sm' = Some [cft_Namespace cf]" and "sm_JobLabel sm' = appName"
    and "sm_Endpoints sm' = Some [\<lparr>ep_Port = ''metrics'', ep_TargetPort = Some (StrVal ''metrics''),
            ep_Path = ''/metrics'', ep_HonorLabels = False\<rparr>]"
  using assms by (auto simp: mutate_service_monitor_def Let_def split: outcome.splits)

end
