(* ===== verification/TunnelReconciler.thy ===== *)
theory TunnelReconciler
  imports Desired
begin

text \<open>
  The \<^verbatim>\<open>CloudflareTunnelReconciler\<close> of \<^verbatim>\<open>internal/controller/cloudflaretunnel_controller.go\<close>: the
  operations that call the API server and the tunnel manager, in the order the code calls
  them. Log lines are not modelled.
\<close>

section \<open>The tunnel\<close>

text \<open>
  \<^verbatim>\<open>reconcileTunnel\<close>. A secret that is not found leaves the variable at its zero value. In
  the branch with a tunnel ID and no token, an error that is \<^verbatim>\<open>ErrTunnelNotFound\<close> falls
  through to the creation.
\<close>

definition tunnel_name :: "CloudflareTunnel \<Rightarrow> string" where
  "tunnel_name cf = (let override = NameOverride (spec_Settings (cft_Spec cf)) in
     if override \<noteq> '''' then override else cft_Name cf)"

definition createTunnel :: "'w reconciler \<Rightarrow> string \<Rightarrow> ('w state, CFTunnel \<times> CloudflareTunnelToken) io" where
  "createTunnel r tunnelName =
     bindE (wrapW ''failed to create tunnel'' (call_CreateTunnel r tunnelName))
     (\<lambda>tunnel. bindE (wrapW ''failed to get tunnel token'' (call_GetTunnelToken r (cft_tunnel_ID tunnel)))
     (\<lambda>token. retE (tunnel, token)))"

definition reconcileTunnel ::
  "'w reconciler \<Rightarrow> CloudflareTunnel \<Rightarrow> ('w state, CFTunnel \<times> CloudflareTunnelToken) io" where
  "reconcileTunnel r cfTunnel =
     bindE (handle (Get_Secret r (cft_Key cfTunnel))
       (\<lambda>e. if \<not> IsNotFound e then throwE (Errorf_w ''failed to get secret'' e) else retE zero_secret)
       retE)
     (\<lambda>secret. let tunnelName = tunnel_name cfTunnel;
         token = map_index (secret_Data secret) tunnelTokenKey;
         tunnelID = cft_TunnelID cfTunnel;
         known = \<lparr>cft_tunnel_ID = tunnelID, cft_tunnel_Name = tunnelName\<rparr> in
       if tunnelID \<noteq> '''' then
         (if token \<noteq> '''' then retE (known, token)
          else handle (call_GetTunnelToken r tunnelID)
            (\<lambda>e. if \<not> errors_Is e ErrTunnelNotFound then throwE (Errorf_w ''failed to get tunnel'' e)
              else createTunnel r tunnelName)
            (\<lambda>token. retE (known, token)))
       else createTunnel r tunnelName)"

section \<open>Server-side apply\<close>

definition apply_options :: PatchOptions where
  "apply_options = \<lparr>po_FieldManager = managerName, po_Force = True\<rparr>"

text \<open>\<^verbatim>\<open>r.Get(...); if err != nil && !apierrors.IsNotFound(err)\<close>: not found leaves the zero value.\<close>

definition found_or :: "'a \<Rightarrow> string \<Rightarrow> ('w state, 'a) io \<Rightarrow> ('w state, 'a) io" where
  "found_or zero msg m = handle m
     (\<lambda>e. if \<not> IsNotFound e then throwE (Errorf_w msg e) else retE zero) retE"

text \<open>
  \<^verbatim>\<open>reconcileSecret\<close>. The object it reads back is declared as a service, so it is a service
  of the tunnel's name that is read and extracted.
\<close>

definition reconcileSecret ::
  "'w reconciler \<Rightarrow> CloudflareTunnel \<Rightarrow> CloudflareTunnelToken \<Rightarrow> ('w state, NamespacedName) io" where
  "reconcileSecret r cfTunnel token =
     bindE (wrapW ''failed to create controller reference'' (liftO (controllerReference (r_Lib r) cfTunnel)))
     (\<lambda>owner. let secret = AC_Secret (desired_secret cfTunnel owner token) in
     bindE (wrapW ''failed to convert secret to unstructured'' (liftO (ToUnstructured (r_Lib r) secret)))
     (\<lambda>patch. bindE (found_or zero_service ''failed to get secret'' (Get_Service r (cft_Key cfTunnel)))
     (\<lambda>current. bindE (wrapW ''failed to extract apply configuration from secret''
       (liftO (ExtractService (r_Lib r) current managerName)))
     (\<lambda>currentApplyConfig.
       if DeepEqual (r_Lib r) secret currentApplyConfig then retE (cft_Key cfTunnel)
       else bindE (wrapW ''failed to apply secret'' (Patch_Apply r patch apply_options))
         (\<lambda>_. retE (cft_Key cfTunnel))))))"

definition reconcileDeployment ::
  "'w reconciler \<Rightarrow> CloudflareTunnel \<Rightarrow> NamespacedName \<Rightarrow> ('w state, unit) io" where
  "reconcileDeployment r cfTunnel secretName =
     bindE (wrapW ''failed to create controller reference'' (liftO (controllerReference (r_Lib r) cfTunnel)))
     (\<lambda>owner. let deployment = AC_Deployment (desired_deployment cfTunnel owner secretName) in
     bindE (wrapW ''failed to convert deployment to unstructured'' (liftO (ToUnstructured (r_Lib r) deployment)))
     (\<lambda>patch. bindE (found_or zero_deployment ''failed to get deployment'' (Get_Deployment r (cft_Key cfTunnel)))
     (\<lambda>current. bindE (wrapW ''failed to extract apply configuration from deployment''
       (liftO (ExtractDeployment (r_Lib r) current managerName)))
     (\<lambda>currentApplyConfig.
       if DeepEqual (r_Lib r) deployment currentApplyConfig then retE ()
       else wrapW ''failed to apply deployment'' (Patch_Apply r patch apply_options)))))"

definition reconcileService :: "'w reconciler \<Rightarrow> CloudflareTunnel \<Rightarrow> ('w state, unit) io" where
  "reconcileService r cfTunnel =
     bindE (wrapW ''failed to create controller reference'' (liftO (controllerReference (r_Lib r) cfTunnel)))
     (\<lambda>owner. let service = AC_Service (desired_service cfTunnel owner) in
     bindE (wrapW ''failed to convert service to unstructured'' (liftO (ToUnstructured (r_Lib r) service)))
     (\<lambda>patch. bindE (found_or zero_service ''failed to get service'' (Get_Service r (cft_Key cfTunnel)))
     (\<lambda>current. bindE (wrapW ''failed to extract apply configuration from service''
       (liftO (ExtractService (r_Lib r) current managerName)))
     (\<lambda>currentApplyConfig.
       if DeepEqual (r_Lib r) service currentApplyConfig then retE ()
       else wrapW ''failed to apply service'' (Patch_Apply r patch apply_options)))))"

section \<open>Create or update\<close>

abbreviation CreateOrUpdate_ServiceMonitor where
  "CreateOrUpdate_ServiceMonitor r sm f \<equiv>
     logged (K_CreateOrUpdateServiceMonitor sm) (k_CreateOrUpdate_ServiceMonitor (r_Client r) sm f)"

abbreviation CreateOrUpdate_PDB where
  "CreateOrUpdate_PDB r pdb f \<equiv>
     logged (K_CreateOrUpdatePDB pdb) (k_CreateOrUpdate_PDB (r_Client r) pdb f)"

definition reconcileServiceMonitor :: "'w reconciler \<Rightarrow> CloudflareTunnel \<Rightarrow> ('w state, unit) io" where
  "reconcileServiceMonitor r cfTunnel =
     (if \<not> spec_EnableServiceMonitor (cft_Spec cfTunnel) then retE ()
      else bindE (CreateOrUpdate_ServiceMonitor r (new_service_monitor cfTunnel)
          (mutate_service_monitor (r_Lib r) cfTunnel))
        (\<lambda>result. retE ()))"

definition reconcilePDB :: "'w reconciler \<Rightarrow> CloudflareTunnel \<Rightarrow> ('w state, unit) io" where
  "reconcilePDB r cfTunnel = (case spec_PodDisruptionBudget (cft_Spec cfTunnel) of
      None \<Rightarrow> retE ()
    | Some spec \<Rightarrow> bindE (wrapW ''failed to create or update PDB''
        (CreateOrUpdate_PDB r (new_pdb cfTunnel) (mutate_pdb (r_Lib r) cfTunnel spec)))
        (\<lambda>result. retE ()))"

section \<open>The status\<close>

definition condition :: "string \<Rightarrow> string \<Rightarrow> string \<Rightarrow> string \<Rightarrow> Condition" where
  "condition t status reason message = \<lparr>cond_Type = t, cond_Status = status, cond_Reason = reason,
     cond_Message = message, cond_LastTransitionTime = None\<rparr>"

definition ready :: "k8s_lib \<Rightarrow> Condition list \<Rightarrow> Condition list" where
  "ready lib cs = SetStatusCondition lib
     (SetStatusCondition lib cs (condition TypeCloudflareTunnelAvailable ''True'' ''OK'' ''''))
     (condition TypeCloudflareTunnelDegraded ''False'' ''OK'' '''')"

definition degraded :: "k8s_lib \<Rightarrow> string \<Rightarrow> Condition list \<Rightarrow> Condition list" where
  "degraded lib message cs = SetStatusCondition lib
     (SetStatusCondition lib cs (condition TypeCloudflareTunnelDegraded ''True'' ''Reconciling'' message))
     (condition TypeCloudflareTunnelAvailable ''False'' ''Reconciling'' '''')"

text \<open>One of the three reads: a missing object degrades the conditions, another error returns.\<close>

definition check :: "k8s_lib \<Rightarrow> string \<Rightarrow> 'a \<Rightarrow> ('w state, 'a) io \<Rightarrow> Condition list \<Rightarrow>
    ('w state, 'a \<times> Condition list) io" where
  "check lib message zero m cs = handle m
     (\<lambda>e. if IsNotFound e then retE (zero, degraded lib message cs) else throwE e)
     (\<lambda>x. retE (x, cs))"

definition with_conditions :: "CloudflareTunnel \<Rightarrow> Condition list \<Rightarrow> CloudflareTunnel" where
  "with_conditions cf cs = cf\<lparr>cft_Status := (cft_Status cf)\<lparr>st_Conditions := cs\<rparr>\<rparr>"

text \<open>
  \<^verbatim>\<open>updateStatus\<close>; an error return carries the zero result. The function works on a copy of
  the tunnel, and no caller reads the tunnel afterwards, so the conditions set before the
  early return for an empty ID are lost.
\<close>

definition updateStatus :: "'w reconciler \<Rightarrow> CloudflareTunnel \<Rightarrow> ('w state, Result) io" where
  "updateStatus r cfTunnel =
     (let lib = r_Lib r; cs = ready lib (st_Conditions (cft_Status cfTunnel)); key = cft_Key cfTunnel in
     if cft_TunnelID cfTunnel = '''' then retE zero_Result
     else
     bindE (check lib ''Secret not found'' zero_secret (Get_Secret r key) cs)
     (\<lambda>(secret, cs).
     bindE (check lib ''Service not found'' zero_service (Get_Service r key) cs)
     (\<lambda>(svc, cs).
     bindE (check lib ''Deployment not found'' zero_deployment (Get_Deployment r key) cs)
     (\<lambda>(dep, cs).
       let unavailable = (dep_AvailableReplicas dep = 0);
           cs = (if unavailable then SetStatusCondition lib cs
             (condition TypeCloudflareTunnelAvailable ''False'' ''Unavailable'' ''AvailableReplicas is 0'')
             else cs) in
       bindE (StatusUpdate r (with_conditions cfTunnel cs))
       (\<lambda>_. retE (if unavailable then zero_Result\<lparr>res_Requeue := True\<rparr> else zero_Result))))))"

section \<open>Reconcile\<close>

text \<open>
  \<^verbatim>\<open>Reconcile\<close> may return a result and an error together, so both are its value. \<open>fail\<close> is
  the repeated \<^verbatim>\<open>result, err2 := r.updateStatus(ctx, cfTunnel); ...; return result, err\<close>, where
  \<^verbatim>\<open>err2\<close> is only logged.
\<close>

type_synonym returned = "Result \<times> go_error option"

definition fail :: "'w reconciler \<Rightarrow> CloudflareTunnel \<Rightarrow> go_error \<Rightarrow> ('w state, returned) io" where
  "fail r cfTunnel err = handle (updateStatus r cfTunnel)
     (\<lambda>err2. retE (zero_Result, Some err)) (\<lambda>result. retE (result, Some err))"

definition with_tunnel :: "CloudflareTunnel \<Rightarrow> CFTunnel \<Rightarrow> CloudflareTunnel" where
  "with_tunnel cf tunnel = cf\<lparr>cft_Status := (cft_Status cf)\<lparr>
     st_TunnelID := cft_tunnel_ID tunnel, st_TunnelName := cft_tunnel_Name tunnel\<rparr>\<rparr>"

text \<open>The deletion branch.\<close>

definition tunnel_release :: "'w reconciler \<Rightarrow> CloudflareTunnel \<Rightarrow> ('w state, returned) io" where
  "tunnel_release r cfTunnel =
     handle (call_DeleteAllDNS r (cft_TunnelID cfTunnel))
       (\<lambda>e. retE (zero_Result, Some (Errorf_w ''failed to delete CloudflareTunnel'' e)))
     (\<lambda>_. handle (call_DeleteTunnel r (cft_TunnelID cfTunnel))
       (\<lambda>e. retE (zero_Result, Some (Errorf_w ''failed to delete Cloudflare Tunnel'' e)))
     (\<lambda>_. handle (Update_CloudflareTunnel r
         (cfTunnel\<lparr>cft_Meta := RemoveFinalizer (r_Lib r) (cft_Meta cfTunnel) finalizerName\<rparr>))
       (\<lambda>e. retE (zero_Result, Some e))
     (\<lambda>_. retE (zero_Result, None))))"

text \<open>The steps after the status was written, and the steps from \<^verbatim>\<open>reconcileTunnel\<close> on.\<close>

definition tunnel_workloads ::
  "'w reconciler \<Rightarrow> CloudflareTunnel \<Rightarrow> NamespacedName \<Rightarrow> ('w state, returned) io" where
  "tunnel_workloads r cfTunnel secretName =
     handle (reconcileDeployment r cfTunnel secretName) (fail r cfTunnel)
     (\<lambda>_. handle (reconcileService r cfTunnel) (fail r cfTunnel)
     (\<lambda>_. handle (reconcileServiceMonitor r cfTunnel) (fail r cfTunnel)
     (\<lambda>_. handle (reconcilePDB r cfTunnel) (fail r cfTunnel)
     (\<lambda>_. handle (updateStatus r cfTunnel) (\<lambda>e. retE (zero_Result, Some e))
     (\<lambda>result. retE (result, None))))))"

definition tunnel_sync :: "'w reconciler \<Rightarrow> CloudflareTunnel \<Rightarrow> ('w state, returned) io" where
  "tunnel_sync r cfTunnel =
     handle (reconcileTunnel r cfTunnel) (fail r cfTunnel)
     (\<lambda>(tunnel, token). handle (reconcileSecret r cfTunnel token) (fail r cfTunnel)
     (\<lambda>secretName. handle (StatusUpdate r (with_tunnel cfTunnel tunnel))
       (\<lambda>e. retE (zero_Result, Some (Errorf_w ''failed to update CloudflareTunnel status'' e)))
     (\<lambda>cfTunnel. tunnel_workloads r cfTunnel secretName)))"

definition tunnel_Reconcile :: "'w reconciler \<Rightarrow> NamespacedName \<Rightarrow> ('w state, returned) io" where
  "tunnel_Reconcile r key =
     handle (Get_CloudflareTunnel r key)
       (\<lambda>e. if IsNotFound e then retE (zero_Result, None) else retE (zero_Result, Some e))
       (\<lambda>cfTunnel.
         if om_DeletionTimestamp (cft_Meta cfTunnel) \<noteq> None then
           (if ContainsFinalizer (r_Lib r) (cft_Meta cfTunnel) finalizerName then tunnel_release r cfTunnel
            else retE (zero_Result, None))
         else if \<not> ContainsFinalizer (r_Lib r) (cft_Meta cfTunnel) finalizerName then
           handle (Update_CloudflareTunnel r
               (cfTunnel\<lparr>cft_Meta := AddFinalizer (r_Lib r) (cft_Meta cfTunnel) finalizerName\<rparr>))
             (\<lambda>e. retE (zero_Result, Some e)) (tunnel_sync r)
         else tunnel_sync r cfTunnel)"

section \<open>Watched kinds\<close>

text \<open>
  \<^verbatim>\<open>SetupWithManager\<close> watches the kinds it owns; the service monitor only when its resource
  definition is installed, which it asks the API reader.
\<close>

definition SetupWithManager :: "unit outcome \<Rightarrow> string list outcome" where
  "SetupWithManager crd =
     (let builder = [''Secret'', ''Deployment'', ''Service'', ''PodDisruptionBudget''] in
     case crd of
       Ok _ \<Rightarrow> Ok (builder @ [''ServiceMonitor''])
     | Err e \<Rightarrow> if IsNotFound e then Ok builder else Err (Errorf_w ''failed to check ServiceMonitor CRD'' e)
     | Panic p \<Rightarrow> Panic p)"

end
