(* ===== verification/TunnelEvents.thy ===== *)
theory TunnelEvents
  imports TunnelReconciler Events CloudflareClient
begin

text \<open>
  The order of the calls of the tunnel reconciler, and what each of its steps guarantees. The
  three server-side-apply steps share one contract, the locale \<open>applier\<close>.
\<close>

section \<open>Server-side apply\<close>

fun is_kube_read :: "event \<Rightarrow> bool" where
  "is_kube_read (K_GetSecret _ _) = True"
| "is_kube_read (K_GetService _ _) = True"
| "is_kube_read (K_GetDeployment _ _) = True"
| "is_kube_read _ = False"

text \<open>
  A run that applies an object reads one object and then either stops (an error, or the
  desired state is what it extracted) or patches the desired state with the operator's field
  manager, once and by force.
\<close>

definition applies ::
  "k8s_lib \<Rightarrow> (event \<Rightarrow> ApplyConfig \<Rightarrow> bool) \<Rightarrow> ApplyConfig outcome \<Rightarrow> event list \<Rightarrow> 'a outcome \<Rightarrow> bool" where
  "applies lib extracted obj es r \<longleftrightarrow>
     (es = [] \<and> (\<forall>v. r \<noteq> Ok v)) \<or>
     (\<exists>get. is_kube_read get \<and> es = [get] \<and>
        ((\<exists>v. r = Ok v) \<longrightarrow> (\<exists>x current. obj = Ok x \<and> extracted get current \<and> DeepEqual lib x current))) \<or>
     (\<exists>get x tree reply. es = [get, K_Patch tree apply_options reply] \<and> is_kube_read get \<and>
        obj = Ok x \<and> ToUnstructured lib x = Ok tree \<and> ((\<exists>v. r = Ok v) \<longleftrightarrow> reply = Ok ()) \<and>
        (\<exists>current. extracted get current \<and> \<not> DeepEqual lib x current))"

text \<open>What a read found: the object, or the zero value when it is not found.\<close>

definition found_value :: "'a \<Rightarrow> 'a outcome \<Rightarrow> 'a outcome" where
  "found_value zero reply = (case reply of Err e \<Rightarrow> if IsNotFound e then Ok zero else Err e | _ \<Rightarrow> reply)"

lemma found_value_simps [simp]:
  "found_value zero (Ok x) = Ok x" "IsNotFound e \<Longrightarrow> found_value zero (Err e) = Ok zero"
  by (simp_all add: found_value_def)

definition service_extracted :: "k8s_lib \<Rightarrow> CloudflareTunnel \<Rightarrow> event \<Rightarrow> ApplyConfig \<Rightarrow> bool" where
  "service_extracted lib cf get current \<longleftrightarrow> (\<exists>reply svc. get = K_GetService (cft_Key cf) reply \<and>
     found_value zero_service reply = Ok svc \<and> ExtractService lib svc managerName = Ok current)"

definition deployment_extracted :: "k8s_lib \<Rightarrow> CloudflareTunnel \<Rightarrow> event \<Rightarrow> ApplyConfig \<Rightarrow> bool" where
  "deployment_extracted lib cf get current \<longleftrightarrow> (\<exists>reply dep. get = K_GetDeployment (cft_Key cf) reply \<and>
     found_value zero_deployment reply = Ok dep \<and> ExtractDeployment lib dep managerName = Ok current)"

lemma extracted_intros:
  "ExtractService lib svc managerName = Ok current \<Longrightarrow> service_extracted lib cf (K_GetService (cft_Key cf) (Ok svc)) current"
  "ExtractService lib zero_service managerName = Ok current \<Longrightarrow> IsNotFound e \<Longrightarrow>
     service_extracted lib cf (K_GetService (cft_Key cf) (Err e)) current"
  "ExtractDeployment lib dep managerName = Ok current \<Longrightarrow> deployment_extracted lib cf (K_GetDeployment (cft_Key cf) (Ok dep)) current"
  "ExtractDeployment lib zero_deployment managerName = Ok current \<Longrightarrow> IsNotFound e \<Longrightarrow>
     deployment_extracted lib cf (K_GetDeployment (cft_Key cf) (Err e)) current"
  by (auto simp: service_extracted_def deployment_extracted_def)

locale applier =
  fixes run :: "'w reconciler \<Rightarrow> CloudflareTunnel \<Rightarrow> 'b \<Rightarrow> ('w state, 'a) io"
    and desired :: "k8s_lib \<Rightarrow> CloudflareTunnel \<Rightarrow> 'b \<Rightarrow> ApplyConfig outcome"
    and extracted :: "k8s_lib \<Rightarrow> CloudflareTunnel \<Rightarrow> event \<Rightarrow> ApplyConfig \<Rightarrow> bool"
  assumes run_applies: "traces (applies (r_Lib r) (extracted (r_Lib r) cf) (desired (r_Lib r) cf arg)) (run r cf arg)"
begin

lemma kube_steps:
  assumes "P []" and "\<And>get. is_kube_read get \<Longrightarrow> P [get]"
    and "\<And>get tree reply. is_kube_read get \<Longrightarrow> P [get, K_Patch tree apply_options reply]"
  shows "always P (run r cf arg)"
  by (rule traces_mono [OF run_applies]) (auto simp: applies_def intro: assms)

lemma no_manager_call: "always (list_all (\<lambda>e. \<not> is_manager_call e)) (run r cf arg)"
  by (rule kube_steps) (auto elim: is_kube_read.elims)

lemma patches_desired:
  "traces (\<lambda>es r'. \<forall>tree opts reply. K_Patch tree opts reply \<in> set es \<longrightarrow>
     opts = apply_options \<and> (\<exists>x. desired (r_Lib r) cf arg = Ok x \<and> ToUnstructured (r_Lib r) x = Ok tree))
   (run r cf arg)"
  by (rule traces_mono [OF run_applies]) (auto simp: applies_def)

text \<open>When the desired state can never equal what was extracted, success means a patch.\<close>

lemma success_patches:
  assumes "\<And>x get current. desired (r_Lib r) cf arg = Ok x \<Longrightarrow> extracted (r_Lib r) cf get current \<Longrightarrow>
      \<not> DeepEqual (r_Lib r) x current"
  shows "traces (\<lambda>es r'. \<forall>v. r' = Ok v \<longrightarrow> (\<exists>get x current tree. desired (r_Lib r) cf arg = Ok x \<and>
     ToUnstructured (r_Lib r) x = Ok tree \<and> extracted (r_Lib r) cf get current \<and> es = [get, K_Patch tree apply_options (Ok ())])) (run r cf arg)"
  by (rule traces_mono [OF run_applies]) (use assms in \<open>auto simp: applies_def\<close>)

end

definition map_outcome :: "('a \<Rightarrow> 'b) \<Rightarrow> 'a outcome \<Rightarrow> 'b outcome" where
  "map_outcome f r = (case r of Ok x \<Rightarrow> Ok (f x) | Err e \<Rightarrow> Err e | Panic p \<Rightarrow> Panic p)"

lemma map_outcome_Ok [simp]: "map_outcome f (Ok x) = Ok (f x)"
  by (simp add: map_outcome_def)

interpretation service: applier "\<lambda>r cf (u :: unit). reconcileService r cf"
    "\<lambda>lib cf u. map_outcome (\<lambda>owner. AC_Service (desired_service cf owner)) (controllerReference lib cf)"
    service_extracted
  by unfold_locales (auto simp: reconcileService_def found_or_def go_simps bindE_def applies_def Let_def
      intro!: trace_intros, (fastforce intro: extracted_intros)+)

interpretation deployment: applier reconcileDeployment
    "\<lambda>lib cf secretName. map_outcome (\<lambda>owner. AC_Deployment (desired_deployment cf owner secretName))
      (controllerReference lib cf)"
    deployment_extracted
  by unfold_locales (auto simp: reconcileDeployment_def found_or_def go_simps bindE_def applies_def Let_def
      intro!: trace_intros, (fastforce intro: extracted_intros)+)

interpretation secret: applier reconcileSecret
    "\<lambda>lib cf token. map_outcome (\<lambda>owner. AC_Secret (desired_secret cf owner token))
      (controllerReference lib cf)"
    service_extracted
  by unfold_locales (auto simp: reconcileSecret_def found_or_def go_simps bindE_def applies_def Let_def
      intro!: trace_intros, (fastforce intro: extracted_intros)+)


text \<open>
  The secret is compared with a service, so it is never found up to date: every successful
  \<^verbatim>\<open>reconcileSecret\<close> patches.
\<close>

lemma secret_not_extracted:
  assumes "typed_helpers lib" and "service_extracted lib cf get current"
  shows "\<not> DeepEqual lib (AC_Secret x) current"
  using assms unfolding typed_helpers_def service_extracted_def by metis

lemma traces_reconcileSecret_patches:
  assumes "typed_helpers (r_Lib r)"
  shows "traces (\<lambda>es r'. \<forall>v. r' = Ok v \<longrightarrow> (\<exists>get owner current tree. controllerReference (r_Lib r) cf = Ok owner \<and>
     ToUnstructured (r_Lib r) (AC_Secret (desired_secret cf owner token)) = Ok tree \<and>
     service_extracted (r_Lib r) cf get current \<and>
     es = [get, K_Patch tree apply_options (Ok ())])) (reconcileSecret r cf token)"
  by (rule traces_mono [OF secret.success_patches])
    (auto simp: map_outcome_def secret_not_extracted [OF assms] split: outcome.splits)

lemma reconcileSecret_name: "traces (\<lambda>es r'. \<forall>v. r' = Ok v \<longrightarrow> v = cft_Key cf) (reconcileSecret r cf token)"
  by (auto simp: reconcileSecret_def found_or_def go_simps bindE_def Let_def intro!: trace_intros)

section \<open>The tunnel of a resource\<close>

fun is_create :: "event \<Rightarrow> bool" where
  "is_create (M_CreateTunnel _ _) = True"
| "is_create _ = False"

fun_cases is_createE: "is_create e"

text \<open>\<open>known_tunnel cf\<close> is the tunnel named by the status.\<close>

definition known_tunnel :: "CloudflareTunnel \<Rightarrow> CFTunnel" where
  "known_tunnel cf = \<lparr>cft_tunnel_ID = cft_TunnelID cf, cft_tunnel_Name = tunnel_name cf\<rparr>"

definition stored_token :: "Secret outcome \<Rightarrow> string" where
  "stored_token reply = (case reply of Ok secret \<Rightarrow> map_index (secret_Data secret) tunnelTokenKey | _ \<Rightarrow> '''')"

lemma map_index_zero_secret: "map_index (secret_Data zero_secret) k = ''''"
  by (simp add: zero_secret_def map_index_def)

text \<open>
  The shape of every run: the secret is read; a known tunnel with a stored token is reused
  without a call to Cloudflare; otherwise the token is asked for, and a tunnel is created only
  when there is none or its token call said so with the sentinel error.
\<close>

definition to_create :: "CloudflareTunnel \<Rightarrow> event list \<Rightarrow> bool" where
  "to_create cf pre \<longleftrightarrow> (\<exists>reply. pre = [K_GetSecret (cft_Key cf) reply] \<and> cft_TunnelID cf = '''') \<or>
     (\<exists>reply e. pre = [K_GetSecret (cft_Key cf) reply, M_GetTunnelToken (cft_TunnelID cf) (Err e)] \<and>
        cft_TunnelID cf \<noteq> '''' \<and> errors_Is e ErrTunnelNotFound)"

inductive tunnel_run :: "CloudflareTunnel \<Rightarrow> event list \<Rightarrow> (CFTunnel \<times> CloudflareTunnelToken) outcome \<Rightarrow> bool"
  for cf where
  secret_failed: "tunnel_run cf [K_GetSecret (cft_Key cf) reply] r" if "\<And>v. r \<noteq> Ok v"
| reused: "tunnel_run cf [K_GetSecret (cft_Key cf) reply] (Ok (known_tunnel cf, stored_token reply))"
    if "cft_TunnelID cf \<noteq> ''''" "stored_token reply \<noteq> ''''"
| fetched: "tunnel_run cf [K_GetSecret (cft_Key cf) reply, M_GetTunnelToken (cft_TunnelID cf) (Ok token)]
      (Ok (known_tunnel cf, token))"
    if "cft_TunnelID cf \<noteq> ''''" "stored_token reply = ''''"
| fetch_failed: "tunnel_run cf [K_GetSecret (cft_Key cf) reply, M_GetTunnelToken (cft_TunnelID cf) reply'] r"
    if "cft_TunnelID cf \<noteq> ''''" "\<And>v. reply' \<noteq> Ok v" "\<And>v. r \<noteq> Ok v"
| created: "tunnel_run cf (pre @ [M_CreateTunnel (tunnel_name cf) (Ok tunnel),
      M_GetTunnelToken (cft_tunnel_ID tunnel) (Ok token)]) (Ok (tunnel, token))"
    if "to_create cf pre"
| create_failed: "tunnel_run cf (pre @ [M_CreateTunnel (tunnel_name cf) reply]) r"
    if "to_create cf pre" "\<And>v. reply \<noteq> Ok v" "\<And>v. r \<noteq> Ok v"
| token_failed: "tunnel_run cf (pre @ [M_CreateTunnel (tunnel_name cf) (Ok tunnel),
      M_GetTunnelToken (cft_tunnel_ID tunnel) reply]) r"
    if "to_create cf pre" "\<And>v. reply \<noteq> Ok v" "\<And>v. r \<noteq> Ok v"

lemma to_create_intros:
  "cft_TunnelID cf = '''' \<Longrightarrow> to_create cf [K_GetSecret (cft_Key cf) reply]"
  "cft_TunnelID cf \<noteq> '''' \<Longrightarrow> errors_Is e ErrTunnelNotFound \<Longrightarrow>
     to_create cf [K_GetSecret (cft_Key cf) reply, M_GetTunnelToken (cft_TunnelID cf) (Err e)]"
  by (auto simp: to_create_def)

lemma traces_createTunnel:
  "to_create cf pre \<Longrightarrow> traces (\<lambda>es. tunnel_run cf (pre @ es)) (createTunnel r (tunnel_name cf))"
  unfolding createTunnel_def go_simps bindE_def
  by (auto intro!: trace_intros tunnel_run.intros)

lemma traces_reconcileTunnel: "traces (tunnel_run cf) (reconcileTunnel r cf)"
proof -
  have create: "traces (\<lambda>es. tunnel_run cf (e # es)) (createTunnel r (tunnel_name cf))"
    if "to_create cf [e]" for e
    using traces_createTunnel [OF that] by simp
  have create': "traces (\<lambda>es. tunnel_run cf (e # e' # es)) (createTunnel r (tunnel_name cf))"
    if "to_create cf [e, e']" for e e'
    using traces_createTunnel [OF that] by simp
  have reuse: "tunnel_run cf [K_GetSecret (cft_Key cf) (Ok secret)]
      (Ok (\<lparr>cft_tunnel_ID = cft_TunnelID cf, cft_tunnel_Name = tunnel_name cf\<rparr>,
        map_index (secret_Data secret) tunnelTokenKey))"
    if "cft_TunnelID cf \<noteq> ''''" "map_index (secret_Data secret) tunnelTokenKey \<noteq> ''''" for secret
    using tunnel_run.reused [of cf "Ok secret"] that by (simp add: stored_token_def known_tunnel_def)
  have fetch: "tunnel_run cf [K_GetSecret (cft_Key cf) reply, M_GetTunnelToken (cft_TunnelID cf) (Ok token)]
      (Ok (\<lparr>cft_tunnel_ID = cft_TunnelID cf, cft_tunnel_Name = tunnel_name cf\<rparr>, token))"
    if "cft_TunnelID cf \<noteq> ''''" "stored_token reply = ''''" for reply token
    using tunnel_run.fetched [of cf reply token] that by (simp add: known_tunnel_def)
  show ?thesis
    unfolding reconcileTunnel_def bindE_def
    by (auto simp: Let_def map_index_zero_secret stored_token_def
        intro!: trace_intros create create' to_create_intros reuse fetch
        intro: tunnel_run.secret_failed tunnel_run.fetch_failed)
qed


text \<open>An implementation whose token errors are opaque never makes the operator create again.\<close>

context opaque_manager
begin

lemma reconcileTunnel_no_create:
  fixes r :: "'s reconciler"
  assumes "r_Manager r = mgr" and "cft_TunnelID cf \<noteq> ''''"
  shows "always (list_all (\<lambda>e. \<not> is_create e)) (reconcileTunnel r cf)"
proof -
  have opaque: "case fst (m_GetTunnelToken (r_Manager r) t w) of Err e \<Rightarrow> \<not> errors_Is e ErrTunnelNotFound | _ \<Rightarrow> True"
    for t w
    using token_error_opaque [of t w] assms(1)
    by (cases "m_GetTunnelToken (r_Manager r) t w") (auto split: outcome.split)
  have token: "always (list_all (\<lambda>e. \<not> is_create e)) (handle (call_GetTunnelToken r t)
       (\<lambda>e. if \<not> errors_Is e ErrTunnelNotFound then throwE (Errorf_w ''failed to get tunnel'' e)
         else createTunnel r n) (\<lambda>token. retE (known, token)))" for t n known
    by (rule traces_handle_reply [where P = "\<lambda>r. case r of Err e \<Rightarrow> \<not> errors_Is e ErrTunnelNotFound | _ \<Rightarrow> True",
          OF opaque]) (auto intro!: traces_retE traces_throwE)
  show ?thesis
    unfolding reconcileTunnel_def bindE_def
    by (rule traces_handle_handle, rule traces_handle_logged)
      (use assms(2) in \<open>auto simp: Let_def intro!: token traces_retE traces_throwE\<close>)
qed

end

section \<open>The reported status\<close>

definition missing :: "'a outcome \<Rightarrow> bool" where
  "missing reply \<longleftrightarrow> (case reply of Err e \<Rightarrow> IsNotFound e | _ \<Rightarrow> False)"

definition answered :: "'a outcome \<Rightarrow> bool" where
  "answered reply \<longleftrightarrow> (\<exists>v. reply = Ok v) \<or> missing reply"

definition no_replica :: "Deployment outcome \<Rightarrow> bool" where
  "no_replica reply \<longleftrightarrow> (case reply of Ok d \<Rightarrow> dep_AvailableReplicas d = 0 | _ \<Rightarrow> True)"

text \<open>
  The specification of the conditions: \<open>Available\<close> and \<open>Degraded\<close> as functions of the three
  replies; every other condition is kept.
\<close>

definition available_spec :: "'a outcome \<Rightarrow> 'b outcome \<Rightarrow> Deployment outcome \<Rightarrow> string \<times> string \<times> string" where
  "available_spec sec svc dep =
     (if no_replica dep then (''False'', ''Unavailable'', ''AvailableReplicas is 0'')
      else if missing sec \<or> missing svc then (''False'', ''Reconciling'', '''')
      else (''True'', ''OK'', ''''))"

definition degraded_spec :: "'a outcome \<Rightarrow> 'b outcome \<Rightarrow> 'c outcome \<Rightarrow> string \<times> string \<times> string" where
  "degraded_spec sec svc dep =
     (if missing dep then (''True'', ''Reconciling'', ''Deployment not found'')
      else if missing svc then (''True'', ''Reconciling'', ''Service not found'')
      else if missing sec then (''True'', ''Reconciling'', ''Secret not found'')
      else (''False'', ''OK'', ''''))"

definition reports :: "Condition list \<Rightarrow> Condition list \<Rightarrow> 'a outcome \<Rightarrow> 'b outcome \<Rightarrow> Deployment outcome \<Rightarrow> bool" where
  "reports old cs sec svc dep \<longleftrightarrow>
     find_condition cs TypeCloudflareTunnelAvailable = Some (available_spec sec svc dep) \<and>
     find_condition cs TypeCloudflareTunnelDegraded = Some (degraded_spec sec svc dep) \<and>
     (\<forall>t. t \<noteq> TypeCloudflareTunnelAvailable \<and> t \<noteq> TypeCloudflareTunnelDegraded \<longrightarrow>
        find_condition cs t = find_condition old t)"

lemma type_names [simp]: "TypeCloudflareTunnelAvailable \<noteq> TypeCloudflareTunnelDegraded"
    "TypeCloudflareTunnelDegraded \<noteq> TypeCloudflareTunnelAvailable"
  by (simp_all add: TypeCloudflareTunnelAvailable_def TypeCloudflareTunnelDegraded_def)

lemma find_SetStatusCondition:
  "condition_helper lib \<Longrightarrow> find_condition (SetStatusCondition lib cs (condition ty st re me)) t =
     (if t = ty then Some (st, re, me) else find_condition cs t)"
  by (simp add: condition_helper_def condition_def)

lemma find_ready:
  "condition_helper lib \<Longrightarrow> find_condition (ready lib cs) t =
     (if t = TypeCloudflareTunnelDegraded then Some (''False'', ''OK'', '''')
      else if t = TypeCloudflareTunnelAvailable then Some (''True'', ''OK'', '''') else find_condition cs t)"
  by (simp add: ready_def find_SetStatusCondition)

lemma find_degraded:
  "condition_helper lib \<Longrightarrow> find_condition (degraded lib msg cs) t =
     (if t = TypeCloudflareTunnelAvailable then Some (''False'', ''Reconciling'', '''')
      else if t = TypeCloudflareTunnelDegraded then Some (''True'', ''Reconciling'', msg) else find_condition cs t)"
  by (simp add: degraded_def find_SetStatusCondition)

lemmas find_conditions = find_SetStatusCondition find_ready find_degraded

definition status_run :: "CloudflareTunnel \<Rightarrow> event list \<Rightarrow> Result outcome \<Rightarrow> bool" where
  "status_run cf es r \<longleftrightarrow>
     (list_all is_kube_read es \<and> (\<forall>v. r \<noteq> Ok v)) \<or>
     (\<exists>sec svc dep cs reply. es = [K_GetSecret (cft_Key cf) sec, K_GetService (cft_Key cf) svc,
          K_GetDeployment (cft_Key cf) dep, K_StatusUpdate (with_conditions cf cs) reply] \<and>
        answered sec \<and> answered svc \<and> answered dep \<and>
        reports (st_Conditions (cft_Status cf)) cs sec svc dep \<and>
        r = map_outcome (\<lambda>_. \<lparr>res_Requeue = no_replica dep, res_RequeueAfter = 0\<rparr>) reply)"

lemma updateStatus_no_id: "cft_TunnelID cf = '''' \<Longrightarrow> updateStatus r cf = retE zero_Result"
  by (simp add: updateStatus_def)

text \<open>One read: the reply is answered, or the error ends the run.\<close>

definition value_or :: "'a \<Rightarrow> 'a outcome \<Rightarrow> 'a" where
  "value_or zero reply = (case reply of Ok x \<Rightarrow> x | _ \<Rightarrow> zero)"

lemma traces_handle_check:
  assumes "\<And>reply. answered reply \<Longrightarrow> traces (\<lambda>es. R (ev reply # es))
      (k (value_or zero reply, if missing reply then degraded lib msg cs else cs))"
    and "\<And>reply r. \<not> answered reply \<Longrightarrow> \<forall>v. r \<noteq> Ok v \<Longrightarrow> R [ev reply] r"
  shows "traces R (handle (check lib msg zero (logged ev m) cs) throwE k)"
  unfolding check_def handle_assoc
proof (rule traces_handle_logged)
  fix x e p
  show "traces (\<lambda>es. R (ev (Ok x) # es)) (handle (retE (x, cs)) throwE k)"
    using assms(1) [of "Ok x"] by (simp add: answered_def missing_def value_or_def)
  show "traces (\<lambda>es. R (ev (Err e) # es))
      (handle (if IsNotFound e then retE (zero, degraded lib msg cs) else throwE e) throwE k)"
    using assms(1) [of "Err e"] assms(2) [of "Err e" "Err e"]
    by (auto simp: answered_def missing_def value_or_def intro!: traces_throwE)
  show "R [ev (Panic p)] (Panic p)"
    by (rule assms(2)) (auto simp: answered_def missing_def)
qed

lemma no_replica_value: "answered dep \<Longrightarrow>
    dep_AvailableReplicas (value_or zero_deployment dep) = 0 \<longleftrightarrow> no_replica dep"
  by (auto simp: answered_def missing_def value_or_def no_replica_def zero_deployment_def split: outcome.splits)

lemma status_run_fails: "list_all is_kube_read es \<Longrightarrow> \<forall>v. r \<noteq> Ok v \<Longrightarrow> status_run cf es r"
  by (simp add: status_run_def)

lemma status_run_done:
  assumes "answered sec" and "answered svc" and "answered dep"
    and "reports (st_Conditions (cft_Status cf)) cs sec svc dep"
    and "r = map_outcome (\<lambda>_. \<lparr>res_Requeue = no_replica dep, res_RequeueAfter = 0\<rparr>) reply"
  shows "status_run cf [K_GetSecret (cft_Key cf) sec, K_GetService (cft_Key cf) svc,
    K_GetDeployment (cft_Key cf) dep, K_StatusUpdate (with_conditions cf cs) reply] r"
  unfolding status_run_def using assms by blast

lemma reports_reads:
  assumes lib: "condition_helper lib" and "answered dep"
    and "cs1 = (if missing sec then degraded lib ''Secret not found'' (ready lib old) else ready lib old)"
    and "cs2 = (if missing svc then degraded lib ''Service not found'' cs1 else cs1)"
    and "cs3 = (if missing dep then degraded lib ''Deployment not found'' cs2 else cs2)"
    and "cs4 = (if no_replica dep then SetStatusCondition lib cs3
      (condition TypeCloudflareTunnelAvailable ''False'' ''Unavailable'' ''AvailableReplicas is 0'') else cs3)"
  shows "reports old cs4 sec svc dep"
proof -
  have "no_replica dep" if "missing dep"
    using that by (auto simp: missing_def no_replica_def split: outcome.splits)
  with assms(2-) show ?thesis
    by (auto simp: reports_def available_spec_def degraded_spec_def find_conditions [OF lib])
qed

lemma traces_updateStatus:
  assumes lib: "condition_helper (r_Lib r)" and id: "cft_TunnelID cf \<noteq> ''''"
  shows "traces (status_run cf) (updateStatus r cf)"
  unfolding updateStatus_def Let_def bindE_def if_not_P [OF id]
proof (rule traces_handle_check, goal_cases)
  case (1 sec)
  show ?case
    unfolding prod.case
  proof (rule traces_handle_check, goal_cases)
    case (1 svc)
    show ?case
      unfolding prod.case
    proof (rule traces_handle_check, goal_cases)
      case (1 dep)
      note reads = \<open>answered sec\<close> \<open>answered svc\<close> \<open>answered dep\<close>
      note report = reports_reads [OF lib reads(3) refl refl refl refl,
          where sec = sec and svc = svc and old = "st_Conditions (cft_Status cf)"]
      show ?case
        unfolding prod.case no_replica_value [OF reads(3)]
        by (rule traces_handle_logged;
            (rule traces_retE traces_throwE)?, rule status_run_done [OF reads report])
          (simp_all add: zero_Result_def map_outcome_def)
    qed (simp add: status_run_fails)
  qed (simp add: status_run_fails)
qed (simp add: status_run_fails)


section \<open>Whole runs\<close>

text \<open>The calls of the API server a synchronisation makes.\<close>

fun is_kube_call :: "event \<Rightarrow> bool" where
  "is_kube_call (K_GetSecret _ _) = True"
| "is_kube_call (K_GetService _ _) = True"
| "is_kube_call (K_GetDeployment _ _) = True"
| "is_kube_call (K_Patch _ _ _) = True"
| "is_kube_call (K_CreateOrUpdateServiceMonitor _ _) = True"
| "is_kube_call (K_CreateOrUpdatePDB _ _) = True"
| "is_kube_call (K_StatusUpdate _ _) = True"
| "is_kube_call _ = False"

definition kube_parts :: "(event list \<Rightarrow> bool) \<Rightarrow> bool" where
  "kube_parts P \<longleftrightarrow> closed_events P \<and> (\<forall>e. is_kube_call e \<longrightarrow> P [e])"

lemma kube_partsD: "kube_parts P \<Longrightarrow> closed_events P" "kube_parts P \<Longrightarrow> is_kube_call e \<Longrightarrow> P [e]"
  by (simp_all add: kube_parts_def)

lemma always_logged: "kube_parts P \<Longrightarrow> (\<And>r. is_kube_call (ev r)) \<Longrightarrow> always P (logged ev m)"
  by (auto simp: kube_parts_def intro!: traces_logged)

lemma always_applied:
  fixes m :: "('w state, 'a) io"
  assumes "kube_parts P" and "traces (applies lib extracted obj) m"
  shows "always P m"
proof (rule traces_mono [OF assms(2)])
  fix es and r :: "'a outcome"
  assume "applies lib extracted obj es r"
  moreover have "P [get, K_Patch tree apply_options reply]" if "is_kube_read get" for get tree reply
  proof -
    have "P [get]" using that assms(1) by (auto elim!: is_kube_read.elims simp: kube_partsD)
    moreover have "P [K_Patch tree apply_options reply]" by (simp add: kube_partsD [OF assms(1)])
    ultimately have "P ([get] @ [K_Patch tree apply_options reply])"
      using assms(1) unfolding kube_parts_def closed_events_def by blast
    then show ?thesis by simp
  qed
  moreover have "P [get]" if "is_kube_read get" for get
    using that assms(1) by (auto elim!: is_kube_read.elims simp: kube_partsD)
  moreover have "P []" using assms(1) by (simp add: kube_parts_def closed_events_def)
  ultimately show "P es" unfolding applies_def by blast
qed

lemma always_check: "kube_parts P \<Longrightarrow> (\<And>r. is_kube_call (ev r)) \<Longrightarrow> always P (check lib msg zero (logged ev m) cs)"
  unfolding check_def by (intro always_intros always_logged) (simp_all add: kube_partsD)

lemma always_updateStatus: "kube_parts P \<Longrightarrow> always P (updateStatus r cf)"
  unfolding updateStatus_def Let_def case_prod_beta
  by (intro always_intros always_check always_logged) (simp_all add: kube_partsD)

lemma always_fail: "kube_parts P \<Longrightarrow> always P (fail r cf err)"
  unfolding fail_def by (intro always_handle always_updateStatus always_pure) (simp_all add: kube_partsD)

lemma always_workloads: "kube_parts P \<Longrightarrow> always P (tunnel_workloads r cf secretName)"
proof -
  assume P: "kube_parts P"
  have "always P (reconcileServiceMonitor r cf)"
    unfolding reconcileServiceMonitor_def
    by (intro always_intros always_logged) (simp_all add: kube_partsD [OF P] P)
  moreover have "always P (reconcilePDB r cf)"
    unfolding reconcilePDB_def
    by (cases "spec_PodDisruptionBudget (cft_Spec cf)"; simp only: option.case)
      (intro always_intros always_logged; simp add: kube_partsD [OF P] P)+
  ultimately show ?thesis
    unfolding tunnel_workloads_def
    by (intro always_handle always_fail always_updateStatus always_pure always_applied [OF P deployment.run_applies]
        always_applied [OF P service.run_applies]) (simp_all add: kube_partsD [OF P] P)
qed

lemma always_tunnel_sync:
  assumes P: "kube_parts P" and "always P (reconcileTunnel r cf)"
  shows "always P (tunnel_sync r cf)"
  unfolding tunnel_sync_def case_prod_beta
  by (intro always_handle always_fail always_pure always_workloads always_logged
      always_applied [OF P secret.run_applies] assms) (simp_all add: kube_partsD [OF P])

text \<open>A run of \<^verbatim>\<open>Reconcile\<close>, branch by branch.\<close>

lemma traces_tunnel_Reconcile:
  assumes "\<And>e. R [K_GetCloudflareTunnel key (Err e)] (Ok (zero_Result, if IsNotFound e then None else Some e))"
    and "\<And>p. R [K_GetCloudflareTunnel key (Panic p)] (Panic p)"
    and "\<And>cf. om_DeletionTimestamp (cft_Meta cf) \<noteq> None \<Longrightarrow>
      \<not> ContainsFinalizer (r_Lib r) (cft_Meta cf) finalizerName \<Longrightarrow>
      R [K_GetCloudflareTunnel key (Ok cf)] (Ok (zero_Result, None))"
    and "\<And>cf. om_DeletionTimestamp (cft_Meta cf) \<noteq> None \<Longrightarrow>
      ContainsFinalizer (r_Lib r) (cft_Meta cf) finalizerName \<Longrightarrow>
      traces (\<lambda>es. R (K_GetCloudflareTunnel key (Ok cf) # es)) (tunnel_release r cf)"
    and "\<And>cf cf'. om_DeletionTimestamp (cft_Meta cf) = None \<Longrightarrow>
      \<not> ContainsFinalizer (r_Lib r) (cft_Meta cf) finalizerName \<Longrightarrow>
      traces (\<lambda>es. R (K_GetCloudflareTunnel key (Ok cf) # K_UpdateCloudflareTunnel
        (cf\<lparr>cft_Meta := AddFinalizer (r_Lib r) (cft_Meta cf) finalizerName\<rparr>) (Ok cf') # es)) (tunnel_sync r cf')"
    and "\<And>cf reply v. om_DeletionTimestamp (cft_Meta cf) = None \<Longrightarrow> \<forall>x. reply \<noteq> Ok x \<Longrightarrow>
      R [K_GetCloudflareTunnel key (Ok cf), K_UpdateCloudflareTunnel
        (cf\<lparr>cft_Meta := AddFinalizer (r_Lib r) (cft_Meta cf) finalizerName\<rparr>) reply] v"
    and "\<And>cf. om_DeletionTimestamp (cft_Meta cf) = None \<Longrightarrow>
      ContainsFinalizer (r_Lib r) (cft_Meta cf) finalizerName \<Longrightarrow>
      traces (\<lambda>es. R (K_GetCloudflareTunnel key (Ok cf) # es)) (tunnel_sync r cf)"
  shows "traces R (tunnel_Reconcile r key)"
  unfolding tunnel_Reconcile_def
proof (rule traces_handle_logged, goal_cases)
  case (1 cf)
  show ?case
    using assms(3-7) [of cf]
    by (cases "om_DeletionTimestamp (cft_Meta cf) = None") (auto intro!: trace_intros)
next
  case (2 e)
  show ?case using assms(1) [of e] by (auto intro!: trace_intros)
qed (rule assms(2))

section \<open>The finalizer protects the tunnel\<close>

fun holds_tunnel_finalizer :: "k8s_lib \<Rightarrow> event \<Rightarrow> bool" where
  "holds_tunnel_finalizer lib (K_GetCloudflareTunnel _ (Ok cf)) =
     ContainsFinalizer lib (cft_Meta cf) finalizerName"
| "holds_tunnel_finalizer lib (K_UpdateCloudflareTunnel cf (Ok _)) =
     ContainsFinalizer lib (cft_Meta cf) finalizerName"
| "holds_tunnel_finalizer lib _ = False"

lemma kube_parts_True: "kube_parts (\<lambda>_. True)"
  by (simp add: kube_parts_def closed_events_def)

lemma always_sync_True: "always (\<lambda>_. True) (tunnel_sync r cf)"
  by (rule always_tunnel_sync [OF kube_parts_True]) (rule traces_mono [OF traces_reconcileTunnel], simp)

lemma always_release_True: "always (\<lambda>_. True) (tunnel_release r cf)"
  unfolding tunnel_release_def by (auto intro!: trace_intros)

lemma traces_tunnel_finalizer_first:
  assumes lib: "finalizer_helpers (r_Lib r)"
  shows "always (preceded (holds_tunnel_finalizer (r_Lib r)) is_cloudflare_write) (tunnel_Reconcile r key)"
  using lib
  by (intro traces_tunnel_Reconcile)
    (auto simp: always_sync_True always_release_True finalizer_helpers_def)

text \<open>
  An update that drops the finalizer ends the run, and the whole run before it is: read,
  delete the DNS records, delete the tunnel.
\<close>

definition tunnel_release_order :: "k8s_lib \<Rightarrow> NamespacedName \<Rightarrow> event list \<Rightarrow> bool" where
  "tunnel_release_order lib key es \<longleftrightarrow> (\<forall>pre cf' reply post.
     es = pre @ K_UpdateCloudflareTunnel cf' reply # post \<and>
     \<not> ContainsFinalizer lib (cft_Meta cf') finalizerName \<longrightarrow>
     post = [] \<and> (\<exists>cf. om_DeletionTimestamp (cft_Meta cf) \<noteq> None \<and>
       pre = [K_GetCloudflareTunnel key (Ok cf), M_DeleteAllDNS (cft_TunnelID cf) (Ok ()),
         M_DeleteTunnel (cft_TunnelID cf) (Ok ())]))"

fun is_tunnel_update :: "event \<Rightarrow> bool" where
  "is_tunnel_update (K_UpdateCloudflareTunnel _ _) = True"
| "is_tunnel_update _ = False"

fun_cases is_tunnel_updateE: "is_tunnel_update e"

lemma kube_parts_no_update: "kube_parts (list_all (\<lambda>e. \<not> is_tunnel_update e))"
  unfolding kube_parts_def by (auto simp: closed_list_all elim: is_kube_call.elims)

lemma tunnel_run_events: "tunnel_run cf es r \<Longrightarrow>
    list_all (\<lambda>e. is_create e \<or> (\<exists>k v. e = K_GetSecret k v) \<or> (\<exists>t v. e = M_GetTunnelToken t v)) es"
  by (induction rule: tunnel_run.induct) (auto simp: to_create_def)

lemma always_sync_no_update: "always (list_all (\<lambda>e. \<not> is_tunnel_update e)) (tunnel_sync r cf)"
  by (rule always_tunnel_sync [OF kube_parts_no_update], rule traces_mono [OF traces_reconcileTunnel],
      drule tunnel_run_events) (fastforce simp: list_all_iff elim: is_tunnel_updateE is_createE)

lemma release_order_without: "list_all (\<lambda>e. \<not> is_tunnel_update e) es \<Longrightarrow> tunnel_release_order lib key es"
  unfolding tunnel_release_order_def by auto

lemma release_order_after_claim:
  assumes "list_all (\<lambda>e. \<not> is_tunnel_update e) es" and "ContainsFinalizer lib (cft_Meta upd) finalizerName"
  shows "tunnel_release_order lib key (K_GetCloudflareTunnel key (Ok cf) # K_UpdateCloudflareTunnel upd reply # es)"
  unfolding tunnel_release_order_def
proof (intro allI impI, elim conjE)
  fix pre cf' reply' post
  assume eq: "K_GetCloudflareTunnel key (Ok cf) # K_UpdateCloudflareTunnel upd reply # es =
    pre @ K_UpdateCloudflareTunnel cf' reply' # post"
    and "\<not> ContainsFinalizer lib (cft_Meta cf') finalizerName"
  with assms have False by (auto simp: Cons_eq_append_conv)
  then show "post = [] \<and> (\<exists>cf. om_DeletionTimestamp (cft_Meta cf) \<noteq> None \<and>
       pre = [K_GetCloudflareTunnel key (Ok cf), M_DeleteAllDNS (cft_TunnelID cf) (Ok ()),
         M_DeleteTunnel (cft_TunnelID cf) (Ok ())])" ..
qed

lemma release_order_exact:
  "om_DeletionTimestamp (cft_Meta cf) \<noteq> None \<Longrightarrow>
   tunnel_release_order lib key [K_GetCloudflareTunnel key (Ok cf), M_DeleteAllDNS (cft_TunnelID cf) (Ok ()),
     M_DeleteTunnel (cft_TunnelID cf) (Ok ()), K_UpdateCloudflareTunnel upd reply]"
  unfolding tunnel_release_order_def by (auto simp: Cons_eq_append_conv)

lemma traces_tunnel_release_order:
  assumes lib: "finalizer_helpers (r_Lib r)"
  shows "always (tunnel_release_order (r_Lib r) key) (tunnel_Reconcile r key)"
proof (rule traces_tunnel_Reconcile, goal_cases)
  case (4 cf)
  then show ?case
    unfolding tunnel_release_def
    by (auto intro!: trace_intros release_order_exact intro: release_order_without)
next
  case (5 cf cf')
  show ?case
    by (rule traces_mono [OF always_sync_no_update])
      (use lib in \<open>auto intro: release_order_after_claim simp: finalizer_helpers_def\<close>)
next
  case (6 cf reply v)
  show ?case
    using lib release_order_after_claim [of "[]"] by (simp add: finalizer_helpers_def)
next
  case (7 cf)
  show ?case by (rule traces_mono [OF always_sync_no_update]) (simp add: release_order_without)
qed (simp_all add: release_order_without)


section \<open>Creation and recording of the tunnel\<close>

lemma fail_without_id: "cft_TunnelID cf = '''' \<Longrightarrow> fail r cf err = retE (zero_Result, Some err)"
  by (simp add: fail_def updateStatus_no_id)

lemma kube_calls_only: "kube_parts (list_all is_kube_call)"
  by (simp add: kube_parts_def closed_list_all)

text \<open>
  A synchronisation is a run of \<^verbatim>\<open>reconcileTunnel\<close> followed by calls of the API server only;
  when it failed on a resource without a tunnel ID, nothing follows.
\<close>

definition sync_run :: "CloudflareTunnel \<Rightarrow> event list \<Rightarrow> bool" where
  "sync_run cf es \<longleftrightarrow> (\<exists>a b ra. es = a @ b \<and> tunnel_run cf a ra \<and> list_all is_kube_call b \<and>
     (cft_TunnelID cf = '''' \<and> (\<forall>v. ra \<noteq> Ok v) \<longrightarrow> b = []))"

lemma sync_run_intro: "tunnel_run cf a ra \<Longrightarrow> list_all is_kube_call b \<Longrightarrow>
    (cft_TunnelID cf = '''' \<Longrightarrow> \<forall>v. ra \<noteq> Ok v \<Longrightarrow> b = []) \<Longrightarrow> sync_run cf (a @ b)"
  unfolding sync_run_def by blast

lemma traces_tunnel_sync: "always (sync_run cf) (tunnel_sync r cf)"
  unfolding tunnel_sync_def
proof (rule traces_handle [OF traces_reconcileTunnel], goal_cases)
  case (1 v a)
  have "always (list_all is_kube_call) (case v of (tunnel, token) \<Rightarrow>
      handle (reconcileSecret r cf token) (fail r cf) (\<lambda>secretName.
        handle (StatusUpdate r (with_tunnel cf tunnel))
          (\<lambda>e. retE (zero_Result, Some (Errorf_w ''failed to update CloudflareTunnel status'' e)))
          (\<lambda>cf. tunnel_workloads r cf secretName)))"
    unfolding case_prod_beta
    by (intro always_handle always_fail always_pure always_workloads always_logged
        always_applied [OF _ secret.run_applies]) (simp_all add: kube_calls_only closed_list_all)
  then show ?case
    by (rule traces_mono) (rule sync_run_intro [OF 1], auto)
next
  case (2 e a)
  show ?case
  proof (cases "cft_TunnelID cf = ''''")
    case True
    with 2 show ?thesis
      using sync_run_intro [OF 2, of "[]"] by (auto simp: fail_without_id intro!: traces_retE)
  next
    case False
    show ?thesis
      by (rule traces_mono [OF always_fail [OF kube_calls_only]]) (rule sync_run_intro [OF 2], auto simp: False)
  qed
next
  case (3 p a)
  show ?case using sync_run_intro [OF 3, of "[]"] by simp
qed

lemma kube_not_create: "list_all is_kube_call es \<Longrightarrow> filter is_create es = []"
  by (induction es) (auto elim: is_kube_call.elims)

lemma tunnel_run_creates: "tunnel_run cf es r \<Longrightarrow> length (filter is_create es) \<le> 1"
  by (induction rule: tunnel_run.induct) (auto simp: to_create_def)

lemma sync_run_creates: "sync_run cf es \<Longrightarrow> length (filter is_create es) \<le> 1"
  using tunnel_run_creates by (auto simp: sync_run_def kube_not_create)

lemma traces_tunnel_one_create: "always (\<lambda>es. length (filter is_create es) \<le> 1) (tunnel_Reconcile r key)"
proof (rule traces_tunnel_Reconcile, goal_cases)
  case (4 cf)
  show ?case unfolding tunnel_release_def by (auto intro!: trace_intros)
next
  case (5 cf cf')
  show ?case by (rule traces_mono [OF traces_tunnel_sync]) (auto dest: sync_run_creates)
next
  case (7 cf)
  show ?case by (rule traces_mono [OF traces_tunnel_sync]) (auto dest: sync_run_creates)
qed simp_all

fun shows_no_id :: "event \<Rightarrow> bool" where
  "shows_no_id (K_GetCloudflareTunnel _ (Ok cf)) = (cft_TunnelID cf = '''')"
| "shows_no_id (K_UpdateCloudflareTunnel _ (Ok cf)) = (cft_TunnelID cf = '''')"
| "shows_no_id _ = False"

context opaque_manager
begin

lemma sync_no_create:
  fixes r :: "'s reconciler"
  assumes "r_Manager r = mgr" and "cft_TunnelID cf \<noteq> ''''"
  shows "always (list_all (\<lambda>e. \<not> is_create e)) (tunnel_sync r cf)"
  by (rule always_tunnel_sync [OF _ reconcileTunnel_no_create [OF assms]])
    (auto simp: kube_parts_def closed_list_all elim: is_kube_call.elims)

lemma Reconcile_creates_for_no_id:
  fixes r :: "'s reconciler"
  assumes mgr: "r_Manager r = mgr"
  shows "always (preceded shows_no_id is_create) (tunnel_Reconcile r key)"
proof (rule traces_tunnel_Reconcile, goal_cases)
  case (4 cf)
  show ?case unfolding tunnel_release_def by (auto intro!: trace_intros)
next
  case (5 cf cf')
  show ?case
    by (cases "cft_TunnelID cf' = ''''")
      (auto intro: traces_mono [OF always_sync_True] traces_mono [OF sync_no_create [OF mgr]] preceded_none)
next
  case (7 cf)
  show ?case
    by (cases "cft_TunnelID cf = ''''")
      (auto intro: traces_mono [OF always_sync_True] traces_mono [OF sync_no_create [OF mgr]] preceded_none)
qed auto

end

text \<open>
  For a resource without a tunnel ID, no status is written before a patch (the secret with
  the tunnel's token) succeeded.
\<close>

fun is_applied :: "event \<Rightarrow> bool" where
  "is_applied (K_Patch _ _ (Ok _)) = True"
| "is_applied _ = False"

fun is_status_update :: "event \<Rightarrow> bool" where
  "is_status_update (K_StatusUpdate _ _) = True"
| "is_status_update _ = False"

fun_cases is_status_updateE: "is_status_update e"

lemma tunnel_run_no_status: "tunnel_run cf es r \<Longrightarrow> list_all (\<lambda>e. \<not> is_status_update e) es"
  by (drule tunnel_run_events) (fastforce simp: list_all_iff elim: is_status_updateE is_createE)

lemma traces_status_after_secret:
  assumes id: "cft_TunnelID cf = ''''" and lib: "typed_helpers (r_Lib r)"
  shows "always (preceded is_applied is_status_update) (tunnel_sync r cf)"
  unfolding tunnel_sync_def fail_without_id [OF id]
proof (rule traces_handle [OF traces_reconcileTunnel], goal_cases)
  case (1 v a)
  let ?rest = "\<lambda>secretName. handle (StatusUpdate r (with_tunnel cf (fst v)))
    (\<lambda>e. retE (zero_Result, Some (Errorf_w ''failed to update CloudflareTunnel status'' e)))
    (\<lambda>cf. tunnel_workloads r cf secretName)"
  have secret: "traces (\<lambda>es r'. (\<forall>x. r' = Ok x \<longrightarrow> (\<exists>get tree. es = [get, K_Patch tree apply_options (Ok ())])) \<and>
      list_all (\<lambda>e. \<not> is_status_update e) es) (reconcileSecret r cf (snd v))"
  proof (rule traces_conj)
    show "traces (\<lambda>es r'. \<forall>x. r' = Ok x \<longrightarrow> (\<exists>get tree. es = [get, K_Patch tree apply_options (Ok ())]))
        (reconcileSecret r cf (snd v))"
      by (rule traces_mono [OF traces_reconcileSecret_patches [OF lib]]) blast
    show "always (list_all (\<lambda>e. \<not> is_status_update e)) (reconcileSecret r cf (snd v))"
      by (rule secret.kube_steps) (auto elim: is_kube_read.elims)
  qed
  have rest: "always (\<lambda>_. True) (?rest n)" for n
    by (intro always_handle always_logged always_pure always_workloads kube_parts_True) (simp_all add: kube_parts_True kube_partsD [OF kube_parts_True])
  from tunnel_run_no_status [OF 1] have a: "preceded is_applied is_status_update a" by (rule preceded_none)
  show ?case
    unfolding case_prod_beta
    by (rule traces_handle [OF secret])
      (use a in \<open>auto intro!: traces_retE traces_mono [OF rest] simp: preceded_append preceded_none\<close>)
next
  case (2 e a)
  from tunnel_run_no_status [OF 2] show ?case by (auto intro!: traces_retE preceded_none)
next
  case (3 p a)
  from tunnel_run_no_status [OF 3] show ?case by (rule preceded_none)
qed


text \<open>
  When the token of a tunnel just created for a resource without an ID cannot be had, the run
  ends there: nothing in the cluster records the new tunnel.
\<close>

lemma sync_run_orphan:
  assumes "sync_run cf es" and "cft_TunnelID cf = ''''"
    and "es = pre @ M_CreateTunnel n (Ok t) # M_GetTunnelToken i reply # post" and "\<forall>v. reply \<noteq> Ok v"
  shows "post = []"
proof -
  from assms(1) obtain a b ra where es: "es = a @ b" and a: "tunnel_run cf a ra" and b: "list_all is_kube_call b"
    and last: "(\<forall>v. ra \<noteq> Ok v) \<Longrightarrow> b = []" using assms(2) unfolding sync_run_def by blast
  have nb: "e \<notin> set b" if "\<not> is_kube_call e" for e using b that by (auto simp: list_all_iff)
  have create: "\<not> is_kube_call (M_CreateTunnel n (Ok t))" "\<not> is_kube_call (M_GetTunnelToken i reply)" by simp_all
  from a show ?thesis
    by (cases; use assms(2-4) es last nb [OF create(1)] nb [OF create(2)] in
        \<open>auto simp: to_create_def Cons_eq_append_conv append_eq_Cons_conv\<close>)
qed

end
