(* ===== verification/Webhook.thy ===== *)
theory Webhook
  imports Kubernetes
begin

text \<open>
  \<^verbatim>\<open>internal/webhook/v1beta1/cloudflaretunnel_webhook.go\<close>: the defaulter that maintains the
  label of the default tunnel, and the validator that looks for another default tunnel.
\<close>

section \<open>Definitions\<close>

text \<open>An admission object: a \<^verbatim>\<open>*CloudflareTunnel\<close>, or a value of another type (its name).\<close>

datatype runtime_object = RO_CloudflareTunnel CloudflareTunnel | RO_Other string

definition strconv_FormatBool :: "bool \<Rightarrow> string" where
  "strconv_FormatBool b = (if b then ''true'' else ''false'')"

fun Default :: "runtime_object \<Rightarrow> CloudflareTunnel outcome" where
  "Default (RO_CloudflareTunnel cf) =
     Ok (cf\<lparr>cft_Meta := (cft_Meta cf)\<lparr>om_Labels :=
       map_set_all (om_Labels (cft_Meta cf)) [DefaultLabelKey \<mapsto> strconv_FormatBool (spec_Default (cft_Spec cf))]\<rparr>\<rparr>)"
| "Default (RO_Other t) = Err (NewError (''expected an CloudflareTunnel object but got '' @ t))"

definition defaultSelector :: "(string \<times> string) list" where
  "defaultSelector = [(DefaultLabelKey, ''true'')]"

definition already_exists_warning :: "CloudflareTunnel \<Rightarrow> string" where
  "already_exists_warning cf =
     ''default CloudflareTunnel already exists: '' @ cft_Namespace cf @ ''/'' @ cft_Name cf"

text \<open>Warnings: a nil slice is the empty list.\<close>

definition checkDefaultTunnel :: "'w reconciler \<Rightarrow> CloudflareTunnel \<Rightarrow> ('w state, string list) io" where
  "checkDefaultTunnel v cfTunnel =
     (if \<not> spec_Default (cft_Spec cfTunnel) then retE []
      else bindE (List_CloudflareTunnels v 1 defaultSelector) (\<lambda>defaultCFTunnels.
        if length (cftl_Items defaultCFTunnels) > 0 \<or> cftl_Continue defaultCFTunnels \<noteq> ''''
        then (case cftl_Items defaultCFTunnels of
            [] \<Rightarrow> panicE ''index out of range [0] with length 0''
          | item # _ \<Rightarrow> retE [already_exists_warning item])
        else retE []))"

fun ValidateCreate :: "'w reconciler \<Rightarrow> runtime_object \<Rightarrow> ('w state, string list) io" where
  "ValidateCreate v (RO_CloudflareTunnel cf) = checkDefaultTunnel v cf"
| "ValidateCreate v (RO_Other t) = throwE (NewError (''expected a CloudflareTunnel object but got '' @ t))"

fun ValidateUpdate :: "'w reconciler \<Rightarrow> runtime_object \<Rightarrow> runtime_object \<Rightarrow> ('w state, string list) io" where
  "ValidateUpdate v oldObj (RO_CloudflareTunnel cf) = checkDefaultTunnel v cf"
| "ValidateUpdate v oldObj (RO_Other t) =
     throwE (NewError (''expected a CloudflareTunnel object for the newObj but got '' @ t))"

definition ValidateDelete :: "'w reconciler \<Rightarrow> runtime_object \<Rightarrow> ('w state, string list) io" where
  "ValidateDelete v obj = retE []"

section \<open>The validator\<close>

text \<open>
  Every run on a default tunnel is one list call. It fails only with the error of that call,
  warns when an item is returned, and panics when the list is empty but continues.
\<close>

lemma traces_checkDefaultTunnel:
  assumes "spec_Default (cft_Spec cf)"
  shows "traces (\<lambda>es r. \<exists>reply. es = [K_ListCloudflareTunnels 1 defaultSelector reply] \<and>
     (case reply of
        Ok l \<Rightarrow> r = (case cftl_Items l of
            item # _ \<Rightarrow> Ok [already_exists_warning item]
          | [] \<Rightarrow> if cftl_Continue l \<noteq> '''' then Panic ''index out of range [0] with length 0'' else Ok [])
      | Err e \<Rightarrow> r = Err e
      | Panic p \<Rightarrow> r = Panic p)) (checkDefaultTunnel v cf)"
  using assms unfolding checkDefaultTunnel_def
  by (auto simp: bindE_def intro!: trace_intros split: list.split)

lemma checkDefaultTunnel_not_default:
  "\<not> spec_Default (cft_Spec cf) \<Longrightarrow> checkDefaultTunnel v cf = retE []"
  by (simp add: checkDefaultTunnel_def)

end
