(* ===== verification/Example.thy ===== *)
theory Example
  imports IngressEffects TunnelEvents Webhook
begin

text \<open>
  A concrete environment: an in-memory Cloudflare account and API server with fixed replies
  that fulfil the documented behaviour the properties assume. The examples of the root theory
  run the operator in it.
\<close>

section \<open>An in-memory Cloudflare account\<close>

record cloud =
  cl_zone :: "DNSRecord list"
  cl_config :: "string \<Rightarrow> TunnelConfiguration"

text \<open>A new identifier is longer than all identifiers in use.\<close>

definition fresh_id :: "DNSRecord list \<Rightarrow> string" where
  "fresh_id zone = replicate (Suc (sum_list (map (\<lambda>r. length (rec_ID r)) zone))) (CHR ''r'')"

definition mem_api :: "cloud cf_api" where
  "mem_api = \<lparr>
     api_CreateTunnel = (\<lambda>rc p w. (Ok \<lparr>cft_tunnel_ID = tcp_Name p, cft_tunnel_Name = tcp_Name p\<rparr>, w)),
     api_DeleteTunnel = (\<lambda>rc i w. (Ok (), w)),
     api_GetTunnelToken = (\<lambda>rc i w. (if i = ''gone'' then Err (ForeignError ''not found'') else Ok (''token-'' @ i), w)),
     api_GetTunnel = (\<lambda>rc i w. (Ok \<lparr>cft_tunnel_ID = i, cft_tunnel_Name = i\<rparr>, w)),
     api_GetTunnelConfiguration = (\<lambda>rc i w. (Ok (cl_config w i), w)),
     api_UpdateTunnelConfiguration = (\<lambda>rc i c w. (Ok (), w\<lparr>cl_config := (cl_config w)(i := c)\<rparr>)),
     api_CreateDNSRecord = (\<lambda>rc p w. (Ok (), w\<lparr>cl_zone := cl_zone w @ [with_params p (fresh_id (cl_zone w))]\<rparr>)),
     api_ListDNSRecords = (\<lambda>rc p w. (Ok (filter (listed p) (cl_zone w)), w)),
     api_UpdateDNSRecord = (\<lambda>rc p w. (Ok (), w\<lparr>cl_zone :=
       map (\<lambda>r. if rec_ID r = drp_ID p then with_params p (drp_ID p) else r) (cl_zone w)\<rparr>)),
     api_DeleteDNSRecord = (\<lambda>rc i w. (Ok (), w\<lparr>cl_zone := filter (\<lambda>r. rec_ID r \<noteq> i) (cl_zone w)\<rparr>))\<rparr>"

definition mem_client :: "cloud CloudflareTunnelClient" where
  "mem_client = \<lparr>c_client = mem_api, c_accountId = ''account'', c_zoneID = ''zone'',
     c_random = dummy_SecureString\<rparr>"

lemma fresh_id_new: "fresh_id zone \<noteq> ''''" "fresh_id zone \<notin> rec_ID ` set zone"
proof -
  show "fresh_id zone \<noteq> ''''" by (simp add: fresh_id_def)
  have "length (rec_ID r) < length (fresh_id zone)" if "r \<in> set zone" for r
    using member_le_sum_list [of "length (rec_ID r)" "map (\<lambda>r. length (rec_ID r)) zone"] that
    by (simp add: fresh_id_def)
  then show "fresh_id zone \<notin> rec_ID ` set zone" by fastforce
qed

lemma mem_client_documented: "documented_service mem_client cl_zone cl_config"
  using fresh_id_new
  by (auto simp: documented_service_def dns_service_def tunnel_service_def mem_client_def mem_api_def)

section \<open>Helper libraries\<close>

definition set_condition :: "Condition list \<Rightarrow> Condition \<Rightarrow> Condition list" where
  "set_condition cs c = (if cond_Type c \<in> cond_Type ` set cs
     then map (\<lambda>d. if cond_Type d = cond_Type c then c else d) cs else cs @ [c])"

definition empty_service_apply :: ServiceApply where
  "empty_service_apply = \<lparr>sva_Name = '''', sva_Namespace = '''', sva_Labels = Map.empty,
     sva_OwnerReferences = [], sva_Ports = [], sva_Selector = Map.empty, sva_Type = ''''\<rparr>"

definition mem_lib :: k8s_lib where
  "mem_lib = \<lparr>
     ContainsFinalizer = (\<lambda>m f. f \<in> set (om_Finalizers m)),
     AddFinalizer = (\<lambda>m f. m\<lparr>om_Finalizers := om_Finalizers m @ [f]\<rparr>),
     RemoveFinalizer = (\<lambda>m f. m\<lparr>om_Finalizers := filter (\<lambda>x. x \<noteq> f) (om_Finalizers m)\<rparr>),
     SetStatusCondition = set_condition,
     GVKForObject = (\<lambda>cf. Ok (''cf-tunnel-operator.walnuts.dev/v1beta1'', ''CloudflareTunnel'')),
     SetControllerReference = (\<lambda>cf m. Ok (m\<lparr>om_OwnerReferences := [JString (cft_Name cf)]\<rparr>)),
     ToUnstructured = (\<lambda>a. Ok (JString (case a of AC_Secret _ \<Rightarrow> ''Secret'' | AC_Service _ \<Rightarrow> ''Service''
       | AC_Deployment _ \<Rightarrow> ''Deployment''))),
     ExtractService = (\<lambda>svc m. Ok (AC_Service empty_service_apply)),
     ExtractDeployment = (\<lambda>dep m. Ok (AC_Service empty_service_apply)),
     DeepEqual = (\<lambda>a b. case (a, b) of (AC_Service x, AC_Service y) \<Rightarrow> sva_Name x = sva_Name y | _ \<Rightarrow> False)\<rparr>"

lemma mem_lib_finalizers: "finalizer_helpers mem_lib"
  by (simp add: finalizer_helpers_def mem_lib_def)

lemma mem_lib_typed: "typed_helpers mem_lib"
  by (simp add: typed_helpers_def mem_lib_def)

lemma find_replaced: "find (\<lambda>d. cond_Type d = t) (map (\<lambda>d. if cond_Type d = cond_Type c then c else d) cs) =
    (if t = cond_Type c then (if t \<in> cond_Type ` set cs then Some c else None)
     else find (\<lambda>d. cond_Type d = t) cs)"
  by (induction cs) auto

lemma mem_lib_conditions: "condition_helper mem_lib"
proof -
  have "find_condition (set_condition cs c) t = (if t = cond_Type c
      then Some (cond_Status c, cond_Reason c, cond_Message c) else find_condition cs t)" for cs c t
  proof (cases "cond_Type c \<in> cond_Type ` set cs")
    case True
    then show ?thesis by (auto simp: find_condition_def set_condition_def find_replaced)
  next
    case False
    then have "find (\<lambda>d. cond_Type d = cond_Type c) cs = None" 
      unfolding find_None_iff by (metis image_eqI)
    with False show ?thesis
      by (auto simp: find_condition_def set_condition_def find_append_last split: option.split)
  qed
  then show ?thesis by (simp add: condition_helper_def mem_lib_def)
qed

section \<open>An API server with fixed replies\<close>

text \<open>The API server of a reconciler on the client's state.\<close>

definition mem_k8s :: "CloudflareTunnel \<Rightarrow> Ingress \<Rightarrow> Secret outcome \<Rightarrow> 's k8s_client" where
  "mem_k8s cf ing secret = \<lparr>
     k_Get_CloudflareTunnel = (\<lambda>key w. (Ok cf, w)),
     k_Get_Ingress = (\<lambda>key w. (Ok ing, w)),
     k_Get_Secret = (\<lambda>key w. (secret, w)),
     k_Get_Service = (\<lambda>key w. (Err (StatusError ''NotFound''), w)),
     k_Get_Deployment = (\<lambda>key w. (Ok (zero_deployment\<lparr>dep_AvailableReplicas := 1\<rparr>), w)),
     k_List_CloudflareTunnels = (\<lambda>limit sel w. (Ok \<lparr>cftl_Continue = '''', cftl_Items = [cf]\<rparr>, w)),
     k_Update_CloudflareTunnel = (\<lambda>obj w. (Ok obj, w)),
     k_Update_Ingress = (\<lambda>obj w. (Ok obj, w)),
     k_StatusUpdate_CloudflareTunnel = (\<lambda>obj w. (Ok obj, w)),
     k_Patch_Apply = (\<lambda>obj opts w. (Ok (), w)),
     k_CreateOrUpdate_ServiceMonitor = (\<lambda>sm f w. (map_outcome (\<lambda>_. OperationResultCreated) (f sm), w)),
     k_CreateOrUpdate_PDB = (\<lambda>pdb f w. (map_outcome (\<lambda>_. OperationResultCreated) (f pdb), w))\<rparr>"

definition mem_reconciler :: "CloudflareTunnel \<Rightarrow> Ingress \<Rightarrow> Secret outcome \<Rightarrow> cloud client_state reconciler" where
  "mem_reconciler cf ing secret = \<lparr>r_Client = mem_k8s cf ing secret, r_Manager = client_manager mem_client,
     r_Lib = mem_lib, r_MapValues = (\<lambda>rs. rs)\<rparr>"

lemma mem_reconciler_parts [simp]:
  "r_Manager (mem_reconciler cf ing secret) = client_manager mem_client"
  "r_Lib (mem_reconciler cf ing secret) = mem_lib"
  "enumerates (r_MapValues (mem_reconciler cf ing secret))"
  by (simp_all add: mem_reconciler_def enumerates_def)

section \<open>Sample objects\<close>

definition sample_settings :: CloudflareTunnelSettings where
  "sample_settings = \<lparr>NameOverride = '''', CatchAllRule = ''http_status:404'', CAPool = None, NoTLSVerify = False,
     TLSTimeoutSeconds = 10, HTTP2Origin = False, DisableChunkedEncoding = False, ConnectTimeoutSeconds = 30,
     NoHappyEyeballs = False, ProxyType = '''', KeepAliveTimeoutSeconds = 90, KeepAliveConnections = 100\<rparr>"

definition sample_spec :: CloudflareTunnelSpec where
  "sample_spec = \<lparr>spec_Default = True, spec_Replicas = 1,
     spec_Resources = \<lparr>rr_Limits = None, rr_Requests = None\<rparr>, spec_ImagePullSecrets = [], spec_Image = '''',
     spec_ArgsOverride = None, spec_ExtraEnv = [], spec_NodeSelector = None, spec_Tolerations = [],
     spec_TopologySpreadConstraints = None, spec_Affinity = None, spec_EnableServiceMonitor = False,
     spec_PodDisruptionBudget = None, spec_Settings = sample_settings, spec_PodSecurityContext = None,
     spec_SecurityContext = None\<rparr>"

definition sample_meta :: "string list \<Rightarrow> string option \<Rightarrow> ObjectMeta" where
  "sample_meta finalizers deleted = zero_meta\<lparr>om_Name := ''sample'', om_Namespace := ''default'',
     om_Finalizers := finalizers, om_DeletionTimestamp := deleted\<rparr>"

definition sample_tunnel :: "string \<Rightarrow> CloudflareTunnel" where
  "sample_tunnel i = \<lparr>cft_Meta = sample_meta [finalizerName] None, cft_Spec = sample_spec,
     cft_Status = \<lparr>st_Replicas = 0, st_TunnelName = ''sample'', st_TunnelID = i, st_Conditions = []\<rparr>\<rparr>"

definition sample_ingress :: "string option \<Rightarrow> Ingress" where
  "sample_ingress deleted = \<lparr>ing_Meta = (sample_meta [finalizerName] deleted)\<lparr>om_Annotations :=
       Some [cfTunnelAnnotation \<mapsto> ''default/sample'']\<rparr>,
     ing_Rules = [''a.example.com''], ing_TLS = [[''a.example.com'']], ing_LoadBalancerIPs = [''10.0.0.1''],
     ing_Rest = JNull\<rparr>"

definition sample_record :: DNSRecord where
  "sample_record = \<lparr>rec_ID = ''r'', rec_Type = ''CNAME'', rec_Name = ''a.example.com'',
     rec_Content = ''elsewhere.example.com'', rec_Proxied = Some True, rec_TTL = 1, rec_Comment = ''''\<rparr>"

definition empty_config :: TunnelConfiguration where
  "empty_config = \<lparr>tc_Ingress = [], tc_WarpRouting = JNull, tc_OriginRequest = JNull\<rparr>"

definition sample_state :: "cloud client_state state" where
  "sample_state = \<lparr>world = \<lparr>world = \<lparr>cl_zone = [sample_record], cl_config = (\<lambda>_. empty_config)\<rparr>, trace = []\<rparr>,
     trace = []\<rparr>"

definition sample_key :: NamespacedName where
  "sample_key = \<lparr>nn_Namespace = ''default'', nn_Name = ''sample''\<rparr>"

definition no_secret :: "Secret outcome" where
  "no_secret = Err (StatusError ''NotFound'')"

section \<open>Runs of the sample environment\<close>

lemmas run_defs = io_defs liftO_def logged_def emit_def Let_def with_lock_def

lemmas mem_defs = mem_reconciler_def mem_k8s_def mem_client_def mem_api_def client_manager_def

lemmas client_defs = client_GetTunnelConfiguration_def client_UpdateTunnelConfiguration_def
  client_GetDNS_def client_AddDNS_def client_UpdateDNS_def client_DeleteDNS_def
  json_Marshal_DNSComment_def

lemmas annotation_defs = cfTunnelAnnotation_def ignoreAnnotation_def annotationPrefix_def
  detectCloudflareTunnelName_def checkToBeIgnored_def map_index_def map_get_def strings_Split_def

lemma sample_ip: "ParseAddr ''10.0.0.1'' = Ok (Addr4 10 0 0 1)"
  by code_simp

lemma sample_hosts: "getHosts (sample_ingress d) = [\<lparr>h_Host = ''a.example.com'', h_TLS = True\<rparr>]"
  by (simp add: getHosts_def sample_ingress_def checkTLS_def)

lemma sample_name: "detectCloudflareTunnelName (om_Annotations (ing_Meta (sample_ingress d))) = Ok sample_key"
  by (simp add: sample_ingress_def annotation_defs sample_key_def Let_def)

lemma sample_shown: "\<not> checkToBeIgnored (om_Annotations (ing_Meta (sample_ingress d)))"
  by (simp add: sample_ingress_def annotation_defs)

text \<open>In this account every operation of the ingress reconciler succeeds, unless a record has no proxy flag.\<close>

definition proxy_known :: "cloud client_state state \<Rightarrow> bool" where
  "proxy_known s \<longleftrightarrow> (\<forall>r \<in> set (cl_zone (world (world s))). rec_Proxied r \<noteq> None)"

lemma mem_lookup: "getCloudflareTunnel (mem_reconciler cf ing secret) sample_key s =
    (Ok cf, s\<lparr>trace := trace s @ [K_GetCloudflareTunnel sample_key (Ok cf)]\<rparr>)"
  by (simp add: getCloudflareTunnel_def sample_key_def run_defs mem_defs)

lemma mem_state_cases:
  obtains c a b where "(s :: cloud client_state state) = \<lparr>world = \<lparr>world = c, trace = a\<rparr>, trace = b\<rparr>"
  by (metis (full_types) sys.surjective old.unit.exhaust)

lemma mem_appendConfig: "\<exists>s'. appendCloudflareTunnelConfig (mem_reconciler cf ing secret) t hosts ip ts s = (Ok (), s')
    \<and> cl_zone (world (world s')) = cl_zone (world (world s))"
  by (cases s rule: mem_state_cases) (simp add: appendCloudflareTunnelConfig_def run_defs mem_defs client_defs)

lemma mem_removeConfig: "\<exists>s'. removeCloudflareTunnelConfig (mem_reconciler cf ing secret) t hosts ts s = (Ok (), s')
    \<and> cl_zone (world (world s')) = cl_zone (world (world s))"
  by (cases s rule: mem_state_cases) (simp add: removeCloudflareTunnelConfig_def run_defs mem_defs client_defs)

lemma mem_appendDNS:
  assumes "proxy_known s"
  shows "\<exists>s'. appendDNSRecord (mem_reconciler cf ing secret) t h s = (Ok (), s') \<and> proxy_known s'"
proof (cases "filter (listed \<lparr>ldp_Type = ''CNAME'', ldp_Name = h_Host h, ldp_Comment = ''''\<rparr>)
    (cl_zone (world (world s)))")
  case Nil
  with assms show ?thesis
    by (cases s rule: mem_state_cases)
      (auto simp: appendDNSRecord_def run_defs mem_defs client_defs zero_DNSRecord_def proxy_known_def with_params_def)
next
  case (Cons r rs)
  with assms have "rec_Proxied r \<noteq> None"
    unfolding proxy_known_def by (metis filter_eq_ConsD)
  then have "\<exists>b. Healthy r t = Ok b" by (auto simp: Healthy_def)
  then obtain b where "Healthy r t = Ok b" ..
  with Cons assms show ?thesis
    by (cases s rule: mem_state_cases; cases b; cases "rec_ID r = ''''")
      (auto simp: appendDNSRecord_def run_defs mem_defs client_defs proxy_known_def with_params_def)
qed

lemma mem_removeDNS: "\<exists>s'. removeDNSRecord (mem_reconciler cf ing secret) t h s = (Ok (), s')"
  by (cases s rule: mem_state_cases; cases "filter (listed \<lparr>ldp_Type = ''CNAME'', ldp_Name = h_Host h,
      ldp_Comment = ''''\<rparr>) (cl_zone (world (world s)))")
    (simp_all add: removeDNSRecord_def run_defs mem_defs client_defs zero_DNSRecord_def)

lemma sample_proxy_known: "proxy_known (sample_state\<lparr>trace := es\<rparr>)"
  by (simp add: proxy_known_def sample_state_def sample_record_def)

lemma mem_sync:
  assumes "proxy_known s"
  shows "\<exists>s'. ingress_sync (mem_reconciler (sample_tunnel ''t'') (sample_ingress None) secret) (sample_ingress None) s
    = (Ok zero_Result, s') \<and> proxy_known s'"
proof -
  let ?r = "mem_reconciler (sample_tunnel ''t'') (sample_ingress None) secret"
  let ?ts = "spec_Settings (cft_Spec (sample_tunnel ''t''))"
  let ?h = "\<lparr>h_Host = ''a.example.com'', h_TLS = True\<rparr>"
  define s1 where "s1 = s\<lparr>trace := trace s @ [K_GetCloudflareTunnel sample_key (Ok (sample_tunnel ''t''))]\<rparr>"
  obtain s2 where s2: "appendCloudflareTunnelConfig ?r ''t'' [?h] (Addr4 10 0 0 1) ?ts s1 = (Ok (), s2)"
    "cl_zone (world (world s2)) = cl_zone (world (world s1))" using mem_appendConfig by blast
  have "world s1 = world s" by (cases s) (simp add: s1_def)
  then have "proxy_known s1" using assms by (simp add: proxy_known_def)
  with s2(2) have "proxy_known s2" by (simp add: proxy_known_def)
  then obtain s3 where s3: "appendDNSRecord ?r ''t'' ?h s2 = (Ok (), s3)" "proxy_known s3" using mem_appendDNS by blast
  have tunnel: "om_DeletionTimestamp (cft_Meta (sample_tunnel ''t'')) = None" "cft_TunnelID (sample_tunnel ''t'') = ''t''"
    and ips: "ing_LoadBalancerIPs (sample_ingress None) = [''10.0.0.1'']"
    by (simp_all add: sample_tunnel_def sample_meta_def zero_meta_def sample_ingress_def)
  have "ingress_sync ?r (sample_ingress None) s = (Ok zero_Result, s3)"
    using s2(1) s3(1) sample_shown [of None]
    by (simp add: ingress_sync_def sample_name mem_lookup tunnel ips sample_ip sample_hosts Let_def
        bindE_def wrapW_def handle_def liftO_def retE_def s1_def)
  with s3(2) show ?thesis by blast
qed

lemma sample_publish_run:
  "\<exists>s'. ingress_Reconcile (mem_reconciler (sample_tunnel ''t'') (sample_ingress None) secret) sample_key sample_state
    = (Ok zero_Result, s')"
proof -
  let ?r = "mem_reconciler (sample_tunnel ''t'') (sample_ingress None) secret"
  let ?s = "sample_state\<lparr>trace := [K_GetIngress sample_key (Ok (sample_ingress None))]\<rparr>"
  have get: "Get_Ingress ?r sample_key sample_state = (Ok (sample_ingress None), ?s)"
    by (simp add: logged_def mem_defs sample_state_def)
  have meta: "ContainsFinalizer (r_Lib ?r) (ing_Meta (sample_ingress None)) finalizerName"
    "om_DeletionTimestamp (ing_Meta (sample_ingress None)) = None"
    by (simp_all add: mem_lib_def sample_ingress_def sample_meta_def zero_meta_def)
  from mem_sync [OF sample_proxy_known]
  show ?thesis using get meta by (fastforce simp: ingress_Reconcile_def handle_def)
qed

lemma sample_finalize_run:
  "\<exists>s'. finalizeIngress (mem_reconciler (sample_tunnel ''t'') (sample_ingress d) secret) (sample_ingress d) sample_state
    = (Ok (), s')"
proof -
  let ?r = "mem_reconciler (sample_tunnel ''t'') (sample_ingress d) secret"
  let ?ts = "spec_Settings (cft_Spec (sample_tunnel ''t''))"
  let ?h = "\<lparr>h_Host = ''a.example.com'', h_TLS = True\<rparr>"
  define s1 where "s1 = sample_state\<lparr>trace := trace sample_state @
    [K_GetCloudflareTunnel sample_key (Ok (sample_tunnel ''t''))]\<rparr>"
  obtain s2 where s2: "removeCloudflareTunnelConfig ?r ''t'' [?h] ?ts s1 = (Ok (), s2)" using mem_removeConfig by blast
  obtain s3 where s3: "removeDNSRecord ?r ''t'' ?h s2 = (Ok (), s3)" using mem_removeDNS by blast
  have tunnel: "om_DeletionTimestamp (cft_Meta (sample_tunnel ''t'')) = None" "cft_TunnelID (sample_tunnel ''t'') = ''t''"
    by (simp_all add: sample_tunnel_def sample_meta_def zero_meta_def)
  have "finalizeIngress ?r (sample_ingress d) sample_state = (Ok (), s3)"
    using s2 s3
    by (simp add: finalizeIngress_def sample_name mem_lookup tunnel sample_hosts Let_def
        bindE_def wrapW_def handle_def liftO_def retE_def s1_def)
  then show ?thesis by blast
qed

text \<open>A tunnel resource without an ID whose tunnel is created under the name \<open>gone\<close>, which has no token.\<close>

definition orphan_tunnel :: CloudflareTunnel where
  "orphan_tunnel = (sample_tunnel '''')\<lparr>cft_Spec := sample_spec\<lparr>spec_Settings :=
     sample_settings\<lparr>NameOverride := ''gone''\<rparr>\<rparr>\<rparr>"

lemma orphan_id: "cft_TunnelID orphan_tunnel = ''''"
  by (simp add: orphan_tunnel_def sample_tunnel_def)

lemma orphan_run:
  "events_of (tunnel_sync (mem_reconciler orphan_tunnel (sample_ingress None) no_secret) orphan_tunnel) sample_state =
     [K_GetSecret (cft_Key orphan_tunnel) no_secret] @
     M_CreateTunnel ''gone'' (Ok \<lparr>cft_tunnel_ID = ''gone'', cft_tunnel_Name = ''gone''\<rparr>) #
     M_GetTunnelToken ''gone'' (Err (Errorf_v ''failed to get tunnel token'' (ForeignError ''not found''))) # []"
proof -
  have "tunnel_name orphan_tunnel = ''gone''" by (simp add: tunnel_name_def orphan_tunnel_def)
  then show ?thesis
    unfolding tunnel_sync_def fail_without_id [OF orphan_id]
    by (simp add: events_of_def reconcileTunnel_def createTunnel_def orphan_id
        run_defs mem_defs no_secret_def client_CreateTunnel_def client_GetTunnelToken_def dummy_SecureString_def
        map_index_zero_secret sample_state_def)
qed

end
