(* ===== verification/Concurrent.thy ===== *)
theory Concurrent
  imports IngressEffects
begin

text \<open>
  Several ingress reconciliations at once. The mutex \<^verbatim>\<open>r.mu\<close> of
  \<^verbatim>\<open>internal/controller/ingress_watcher.go\<close> is taken by the four functions that touch
  Cloudflare; here each of them is cut into the steps between which another goroutine may run
  (lock, the reading call, the writing call, unlock), a pool of threads executes such
  sections in any order, and the pool is shown to be equivalent to running the functions of
  \<^verbatim>\<open>IngressReconciler\<close> one after the other.
\<close>

section \<open>The sections and their steps\<close>

datatype operation =
    AppendConfig string "host list" Addr CloudflareTunnelSettings
  | RemoveConfig string "host list" CloudflareTunnelSettings
  | AppendDNS string host
  | RemoveDNS string host

fun run_operation :: "'w reconciler \<Rightarrow> operation \<Rightarrow> ('w state, unit) io" where
  "run_operation r (AppendConfig t hosts ip ts) = appendCloudflareTunnelConfig r t hosts ip ts"
| "run_operation r (RemoveConfig t hosts ts) = removeCloudflareTunnelConfig r t hosts ts"
| "run_operation r (AppendDNS t h) = appendDNSRecord r t h"
| "run_operation r (RemoveDNS t h) = removeDNSRecord r t h"

text \<open>What a section keeps in a local variable between its two calls.\<close>

datatype seen = SeenConfig TunnelConfiguration | SeenRecord DNSRecord

fun read_of :: "'w reconciler \<Rightarrow> operation \<Rightarrow> ('w state, seen) io" where
  "read_of r (AppendConfig t hosts ip ts) =
     bindE (wrapV ''failed to get tunnel configs'' (call_GetTunnelConfiguration r t)) (\<lambda>c. retE (SeenConfig c))"
| "read_of r (RemoveConfig t hosts ts) =
     bindE (wrapV ''failed to get tunnel configs'' (call_GetTunnelConfiguration r t)) (\<lambda>c. retE (SeenConfig c))"
| "read_of r (AppendDNS t h) =
     bindE (wrapV ''failed to get DNS record'' (call_GetDNS r t (h_Host h))) (\<lambda>d. retE (SeenRecord d))"
| "read_of r (RemoveDNS t h) =
     bindE (wrapV ''failed to get DNS record'' (call_GetDNS r t (h_Host h))) (\<lambda>d. retE (SeenRecord d))"

fun write_of :: "'w reconciler \<Rightarrow> operation \<Rightarrow> seen \<Rightarrow> ('w state, unit) io" where
  "write_of r (AppendConfig t hosts ip ts) (SeenConfig config) =
     wrapV ''failed to update tunnel configs''
       (call_UpdateTunnelConfiguration r t (appended_config (r_MapValues r) ts ip hosts config))"
| "write_of r (RemoveConfig t hosts ts) (SeenConfig config) =
     wrapV ''failed to update tunnel configs''
       (call_UpdateTunnelConfiguration r t (removed_config (r_MapValues r) ts hosts config))"
| "write_of r (AppendDNS t h) (SeenRecord record) =
     (if rec_ID record = '''' then wrapV ''failed to add DNS record'' (call_AddDNS r t (h_Host h))
      else bindE (liftO (Healthy record t)) (\<lambda>healthy.
        if \<not> healthy then wrapV ''failed to update DNS record'' (call_UpdateDNS r t (h_Host h) record)
        else retE ()))"
| "write_of r (RemoveDNS t h) (SeenRecord record) =
     (if rec_ID record = '''' then retE ()
      else wrapV ''failed to delete DNS record'' (call_DeleteDNS r t (rec_ID record)))"
| "write_of r _ _ = retE ()"

declare bindE_retE [simp]

text \<open>The steps of a section, taken together under the lock, are the function of the code.\<close>

lemma run_operation_steps: "run_operation r sec = with_lock (bindE (read_of r sec) (write_of r sec))"
  by (cases sec) (simp_all add: bindE_assoc appendCloudflareTunnelConfig_def removeCloudflareTunnelConfig_def
      appendDNSRecord_def removeDNSRecord_def)

section \<open>The pool\<close>

text \<open>
  A thread is at one of four points of its current section, the head of \<open>th_Todo\<close>. A section
  that fails ends the reconciliation: its error is returned and the rest is skipped.
\<close>

datatype point = AtLock | AtRead | AtWrite seen | AtUnlock "unit outcome"

record thread =
  th_Point :: point
  th_Todo :: "operation list"
  th_Result :: "unit outcome"

record 'w pool =
  p_Sys :: "'w state"
  p_Mutex :: "nat option"
  p_Threads :: "thread list"

definition fresh_thread :: "operation list \<Rightarrow> thread" where
  "fresh_thread secs = \<lparr>th_Point = AtLock, th_Todo = secs, th_Result = Ok ()\<rparr>"

definition start_pool :: "'w state \<Rightarrow> operation list list \<Rightarrow> 'w pool" where
  "start_pool s progs = \<lparr>p_Sys = s, p_Mutex = None, p_Threads = map fresh_thread progs\<rparr>"

definition after_read :: "seen outcome \<Rightarrow> point" where
  "after_read out = (case out of Ok v \<Rightarrow> AtWrite v | Err e \<Rightarrow> AtUnlock (Err e) | Panic p \<Rightarrow> AtUnlock (Panic p))"

definition log_event :: "event \<Rightarrow> 'w state \<Rightarrow> 'w state" where
  "log_event e s = s\<lparr>trace := trace s @ [e]\<rparr>"

text \<open>
  One step of thread \<open>i\<close>, or \<open>None\<close> when it has finished or waits for the mutex. With
  \<open>mutex = False\<close> the lock does not exclude. The label says which section was entered.
\<close>

definition pool_step :: "bool \<Rightarrow> 'w reconciler \<Rightarrow> nat \<Rightarrow> 'w pool \<Rightarrow> ((nat \<times> operation) list \<times> 'w pool) option" where
  "pool_step mutex r i p =
     (if i \<ge> length (p_Threads p) then None
      else let th = p_Threads p ! i; s = p_Sys p in
      case th_Todo th of
        [] \<Rightarrow> None
      | sec # rest \<Rightarrow> (case th_Point th of
          AtLock \<Rightarrow> if mutex \<and> p_Mutex p \<noteq> None then None
            else Some ([(i, sec)], p\<lparr>p_Sys := log_event Lock s, p_Mutex := Some i,
              p_Threads := (p_Threads p)[i := th\<lparr>th_Point := AtRead\<rparr>]\<rparr>)
        | AtRead \<Rightarrow> (case read_of r sec s of (out, s') \<Rightarrow>
            Some ([], p\<lparr>p_Sys := s', p_Threads := (p_Threads p)[i := th\<lparr>th_Point := after_read out\<rparr>]\<rparr>))
        | AtWrite v \<Rightarrow> (case write_of r sec v s of (out, s') \<Rightarrow>
            Some ([], p\<lparr>p_Sys := s', p_Threads := (p_Threads p)[i := th\<lparr>th_Point := AtUnlock out\<rparr>]\<rparr>))
        | AtUnlock out \<Rightarrow> Some ([], p\<lparr>p_Sys := log_event Unlock s, p_Mutex := None,
            p_Threads := (p_Threads p)[i := \<lparr>th_Point = AtLock,
              th_Todo = (if out = Ok () then rest else []), th_Result = out\<rparr>]\<rparr>)))"

inductive pool_reach :: "bool \<Rightarrow> 'w reconciler \<Rightarrow> 'w pool \<Rightarrow> (nat \<times> operation) list \<Rightarrow> 'w pool \<Rightarrow> bool"
  for mutex r p0 where
  start: "pool_reach mutex r p0 [] p0"
| step: "pool_reach mutex r p0 es p \<Longrightarrow> pool_step mutex r i p = Some (es', p') \<Longrightarrow>
    pool_reach mutex r p0 (es @ es') p'"

definition finished :: "'w pool \<Rightarrow> bool" where
  "finished p \<longleftrightarrow> (\<forall>th \<in> set (p_Threads p). th_Todo th = [])"

text \<open>The same sections one after the other, with what each returned.\<close>

fun serial :: "'w reconciler \<Rightarrow> (nat \<times> operation) list \<Rightarrow> 'w state \<Rightarrow> (nat \<times> unit outcome) list \<times> 'w state" where
  "serial r [] s = ([], s)"
| "serial r ((i, sec) # es) s = (case run_operation r sec s of (out, s1) \<Rightarrow>
     case serial r es s1 of (outs, s2) \<Rightarrow> ((i, out) # outs, s2))"

lemma serial_append: "serial r (es @ es') s = (case serial r es s of (outs, s1) \<Rightarrow>
    case serial r es' s1 of (outs', s2) \<Rightarrow> (outs @ outs', s2))"
  by (induction es arbitrary: s) (auto split: prod.splits)

lemma serial_snoc: "serial r (es @ [(i, sec)]) s =
    (fst (serial r es s) @ [(i, fst (run_operation r sec (snd (serial r es s))))],
     snd (run_operation r sec (snd (serial r es s))))"
  by (simp add: serial_append case_prod_beta)

lemma serial_owners: "map fst (fst (serial r es s)) = map fst es"
  by (induction es rule: rev_induct) (auto simp: serial_snoc)

lemma serial_owner: "(i, out) \<in> set (fst (serial r es s)) \<Longrightarrow> \<exists>sec. (i, sec) \<in> set es"
  using serial_owners [of r es s] by (metis (no_types, opaque_lifting) fst_conv imageE image_eqI list.set_map surj_pair)

definition taken :: "nat \<Rightarrow> (nat \<times> operation) list \<Rightarrow> operation list" where
  "taken i es = map snd (filter (\<lambda>e. fst e = i) es)"

lemma taken_simps [simp]: "taken i [] = []" "taken i (es @ es') = taken i es @ taken i es'"
    "taken i [(j, sec)] = (if j = i then [sec] else [])"
  by (simp_all add: taken_def)

section \<open>The invariant\<close>

text \<open>Where the thread that holds the mutex is, from the state in which it took it.\<close>

fun at_point :: "'w reconciler \<Rightarrow> operation \<Rightarrow> point \<Rightarrow> 'w state \<Rightarrow> 'w state \<Rightarrow> bool" where
  "at_point r sec AtLock s1 s = False"
| "at_point r sec AtRead s1 s = (s = s1)"
| "at_point r sec (AtWrite v) s1 s = (read_of r sec s1 = (Ok v, s))"
| "at_point r sec (AtUnlock out) s1 s = (bindE (read_of r sec) (write_of r sec) s1 = (out, s))"

definition thread_inv :: "operation list \<Rightarrow> (nat \<times> operation) list \<Rightarrow> nat option \<Rightarrow> nat \<Rightarrow> thread \<Rightarrow> bool" where
  "thread_inv prog es mutex i th \<longleftrightarrow>
     (th_Point th \<noteq> AtLock \<longleftrightarrow> mutex = Some i) \<and>
     (if th_Point th = AtLock
      then (if th_Result th = Ok () then prog = taken i es @ th_Todo th
            else th_Todo th = [] \<and> (\<exists>rest. prog = taken i es @ rest))
      else th_Result th = Ok () \<and> th_Todo th \<noteq> [] \<and> prog = taken i es @ tl (th_Todo th))"

text \<open>A thread whose result is a success has returned no error from any section.\<close>

definition outs_ok :: "thread list \<Rightarrow> (nat \<times> unit outcome) list \<Rightarrow> bool" where
  "outs_ok ths outs \<longleftrightarrow> (\<forall>(i, out) \<in> set outs. th_Result (ths ! i) = Ok () \<longrightarrow> out = Ok ())"

definition sys_inv :: "'w reconciler \<Rightarrow> 'w state \<Rightarrow> (nat \<times> operation) list \<Rightarrow> 'w pool \<Rightarrow> bool" where
  "sys_inv r s0 es p \<longleftrightarrow> (case p_Mutex p of
      None \<Rightarrow> p_Sys p = snd (serial r es s0) \<and>
        outs_ok (p_Threads p) (fst (serial r es s0))
    | Some i \<Rightarrow> i < length (p_Threads p) \<and> (\<exists>es0 sec. es = es0 @ [(i, sec)] \<and> hd (th_Todo (p_Threads p ! i)) = sec \<and>
        at_point r sec (th_Point (p_Threads p ! i)) (log_event Lock (snd (serial r es0 s0))) (p_Sys p) \<and>
        outs_ok (p_Threads p) (fst (serial r es0 s0))))"

definition pool_inv :: "'w reconciler \<Rightarrow> 'w state \<Rightarrow> operation list list \<Rightarrow> (nat \<times> operation) list \<Rightarrow> 'w pool \<Rightarrow> bool" where
  "pool_inv r s0 progs es p \<longleftrightarrow> length (p_Threads p) = length progs \<and>
     (\<forall>i < length progs. thread_inv (progs ! i) es (p_Mutex p) i (p_Threads p ! i)) \<and>
     sys_inv r s0 es p \<and> (\<forall>e \<in> set es. fst e < length progs)"

lemma pool_inv_start: "pool_inv r s progs [] (start_pool s progs)"
  by (simp add: pool_inv_def start_pool_def thread_inv_def sys_inv_def outs_ok_def fresh_thread_def)

lemma pool_stepE:
  assumes "pool_step mutex r i p = Some (es', p')"
  obtains (acquiring) sec rest where "i < length (p_Threads p)" "th_Todo (p_Threads p ! i) = sec # rest"
      "th_Point (p_Threads p ! i) = AtLock" "mutex \<longrightarrow> p_Mutex p = None" "es' = [(i, sec)]"
      "p' = p\<lparr>p_Sys := log_event Lock (p_Sys p), p_Mutex := Some i,
        p_Threads := (p_Threads p)[i := (p_Threads p ! i)\<lparr>th_Point := AtRead\<rparr>]\<rparr>"
    | (reading) sec rest out s where "i < length (p_Threads p)" "th_Todo (p_Threads p ! i) = sec # rest"
      "th_Point (p_Threads p ! i) = AtRead" "read_of r sec (p_Sys p) = (out, s)" "es' = []"
      "p' = p\<lparr>p_Sys := s, p_Threads := (p_Threads p)[i := (p_Threads p ! i)\<lparr>th_Point := after_read out\<rparr>]\<rparr>"
    | (writing) sec rest v out s where "i < length (p_Threads p)" "th_Todo (p_Threads p ! i) = sec # rest"
      "th_Point (p_Threads p ! i) = AtWrite v" "write_of r sec v (p_Sys p) = (out, s)" "es' = []"
      "p' = p\<lparr>p_Sys := s, p_Threads := (p_Threads p)[i := (p_Threads p ! i)\<lparr>th_Point := AtUnlock out\<rparr>]\<rparr>"
    | (releasing) sec rest out where "i < length (p_Threads p)" "th_Todo (p_Threads p ! i) = sec # rest"
      "th_Point (p_Threads p ! i) = AtUnlock out" "es' = []"
      "p' = p\<lparr>p_Sys := log_event Unlock (p_Sys p), p_Mutex := None,
        p_Threads := (p_Threads p)[i := \<lparr>th_Point = AtLock,
          th_Todo = (if out = Ok () then rest else []), th_Result = out\<rparr>]\<rparr>"
  using assms unfolding pool_step_def Let_def
  by (auto split: if_splits list.splits point.splits prod.splits)

lemma with_lock_run: "with_lock m s = (case m (log_event Lock s) of (out, s') \<Rightarrow> (out, log_event Unlock s'))"
  by (simp add: with_lock_def log_event_def)

lemma at_point_read: "read_of r sec s1 = (out, s) \<Longrightarrow> at_point r sec (after_read out) s1 s"
  by (cases out) (simp_all add: after_read_def bindE_def handle_def throwE_def)

lemma at_point_write: "read_of r sec s1 = (Ok v, s) \<Longrightarrow> write_of r sec v s = (out, s') \<Longrightarrow>
    at_point r sec (AtUnlock out) s1 s'"
  by (simp add: bindE_def handle_def)

lemma at_point_unlock: "bindE (read_of r sec) (write_of r sec) (log_event Lock s1) = (out, s) \<Longrightarrow>
    run_operation r sec s1 = (out, log_event Unlock s)"
  by (simp add: run_operation_steps with_lock_run)

lemma thread_inv_other: "thread_inv prog es m j th \<Longrightarrow> taken j es' = [] \<Longrightarrow>
    (m = Some j \<longleftrightarrow> m' = Some j) \<Longrightarrow> thread_inv prog (es @ es') m' j th"
  by (simp add: thread_inv_def)

text \<open>A step of thread \<open>i\<close> keeps the invariant when it keeps it of thread \<open>i\<close> and of the state.\<close>

lemma pool_inv_update:
  assumes inv: "pool_inv r s0 progs es p" and i: "i < length (p_Threads p)"
    and threads: "p_Threads p' = (p_Threads p)[i := th]"
    and mine: "thread_inv (progs ! i) (es @ es') (p_Mutex p') i th"
    and others: "\<And>j. j \<noteq> i \<Longrightarrow> taken j es' = [] \<and> (p_Mutex p = Some j \<longleftrightarrow> p_Mutex p' = Some j)"
    and labels: "\<forall>e \<in> set es'. fst e = i" and sys: "sys_inv r s0 (es @ es') p'"
  shows "pool_inv r s0 progs (es @ es') p'"
proof -
  have "thread_inv (progs ! j) (es @ es') (p_Mutex p') j (p_Threads p' ! j)" if "j < length progs" for j
  proof (cases "j = i")
    case True
    with mine i show ?thesis by (simp add: threads)
  next
    case False
    with others [OF False] that inv show ?thesis
      by (auto simp: threads pool_inv_def intro: thread_inv_other)
  qed
  with inv i sys labels show ?thesis by (auto simp: pool_inv_def threads)
qed

lemma outs_kept:
  assumes "outs_ok ths outs" and "th_Result th = Ok () \<Longrightarrow> th_Result (ths ! i) = Ok ()"
  shows "outs_ok (ths[i := th]) outs"
  unfolding outs_ok_def
proof clarify
  fix j out assume "(j, out) \<in> set outs" and "th_Result (ths[i := th] ! j) = Ok ()"
  with assms show "out = Ok ()"
    by (cases "j = i \<and> i < length ths") (auto simp: outs_ok_def nth_list_update list_update_beyond)
qed

lemma pool_inv_step:
  assumes inv: "pool_inv r s0 progs es p" and step: "pool_step True r i p = Some (es', p')"
  shows "pool_inv r s0 progs (es @ es') p'"
proof -
  have mine: "i < length (p_Threads p) \<Longrightarrow> thread_inv (progs ! i) es (p_Mutex p) i (p_Threads p ! i)"
    and sys: "sys_inv r s0 es p"
    using inv by (auto simp: pool_inv_def)
  from step show ?thesis
  proof (cases rule: pool_stepE)
    case (acquiring sec rest)
    have "sys_inv r s0 (es @ es') p'"
      using sys acquiring by (auto simp: sys_inv_def intro!: outs_kept)
    with acquiring mine show ?thesis
      by (intro pool_inv_update [OF inv acquiring(1)]) (auto simp: thread_inv_def split: if_splits)
  next
    case (reading sec rest out s)
    with mine have lock: "p_Mutex p = Some i" by (simp add: thread_inv_def)
    have "sys_inv r s0 (es @ es') p'"
      using sys reading lock by (auto simp: sys_inv_def at_point_read intro!: outs_kept)
    with reading mine lock show ?thesis
      by (intro pool_inv_update [OF inv reading(1)])
        (auto simp: thread_inv_def after_read_def split: if_splits outcome.splits)
  next
    case (writing sec rest v out s)
    with mine have lock: "p_Mutex p = Some i" by (simp add: thread_inv_def)
    have "sys_inv r s0 (es @ es') p'"
      using sys writing lock by (auto simp: sys_inv_def at_point_write simp del: at_point.simps(4) intro!: outs_kept)
    with writing mine lock show ?thesis
      by (intro pool_inv_update [OF inv writing(1)]) (auto simp: thread_inv_def split: if_splits)
  next
    case (releasing sec rest out)
    with mine have lock: "p_Mutex p = Some i" and ok: "th_Result (p_Threads p ! i) = Ok ()"
      by (simp_all add: thread_inv_def)
    from sys lock releasing obtain es0 where es: "es = es0 @ [(i, sec)]"
      and run: "run_operation r sec (snd (serial r es0 s0)) = (out, log_event Unlock (p_Sys p))"
      and outs: "outs_ok (p_Threads p) (fst (serial r es0 s0))"
      by (auto simp: sys_inv_def dest: at_point_unlock)
    have "serial r es s0 = (fst (serial r es0 s0) @ [(i, out)], log_event Unlock (p_Sys p))"
      using run by (simp add: es serial_snoc)
    moreover have "outs_ok (p_Threads p') (fst (serial r es0 s0))"
      using releasing outs_kept [OF outs, where i = i] ok by simp
    ultimately have "sys_inv r s0 (es @ es') p'"
      using releasing by (auto simp: sys_inv_def outs_ok_def)
    with releasing mine lock show ?thesis
      by (intro pool_inv_update [OF inv releasing(1)]) (auto simp: thread_inv_def split: if_splits)
  qed
qed

lemma pool_inv_reach: "pool_reach True r (start_pool s progs) es p \<Longrightarrow> pool_inv r s progs es p"
  by (induction rule: pool_reach.induct) (auto intro: pool_inv_start pool_inv_step)

section \<open>Serializability\<close>

lemma finished_free: "pool_inv r s progs es p \<Longrightarrow> finished p \<Longrightarrow> p_Mutex p = None"
  by (cases "p_Mutex p") (auto simp: pool_inv_def sys_inv_def thread_inv_def finished_def split: if_splits)

text \<open>
  A finished pool is the serial run of the sections in the order in which they entered; every
  thread's sections entered in program order, all of them when the thread succeeded.
\<close>

lemma pool_serializable:
  assumes "pool_reach True r (start_pool s progs) es p" and "finished p"
  shows "p_Sys p = snd (serial r es s)" and "outs_ok (p_Threads p) (fst (serial r es s))"
    and "i < length progs \<Longrightarrow> \<exists>rest. progs ! i = taken i es @ rest"
    and "i < length progs \<Longrightarrow> th_Result (p_Threads p ! i) = Ok () \<Longrightarrow> progs ! i = taken i es"
    and "\<forall>e \<in> set es. fst e < length progs" and "length (p_Threads p) = length progs"
proof -
  from pool_inv_reach [OF assms(1)] have inv: "pool_inv r s progs es p" .
  note free = finished_free [OF inv assms(2)]
  from inv free show "p_Sys p = snd (serial r es s)" "outs_ok (p_Threads p) (fst (serial r es s))"
    and "\<forall>e \<in> set es. fst e < length progs" and len: "length (p_Threads p) = length progs"
    by (auto simp: pool_inv_def sys_inv_def)
  assume i: "i < length progs"
  with inv have th: "thread_inv (progs ! i) es None i (p_Threads p ! i)" by (auto simp: pool_inv_def free)
  from assms(2) i len have "th_Todo (p_Threads p ! i) = []" by (simp add: finished_def)
  with th show "\<exists>rest. progs ! i = taken i es @ rest"
    and "th_Result (p_Threads p ! i) = Ok () \<Longrightarrow> progs ! i = taken i es"
    by (auto simp: thread_inv_def split: if_splits)
qed

lemma pool_outs_ok:
  assumes "pool_reach True r (start_pool s progs) es p" and "finished p"
    and ok: "\<forall>th \<in> set (p_Threads p). th_Result th = Ok ()"
  shows "\<forall>(i, out) \<in> set (fst (serial r es s)). out = Ok ()"
proof clarify
  note ser = pool_serializable [OF assms(1,2)]
  fix j out assume mem: "(j, out) \<in> set (fst (serial r es s))"
  from serial_owner [OF mem] have "j < length (p_Threads p)" using ser(5,6) by auto
  with ok have "th_Result (p_Threads p ! j) = Ok ()" by simp
  with ser(2) mem show "out = Ok ()" by (auto simp: outs_ok_def)
qed

section \<open>Progress and termination\<close>

fun point_work :: "point \<Rightarrow> nat" where
  "point_work AtLock = 4"
| "point_work AtRead = 3"
| "point_work (AtWrite v) = 2"
| "point_work (AtUnlock out) = 1"

definition thread_work :: "thread \<Rightarrow> nat" where
  "thread_work th = (case th_Todo th of [] \<Rightarrow> 0 | sec # rest \<Rightarrow> point_work (th_Point th) + 4 * length rest)"

definition pool_work :: "'w pool \<Rightarrow> nat" where
  "pool_work p = sum_list (map thread_work (p_Threads p))"

lemma sum_list_update_less: "i < length xs \<Longrightarrow> f y < f (xs ! i) \<Longrightarrow>
    sum_list (map f (xs[i := y])) < (sum_list (map f xs) :: nat)"
  by (induction xs arbitrary: i) (auto split: nat.split)

lemma pool_step_work: "pool_step mutex r i p = Some (es', p') \<Longrightarrow> pool_work p' < pool_work p"
  by (erule pool_stepE) (auto simp: pool_work_def thread_work_def after_read_def
      intro!: sum_list_update_less split: outcome.split list.split)

lemma pool_step_enabled:
  assumes "i < length (p_Threads p)" and "th_Todo (p_Threads p ! i) \<noteq> []"
    and "mutex \<longrightarrow> p_Mutex p = None \<or> th_Point (p_Threads p ! i) \<noteq> AtLock"
  shows "\<exists>es' p'. pool_step mutex r i p = Some (es', p')"
  using assms by (auto simp: pool_step_def Let_def split: list.split point.split prod.split)

lemma pool_no_deadlock:
  assumes inv: "pool_inv r s progs es p" and "\<not> finished p"
  shows "\<exists>i es' p'. pool_step True r i p = Some (es', p')"
proof (cases "p_Mutex p")
  case None
  from assms(2) obtain i where "i < length (p_Threads p)" "th_Todo (p_Threads p ! i) \<noteq> []"
    by (auto simp: finished_def in_set_conv_nth)
  with pool_step_enabled None show ?thesis by blast
next
  case (Some i)
  with inv have "i < length (p_Threads p)" "th_Todo (p_Threads p ! i) \<noteq> []" "th_Point (p_Threads p ! i) \<noteq> AtLock"
    by (auto simp: pool_inv_def sys_inv_def thread_inv_def split: if_splits)
  with pool_step_enabled show ?thesis by blast
qed

lemma pool_reach_finishes:
  assumes "pool_reach True r (start_pool s progs) es p"
  shows "\<exists>es' p'. pool_reach True r (start_pool s progs) (es @ es') p' \<and> finished p'"
  using assms
proof (induction "pool_work p" arbitrary: es p rule: less_induct)
  case less
  show ?case
  proof (cases "finished p")
    case True
    with less.prems show ?thesis by (metis append_Nil2)
  next
    case False
    from pool_no_deadlock [OF pool_inv_reach [OF less.prems] this]
    obtain i es1 p1 where st: "pool_step True r i p = Some (es1, p1)" by blast
    from less.hyps [OF pool_step_work [OF st] pool_reach.step [OF less.prems st]]
    show ?thesis by (metis append_assoc)
  qed
qed

lemma pool_work_start: "pool_work (start_pool s progs) = 4 * sum_list (map length progs)"
  by (induction progs) (auto simp: pool_work_def start_pool_def fresh_thread_def thread_work_def split: list.split)

section \<open>What a pool does to the configurations\<close>

fun edit :: "(IngressRule list \<Rightarrow> IngressRule list) \<Rightarrow> string \<Rightarrow> operation \<Rightarrow> TunnelConfiguration \<Rightarrow> TunnelConfiguration" where
  "edit mv t (AppendConfig t' hosts ip ts) c = (if t' = t then appended_config mv ts ip hosts c else c)"
| "edit mv t (RemoveConfig t' hosts ts) c = (if t' = t then removed_config mv ts hosts c else c)"
| "edit mv t _ c = c"

definition edits :: "(IngressRule list \<Rightarrow> IngressRule list) \<Rightarrow> string \<Rightarrow> operation list \<Rightarrow> TunnelConfiguration \<Rightarrow> TunnelConfiguration" where
  "edits mv t secs c = fold (edit mv t) secs c"

context cloudflare_view
begin

lemma operation_config:
  assumes documented and "r_Manager r = mgr" and "run_operation r sec s = (Ok (), s')"
  shows "config_of (world s') t = edit (r_MapValues r) t sec (config_of (world s) t)"
  using assms(3)
  by (cases sec) (auto simp: fun_upd_apply dest!: appendConfig_effect(1) [OF assms(1,2)] removeConfig_effect(1) [OF assms(1,2)]
      appendDNS_config [OF assms(1,2)] removeDNS_config [OF assms(1,2)])

lemma serial_config:
  assumes doc: documented and mgr: "r_Manager r = mgr" and "\<forall>(i, out) \<in> set (fst (serial r es s)). out = Ok ()"
  shows "config_of (world (snd (serial r es s))) t = edits (r_MapValues r) t (map snd es) (config_of (world s) t)"
  using assms(3)
proof (induction es rule: rev_induct)
  case (snoc e es)
  obtain i sec where e: "e = (i, sec)" by (cases e)
  obtain out s' where run: "run_operation r sec (snd (serial r es s)) = (out, s')" by fastforce
  from snoc.prems have "out = Ok ()" by (auto simp: e serial_snoc run)
  with operation_config [OF doc mgr, of sec _ s' t] run snoc show ?case
    by (auto simp: e serial_snoc edits_def)
qed (simp add: edits_def)

lemma pool_config:
  assumes doc: documented and mgr: "r_Manager r = mgr"
    and reach: "pool_reach True r (start_pool s progs) es p" and fin: "finished p"
    and ok: "\<forall>th \<in> set (p_Threads p). th_Result th = Ok ()"
  shows "config_of (world (p_Sys p)) t = edits (r_MapValues r) t (map snd es) (config_of (world s) t)"
    and "i < length progs \<Longrightarrow> progs ! i = taken i es"
proof -
  note ser = pool_serializable [OF reach fin]
  show "i < length progs \<Longrightarrow> progs ! i = taken i es" using ser(4,6) ok by auto
  from serial_config [OF doc mgr pool_outs_ok [OF reach fin ok], of t] ser(1)
  show "config_of (world (p_Sys p)) t = edits (r_MapValues r) t (map snd es) (config_of (world s) t)" by auto
qed

end

section \<open>Ingresses published at the same time\<close>

text \<open>
  The part of \<^verbatim>\<open>Reconcile\<close> after the tunnel and the address were found, as a list of sections:
  it is what \<open>ingress_sync\<close> runs.
\<close>

definition sync_operations :: "string \<Rightarrow> CloudflareTunnelSettings \<Rightarrow> Addr \<Rightarrow> Ingress \<Rightarrow> operation list" where
  "sync_operations t ts ip ing = (let hosts = getHosts ing in
     if checkToBeIgnored (om_Annotations (ing_Meta ing)) then RemoveConfig t hosts ts # map (RemoveDNS t) hosts
     else AppendConfig t hosts ip ts # map (AppendDNS t) hosts)"

definition run_operations :: "'w reconciler \<Rightarrow> operation list \<Rightarrow> ('w state, unit) io" where
  "run_operations r ops = forE ops (run_operation r)"

lemma forE_map_Ok: "forE (map f xs) g s = (Ok (), s') \<longleftrightarrow> forE xs (\<lambda>x. wrapW msg (g (f x))) s = (Ok (), s')"
  by (induction xs arbitrary: s) (auto simp: ok_simps)

lemma sync_runs_operations:
  assumes "detectCloudflareTunnelName (om_Annotations (ing_Meta ing)) = Ok n"
    and "getCloudflareTunnel r n s = (Ok cf, s0)" and "om_DeletionTimestamp (cft_Meta cf) = None"
    and "cft_TunnelID cf \<noteq> ''''" and "ing_LoadBalancerIPs ing \<noteq> []"
    and "ParseAddr (ing_LoadBalancerIPs ing ! 0) = Ok ip"
  shows "ingress_sync r ing s = (Ok res, s') \<longleftrightarrow> res = zero_Result \<and>
    run_operations r (sync_operations (cft_TunnelID cf) (spec_Settings (cft_Spec cf)) ip ing) s0 = (Ok (), s')"
  using assms by (auto simp: ingress_sync_def run_operations_def sync_operations_def Let_def ok_simps
      forE_map_Ok [where msg = "''failed to update Cloudflare DNS Record''"])

text \<open>The host names a section of tunnel \<open>t\<close> writes a rule or a record for.\<close>

fun rule_names :: "operation \<Rightarrow> string set" where
  "rule_names (AppendConfig t hosts ip ts) = h_Host ` set hosts"
| "rule_names (RemoveConfig t hosts ts) = h_Host ` set hosts"
| "rule_names _ = {}"

fun record_names :: "operation \<Rightarrow> string set" where
  "record_names (AppendDNS t h) = {h_Host h}"
| "record_names (RemoveDNS t h) = {h_Host h}"
| "record_names _ = {}"

fun has_settings :: "string \<Rightarrow> CloudflareTunnelSettings \<Rightarrow> operation \<Rightarrow> bool" where
  "has_settings t ts (AppendConfig t' hosts ip ts') = (t' = t \<and> ts' = ts)"
| "has_settings t ts (RemoveConfig t' hosts ts') = (t' = t \<and> ts' = ts)"
| "has_settings t ts (AppendDNS t' h) = (t' = t)"
| "has_settings t ts (RemoveDNS t' h) = (t' = t)"

lemma edit_rule:
  assumes mv: "enumerates mv" and sec: "has_settings t ts sec" and k: "k \<noteq> ''''"
  shows "k \<notin> rule_names sec \<Longrightarrow> rule_table (tc_Ingress (edit mv t sec c)) k \<in>
      {rule_table (tc_Ingress c) k, map_option (restamp ts) (rule_table (tc_Ingress c) k)}"
    and "sec = AppendConfig t hosts ip ts \<Longrightarrow> h \<in> set hosts \<Longrightarrow> h_Host h = k \<Longrightarrow>
      (\<And>x y. x \<in> set hosts \<Longrightarrow> y \<in> set hosts \<Longrightarrow> h_Host x = h_Host y \<Longrightarrow> x = y) \<Longrightarrow>
      rule_table (tc_Ingress (edit mv t sec c)) k = Some (host_rule ts ip h)"
proof -
  show "k \<notin> rule_names sec \<Longrightarrow> rule_table (tc_Ingress (edit mv t sec c)) k \<in>
      {rule_table (tc_Ingress c) k, map_option (restamp ts) (rule_table (tc_Ingress c) k)}"
    using sec k by (cases sec) (auto simp: table_appended [OF mv] table_removed [OF mv] spec_append_def spec_remove_def
        split: option.splits dest!: find_SomeD)
  assume add: "sec = AppendConfig t hosts ip ts" and h: "h \<in> set hosts" "h_Host h = k"
    and u: "\<And>x y. x \<in> set hosts \<Longrightarrow> y \<in> set hosts \<Longrightarrow> h_Host x = h_Host y \<Longrightarrow> x = y"
  from find_same_host [OF h(1) u] have "find (\<lambda>x. h_Host x = k) (rev hosts) = Some h" by (simp only: h(2))
  with k show "rule_table (tc_Ingress (edit mv t sec c)) k = Some (host_rule ts ip h)"
    by (simp add: add table_appended [OF mv] spec_append_def)
qed

text \<open>A rule that one section adds and no other section touches is in the final configuration.\<close>

lemma edits_rule:
  assumes mv: "enumerates mv" and k: "k \<noteq> ''''" and set: "\<forall>sec \<in> set secs. has_settings t ts sec"
    and only: "\<forall>sec \<in> set secs. k \<in> rule_names sec \<longrightarrow> sec = AppendConfig t hosts ip ts"
    and mem: "AppendConfig t hosts ip ts \<in> set secs" and h: "h \<in> set hosts" "h_Host h = k"
    and u: "\<And>x y. x \<in> set hosts \<Longrightarrow> y \<in> set hosts \<Longrightarrow> h_Host x = h_Host y \<Longrightarrow> x = y"
  shows "rule_table (tc_Ingress (edits mv t secs c)) k = Some (host_rule ts ip h)"
  using set only mem
proof (induction secs rule: rev_induct)
  case (snoc sec secs)
  have snoc_eq: "edits mv t (secs @ [sec]) c = edit mv t sec (edits mv t secs c)" by (simp add: edits_def)
  from snoc.prems(1) have set: "has_settings t ts sec" by simp
  show ?case
  proof (cases "k \<in> rule_names sec")
    case True
    with snoc.prems(2) have "sec = AppendConfig t hosts ip ts" by simp
    from edit_rule(2) [OF mv set k this h u] show ?thesis unfolding snoc_eq .
  next
    case False
    then have "sec \<noteq> AppendConfig t hosts ip ts" using h by auto
    with snoc have "rule_table (tc_Ingress (edits mv t secs c)) k = Some (host_rule ts ip h)" by simp
    with edit_rule(1) [OF mv set k False, of "edits mv t secs c"] show ?thesis unfolding snoc_eq by auto
  qed
qed simp

context cloudflare_view
begin

lemma operation_zone:
  assumes doc: documented and mgr: "r_Manager r = mgr" and run: "run_operation r sec s = (Ok (), s')"
    and ok: "zone_ok (zone (world s))" and named: "'''' \<notin> record_names sec" and k: "k \<noteq> ''''"
  shows "zone_ok (zone (world s'))"
    and "k \<notin> record_names sec \<Longrightarrow> lookup k s' = lookup k s"
    and "sec = AppendDNS t h \<Longrightarrow> h_Host h = k \<Longrightarrow> points_to (lookup k s') t"
proof (goal_cases)
  case 1
  show ?case using run ok named
    by (cases sec) (auto dest: appendConfig_effect(2) [OF doc mgr] removeConfig_effect(2) [OF doc mgr]
        appendDNS_effect(2) [OF doc mgr ok] removeDNS_effect(2) [OF doc mgr ok])
next
  case 2
  then show ?case using run named k
    by (cases sec) (auto simp: lookup_def dest: appendConfig_effect(2) [OF doc mgr] removeConfig_effect(2) [OF doc mgr]
        appendDNS_effect(3) [OF doc mgr ok, unfolded lookup_def] removeDNS_effect(4) [OF doc mgr ok, unfolded lookup_def])
next
  case 3
  with run named appendDNS_effect(1) [OF doc mgr ok] show ?case by auto
qed

lemma serial_zone:
  assumes doc: documented and mgr: "r_Manager r = mgr" and "\<forall>(i, out) \<in> set (fst (serial r es s)). out = Ok ()"
    and ok: "zone_ok (zone (world s))" and "\<forall>e \<in> set es. '''' \<notin> record_names (snd e)" and k: "k \<noteq> ''''"
    and "\<forall>e \<in> set es. k \<in> record_names (snd e) \<longrightarrow> snd e = AppendDNS t h"
  shows "zone_ok (zone (world (snd (serial r es s))))"
    and "AppendDNS t h \<in> snd ` set es \<Longrightarrow> h_Host h = k \<Longrightarrow> points_to (lookup k (snd (serial r es s))) t"
proof -
  have "zone_ok (zone (world (snd (serial r es s)))) \<and>
    (AppendDNS t h \<in> snd ` set es \<longrightarrow> h_Host h = k \<longrightarrow> points_to (lookup k (snd (serial r es s))) t)"
    using assms(3,5,7)
  proof (induction es rule: rev_induct)
    case Nil
    with ok show ?case by simp
  next
    case (snoc e es)
    obtain i sec where e: "e = (i, sec)" by (cases e)
    obtain out s' where run: "run_operation r sec (snd (serial r es s)) = (out, s')" by fastforce
    from snoc.prems have out: "out = Ok ()" by (auto simp: e serial_snoc run)
    from snoc have IH: "zone_ok (zone (world (snd (serial r es s))))"
      "AppendDNS t h \<in> snd ` set es \<Longrightarrow> h_Host h = k \<Longrightarrow> points_to (lookup k (snd (serial r es s))) t"
      by (auto simp: serial_snoc e)
    have named: "'''' \<notin> record_names sec" and only: "k \<in> record_names sec \<longrightarrow> sec = AppendDNS t h"
      using snoc.prems by (auto simp: e)
    note eff = operation_zone [OF doc mgr run [unfolded out] IH(1) named k]
    have st: "snd (serial r (es @ [e]) s) = s'" by (simp add: e serial_snoc run)
    show ?case
    proof (cases "k \<in> record_names sec")
      case True
      with only eff(1,3) show ?thesis unfolding st by blast
    next
      case False
      then have "AppendDNS t h \<in> snd ` set (es @ [e]) \<Longrightarrow> h_Host h = k \<Longrightarrow> AppendDNS t h \<in> snd ` set es"
        by (auto simp: e)
      with False eff(1,2) IH(2) show ?thesis unfolding st by metis
    qed
  qed
  then show "zone_ok (zone (world (snd (serial r es s))))"
    and "AppendDNS t h \<in> snd ` set es \<Longrightarrow> h_Host h = k \<Longrightarrow> points_to (lookup k (snd (serial r es s))) t"
    by auto
qed

end

lemma sync_operations_names:
  assumes "sec \<in> set (sync_operations t ts ip ing)"
  shows "has_settings t ts sec" and "rule_names sec \<subseteq> set (ing_Rules ing)" and "record_names sec \<subseteq> set (ing_Rules ing)"
  using assms getHosts_names [of ing, symmetric] by (auto simp: sync_operations_def Let_def split: if_splits)

lemma taken_set: "(i, sec) \<in> set es \<Longrightarrow> sec \<in> set (taken i es)"
  by (force simp: taken_def)

lemma taken_subset: "set (taken i es) \<subseteq> snd ` set es"
  by (auto simp: taken_def)

lemma sync_operations_rule:
  "sec \<in> set (sync_operations t ts ip ing) \<Longrightarrow> \<not> checkToBeIgnored (om_Annotations (ing_Meta ing)) \<Longrightarrow>
   rule_names sec \<noteq> {} \<Longrightarrow> sec = AppendConfig t (getHosts ing) ip ts"
  by (auto simp: sync_operations_def Let_def)

lemma sync_operations_record:
  "sec \<in> set (sync_operations t ts ip ing) \<Longrightarrow> \<not> checkToBeIgnored (om_Annotations (ing_Meta ing)) \<Longrightarrow>
   h \<in> set (getHosts ing) \<Longrightarrow> h_Host h \<in> record_names sec \<Longrightarrow> sec = AppendDNS t h"
  using getHosts_unique by (fastforce simp: sync_operations_def Let_def)

context cloudflare_view
begin

lemma pool_publishes:
  assumes doc: documented and mgr: "r_Manager r = mgr" and mv: "enumerates (r_MapValues r)"
    and ok: "zone_ok (zone (world s))"
    and named: "\<And>j. j < length jobs \<Longrightarrow> '''' \<notin> set (ing_Rules (fst (jobs ! j)))"
    and disjoint: "\<And>i j. i < length jobs \<Longrightarrow> j < length jobs \<Longrightarrow> i \<noteq> j \<Longrightarrow>
      set (ing_Rules (fst (jobs ! i))) \<inter> set (ing_Rules (fst (jobs ! j))) = {}"
    and reach: "pool_reach True r (start_pool s (map (\<lambda>(ing, ip). sync_operations t ts ip ing) jobs)) es p"
    and fin: "finished p" and good: "\<forall>th \<in> set (p_Threads p). th_Result th = Ok ()"
    and i: "i < length jobs" "jobs ! i = (ing, ip)" "\<not> checkToBeIgnored (om_Annotations (ing_Meta ing))"
  shows "published ts ip t (getHosts ing) (config_of (world (p_Sys p)) t) (zone (world (p_Sys p)))"
proof -
  let ?progs = "map (\<lambda>(ing, ip). sync_operations t ts ip ing) jobs"
  note ser = pool_serializable [OF reach fin] and cfg = pool_config [OF doc mgr reach fin good]
  have mine: "taken i es = sync_operations t ts ip ing" using cfg(2) [of i] i by simp
  have src: "\<exists>j. j < length jobs \<and> e = (j, sec) \<and> sec \<in> set (sync_operations t ts (snd (jobs ! j)) (fst (jobs ! j)))"
    if "e \<in> set es" "sec = snd e" for e sec
  proof -
    from that ser(5) have j: "fst e < length jobs" by auto
    with cfg(2) [of "fst e"] taken_set [of "fst e" sec es] that
    show ?thesis by (auto simp: case_prod_beta intro!: exI [of _ "fst e"])
  qed
  have from_me: "sec \<in> set (sync_operations t ts ip ing)"
    if e: "e \<in> set es" "sec = snd e" and k: "k \<in> rule_names sec \<union> record_names sec" "k \<in> set (ing_Rules ing)" for e sec k
  proof -
    from src [OF e] obtain j where j: "j < length jobs"
      and sec: "sec \<in> set (sync_operations t ts (snd (jobs ! j)) (fst (jobs ! j)))" by blast
    from sync_operations_names [OF sec] k(1) have "k \<in> set (ing_Rules (fst (jobs ! j)))" by auto
    with k(2) disjoint [OF i(1) j] i(2) have "j = i" by auto
    with sec i(2) show ?thesis by simp
  qed
  have settings: "\<forall>sec \<in> set (map snd es). has_settings t ts sec"
  proof
    fix sec assume "sec \<in> set (map snd es)"
    then obtain e where "e \<in> set es" "sec = snd e" by auto
    from src [OF this] show "has_settings t ts sec" by (blast dest: sync_operations_names(1))
  qed
  note outs = pool_outs_ok [OF reach fin good]
  show ?thesis
    unfolding published_def
  proof (intro ballI conjI)
    fix h assume h: "h \<in> set (getHosts ing)"
    then have hk: "h_Host h \<in> set (ing_Rules ing)" by (simp flip: getHosts_names)
    with named [OF i(1)] i(2) have k: "h_Host h \<noteq> ''''" by auto
    have "AppendConfig t (getHosts ing) ip ts \<in> set (map snd es)"
      "AppendDNS t h \<in> snd ` set es"
      using taken_subset [of i es] h i(3) unfolding mine by (auto simp: sync_operations_def Let_def)
    note mem = this
    have "\<forall>sec \<in> set (map snd es). h_Host h \<in> rule_names sec \<longrightarrow> sec = AppendConfig t (getHosts ing) ip ts"
    proof clarsimp
      fix j sec assume e: "(j, sec) \<in> set es" and name: "h_Host h \<in> rule_names sec"
      from from_me [OF e _ _ hk, of sec] name have "sec \<in> set (sync_operations t ts ip ing)" by simp
      from sync_operations_rule [OF this i(3)] name show "sec = AppendConfig t (getHosts ing) ip ts" by blast
    qed
    from edits_rule [OF mv k settings this mem(1) h refl getHosts_unique]
    show "rule_table (tc_Ingress (config_of (world (p_Sys p)) t)) (h_Host h) = Some (host_rule ts ip h)"
      unfolding cfg(1) .
    have "\<forall>e \<in> set es. h_Host h \<in> record_names (snd e) \<longrightarrow> snd e = AppendDNS t h"
    proof clarsimp
      fix j sec assume e: "(j, sec) \<in> set es" and name: "h_Host h \<in> record_names sec"
      from from_me [OF e _ _ hk, of sec] name have "sec \<in> set (sync_operations t ts ip ing)" by simp
      from sync_operations_record [OF this i(3) h name] show "sec = AppendDNS t h" .
    qed
    moreover have "\<forall>e \<in> set es. '''' \<notin> record_names (snd e)"
    proof
      fix e assume e: "e \<in> set es"
      from src [OF this refl] obtain j where "j < length jobs"
        "snd e \<in> set (sync_operations t ts (snd (jobs ! j)) (fst (jobs ! j)))" by blast
      from named [OF this(1)] sync_operations_names(3) [OF this(2)] show "'''' \<notin> record_names (snd e)" by blast
    qed
    ultimately have "points_to (lookup (h_Host h) (snd (serial r es s))) t"
      using serial_zone(2) [OF doc mgr outs ok _ k _ mem(2) refl] by blast
    then show "points_to (first_cname (h_Host h) (zone (world (p_Sys p)))) t"
      by (simp add: ser(1) lookup_def)
  qed
qed

end

section \<open>Executing a schedule\<close>

text \<open>The threads are offered a step in the given order; one that cannot step is passed over.\<close>

fun run_schedule :: "bool \<Rightarrow> 'w reconciler \<Rightarrow> nat list \<Rightarrow> 'w pool \<Rightarrow> (nat \<times> operation) list \<times> 'w pool" where
  "run_schedule mutex r [] p = ([], p)"
| "run_schedule mutex r (i # sched) p = (case pool_step mutex r i p of
      None \<Rightarrow> run_schedule mutex r sched p
    | Some (es, p1) \<Rightarrow> (case run_schedule mutex r sched p1 of (es', p2) \<Rightarrow> (es @ es', p2)))"

lemma run_schedule_reach: "pool_reach mutex r p0 es p \<Longrightarrow> run_schedule mutex r sched p = (es', p') \<Longrightarrow>
    pool_reach mutex r p0 (es @ es') p'"
proof (induction sched arbitrary: es p es' p')
  case (Cons i sched)
  show ?case
  proof (cases "pool_step mutex r i p")
    case None
    with Cons show ?thesis by simp
  next
    case (Some a)
    then obtain es1 p1 es2 where st: "pool_step mutex r i p = Some (es1, p1)"
      "run_schedule mutex r sched p1 = (es2, p')" "es' = es1 @ es2"
      using Cons.prems(2) by (auto split: prod.splits)
    from Cons.IH [OF pool_reach.step [OF Cons.prems(1) st(1)] st(2)] st(3) show ?thesis by simp
  qed
qed simp

text \<open>A thread that is left alone runs its sections as the code's functions do.\<close>

lemma pool_section_alone:
  assumes reach: "pool_reach mutex r p0 es p" and free: "p_Mutex p = None" and i: "i < length (p_Threads p)"
    and th: "p_Threads p ! i = \<lparr>th_Point = AtLock, th_Todo = sec # rest, th_Result = res\<rparr>"
    and run: "run_operation r sec (p_Sys p) = (Ok (), s')"
  shows "pool_reach mutex r p0 (es @ [(i, sec)]) (p\<lparr>p_Sys := s',
    p_Threads := (p_Threads p)[i := \<lparr>th_Point = AtLock, th_Todo = rest, th_Result = Ok ()\<rparr>]\<rparr>)"
proof -
  from run obtain v s1 s2 where rd: "read_of r sec (log_event Lock (p_Sys p)) = (Ok v, s1)"
    and wr: "write_of r sec v s1 = (Ok (), s2)" and s': "s' = log_event Unlock s2"
    by (auto simp: run_operation_steps with_lock_run bindE_Ok split: prod.splits)
  have "run_schedule mutex r [i, i, i, i] p = ([(i, sec)], p\<lparr>p_Sys := s',
    p_Threads := (p_Threads p)[i := \<lparr>th_Point = AtLock, th_Todo = rest, th_Result = Ok ()\<rparr>]\<rparr>)"
    using free i th rd wr by (simp add: pool_step_def after_read_def s')
  from run_schedule_reach [OF reach this] show ?thesis .
qed

lemma pool_thread_alone:
  assumes "pool_reach mutex r p0 es p" and "p_Mutex p = None" and "i < length (p_Threads p)"
    and "p_Threads p ! i = \<lparr>th_Point = AtLock, th_Todo = ops, th_Result = Ok ()\<rparr>"
    and "run_operations r ops (p_Sys p) = (Ok (), s')"
  shows "\<exists>es'. pool_reach mutex r p0 es' (p\<lparr>p_Sys := s',
    p_Threads := (p_Threads p)[i := \<lparr>th_Point = AtLock, th_Todo = [], th_Result = Ok ()\<rparr>]\<rparr>)"
  using assms
proof (induction ops arbitrary: es p)
  case Nil
  then have "(p_Threads p)[i := \<lparr>th_Point = AtLock, th_Todo = [], th_Result = Ok ()\<rparr>] = p_Threads p"
    by (metis list_update_id)
  with Nil show ?case by (auto simp: run_operations_def ok_simps)
next
  case (Cons sec ops)
  from Cons.prems(5) obtain s1 where s1: "run_operation r sec (p_Sys p) = (Ok (), s1)"
    and rest: "run_operations r ops s1 = (Ok (), s')" by (auto simp: run_operations_def ok_simps)
  from Cons.IH [OF pool_section_alone [OF Cons.prems(1-4) s1]] Cons.prems(2-3) rest
  show ?case by simp
qed

end
