(* ===== verification/Lifecycle.thy ===== *)
theory Lifecycle
  imports Concurrent TunnelReconciler
begin

text \<open>
  The two controllers together: ingress reconciliations write DNS records for a tunnel, and the
  tunnel reconciler deletes the tunnel's records when the resource is deleted. Neither knows the
  other; what connects them is the comment the client puts on the records it writes.
\<close>

text \<open>
  \<open>calm r view\<close>: deleting the tunnel itself and updating its resource leave \<open>view\<close> alone, and no
  one else changes it meanwhile.
\<close>

definition calm :: "'s reconciler \<Rightarrow> ('s \<Rightarrow> 'v) \<Rightarrow> bool" where
  "calm r view \<longleftrightarrow> (\<forall>i s u s'. m_DeleteTunnel (r_Manager r) i s = (Ok u, s') \<longrightarrow> view s' = view s) \<and>
     (\<forall>cf s u s'. k_Update_CloudflareTunnel (r_Client r) cf s = (Ok u, s') \<longrightarrow> view s' = view s)"

text \<open>A successful reconciliation of a deleted resource.\<close>

lemma Reconcile_deleted:
  assumes "k_Get_CloudflareTunnel (r_Client r) key (world s) = (Ok cf, w)"
    and "om_DeletionTimestamp (cft_Meta cf) \<noteq> None" and "ContainsFinalizer (r_Lib r) (cft_Meta cf) finalizerName"
  shows "tunnel_Reconcile r key s =
    tunnel_release r cf (s\<lparr>world := w, trace := trace s @ [K_GetCloudflareTunnel key (Ok cf)]\<rparr>)"
  using assms by (simp add: tunnel_Reconcile_def handle_def logged_def)

section \<open>Ingress reconciliations keep the zone tidy\<close>

context record_owner
begin

lemma appendDNS_tidy:
  assumes doc: documented and mgr: "r_Manager r = mgr" and tidy: "tidy marks (zone (world s))"
    and run: "appendDNSRecord r t h s = (Ok (), s')"
  shows "tidy marks (zone (world s'))"
proof -
  let ?s = "s\<lparr>trace := trace s @ [Lock]\<rparr>"
  from run obtain d s1 s2 where get: "call_GetDNS r t (h_Host h) ?s = (Ok d, s1)"
    and k: "(if rec_ID d = '''' then wrapV ''failed to add DNS record'' (call_AddDNS r t (h_Host h))
       else bindE (liftO (Healthy d t)) (\<lambda>healthy. if \<not> healthy
         then wrapV ''failed to update DNS record'' (call_UpdateDNS r t (h_Host h) d) else retE ())) s1 = (Ok (), s2)"
    and s': "world s' = world s2"
    by (auto simp: appendDNSRecord_def ok_simps)
  from GetDNS_Ok [OF doc mgr get] tidy have "tidy marks (zone (world s1))" by simp
  then have "tidy marks (zone (world s2))"
    using k mgr by (auto simp: ok_simps split: if_splits dest: add_tidy [OF doc] update_tidy [OF doc])
  then show ?thesis by (simp add: s')
qed

lemma removeDNS_tidy:
  assumes doc: documented and mgr: "r_Manager r = mgr" and tidy: "tidy marks (zone (world s))"
    and run: "removeDNSRecord r t h s = (Ok (), s')"
  shows "tidy marks (zone (world s'))"
proof -
  from run obtain d s1 s2 where get: "call_GetDNS r t (h_Host h) (s\<lparr>trace := trace s @ [Lock]\<rparr>) = (Ok d, s1)"
    and k: "(if rec_ID d = '''' then retE ()
       else wrapV ''failed to delete DNS record'' (call_DeleteDNS r t (rec_ID d))) s1 = (Ok (), s2)"
    and s': "world s' = world s2"
    by (auto simp: removeDNSRecord_def ok_simps)
  from GetDNS_Ok [OF doc mgr get] tidy have "tidy marks (zone (world s1))" by simp
  then have "tidy marks (zone (world s2))"
    using k mgr by (auto simp: ok_simps split: if_splits dest: delete_tidy [OF doc])
  then show ?thesis by (simp add: s')
qed

lemma operation_tidy:
  assumes "documented" and "r_Manager r = mgr" and "tidy marks (zone (world s))" and "run_operation r sec s = (Ok (), s')"
  shows "tidy marks (zone (world s'))"
  using assms
  by (cases sec) (auto dest: appendConfig_effect(2) removeConfig_effect(2) intro: appendDNS_tidy removeDNS_tidy)

lemma serial_tidy:
  assumes "documented" and "r_Manager r = mgr" and "tidy marks (zone (world s))"
    and "\<forall>(i, out) \<in> set (fst (serial r es s)). out = Ok ()"
  shows "tidy marks (zone (world (snd (serial r es s))))"
  using assms(3,4)
proof (induction es arbitrary: s)
  case (Cons e es)
  obtain i sec where e: "e = (i, sec)" by fastforce
  obtain out s1 where run: "run_operation r sec s = (out, s1)" by fastforce
  with Cons.prems(2) e have "out = Ok ()" by (auto split: prod.splits)
  with run have "run_operation r sec s = (Ok (), s1)" by simp
  from operation_tidy [OF assms(1,2) Cons.prems(1) this] have "tidy marks (zone (world s1))" .
  from Cons.IH [OF this] Cons.prems(2) show ?case by (auto simp: e run split: prod.splits)
qed simp

text \<open>Any number of ingress reconciliations at once, in any interleaving.\<close>

lemma pool_tidy:
  assumes "documented" and "r_Manager r = mgr" and "tidy marks (zone (world s))"
    and "pool_reach True r (start_pool s progs) es p" and "finished p" and "\<forall>th \<in> set (p_Threads p). th_Result th = Ok ()"
  shows "tidy marks (zone (world (p_Sys p)))"
  using serial_tidy [OF assms(1-3) pool_outs_ok [OF assms(4-6)]] pool_serializable(1) [OF assms(4,5)] by simp

section \<open>The deletion of a tunnel\<close>

lemma release_zone:
  assumes doc: documented and mgr: "r_Manager r = mgr" and ok: "zone_ok (zone (world s))" and calm: "calm r zone"
    and run: "tunnel_release r cf s = (Ok (res, None), s')"
  shows "zone (world s') = filter (\<lambda>rec. \<not> (rec_Type rec = ''CNAME'' \<and> marks (cft_TunnelID cf) rec)) (zone (world s))"
proof -
  from run mgr obtain w1 w2 u1 u2 u3 where all: "m_DeleteAllDNS mgr (cft_TunnelID cf) (world s) = (Ok u1, w1)"
    and "m_DeleteTunnel mgr (cft_TunnelID cf) w1 = (Ok u2, w2)"
    and "k_Update_CloudflareTunnel (r_Client r) (cf\<lparr>cft_Meta := RemoveFinalizer (r_Lib r) (cft_Meta cf) finalizerName\<rparr>) w2 =
      (Ok u3, world s')"
    by (auto simp: tunnel_release_def ok_simps)
  with calm mgr have "zone (world s') = zone w1" unfolding calm_def by metis
  with delete_all [OF doc ok all] show ?thesis by simp
qed

lemma release_aliases:
  assumes doc: documented and mgr: "r_Manager r = mgr" and tidy: "tidy marks (zone (world s))" and calm: "calm r zone"
    and run: "tunnel_release r cf s = (Ok (res, None), s')"
  shows "rec \<in> set (zone (world s')) \<Longrightarrow> \<not> alias_of (cft_TunnelID cf) rec" and "tidy marks (zone (world s'))"
    and "rec \<in> set (zone (world s)) \<Longrightarrow> alias_of t rec \<Longrightarrow> t \<noteq> cft_TunnelID cf \<Longrightarrow> rec \<in> set (zone (world s'))"
proof -
  from tidy have ok: "zone_ok (zone (world s))" and own: "alias_of t rec \<Longrightarrow> rec \<in> set (zone (world s)) \<Longrightarrow> marks t rec" for t rec
    by (auto simp: tidy_def)
  note left = release_zone [OF doc mgr ok calm run]
  show "rec \<in> set (zone (world s')) \<Longrightarrow> \<not> alias_of (cft_TunnelID cf) rec" and "tidy marks (zone (world s'))"
    using own tidy_filter [OF tidy] by (auto simp: left alias_of_def)
  assume r: "rec \<in> set (zone (world s))" "alias_of t rec" "t \<noteq> cft_TunnelID cf"
  with own marks_inj [of t rec "cft_TunnelID cf"] show "rec \<in> set (zone (world s'))" by (auto simp: left)
qed

lemma deletion_aliases:
  assumes "documented" and "r_Manager r = mgr" and "tidy marks (zone (world s))" and "calm r zone"
    and "pool_reach True r (start_pool s progs) es p" and "finished p" and "\<forall>th \<in> set (p_Threads p). th_Result th = Ok ()"
    and "k_Get_CloudflareTunnel (r_Client r) key (world (p_Sys p)) = (Ok cf, w)" and "zone w = zone (world (p_Sys p))"
    and "om_DeletionTimestamp (cft_Meta cf) \<noteq> None" and "ContainsFinalizer (r_Lib r) (cft_Meta cf) finalizerName"
    and "tunnel_Reconcile r key (p_Sys p) = (Ok (res, None), s')"
  shows "(\<forall>rec \<in> set (zone (world s')). \<not> alias_of (cft_TunnelID cf) rec) \<and>
    (\<forall>t rec. rec \<in> set (zone (world (p_Sys p))) \<and> alias_of t rec \<and> t \<noteq> cft_TunnelID cf \<longrightarrow> rec \<in> set (zone (world s')))"
proof -
  let ?s = "(p_Sys p)\<lparr>world := w, trace := trace (p_Sys p) @ [K_GetCloudflareTunnel key (Ok cf)]\<rparr>"
  from pool_tidy [OF assms(1-3,5-7)] assms(9) have tidy: "tidy marks (zone (world ?s))" by simp
  from Reconcile_deleted [OF assms(8,10,11)] assms(12) have "tunnel_release r cf ?s = (Ok (res, None), s')" by simp
  note effect = release_aliases [OF assms(1,2) tidy assms(4) this]
  show ?thesis
  proof (intro conjI ballI allI impI)
    fix rec assume "rec \<in> set (zone (world s'))"
    then show "\<not> alias_of (cft_TunnelID cf) rec" by (rule effect(1))
  next
    fix t rec
    assume r: "rec \<in> set (zone (world (p_Sys p))) \<and> alias_of t rec \<and> t \<noteq> cft_TunnelID cf"
    then have "rec \<in> set (zone (world ?s))" by (simp add: assms(9))
    with r show "rec \<in> set (zone (world s'))" by (intro effect(3) [of rec t]) auto
  qed
qed

end

end
