(* ===== verification/Schedules.thy ===== *)
theory Schedules
  imports Example Lifecycle
begin

text \<open>
  Schedules of a pool in the in-memory account: two ingresses reconciled to the end, and the
  lost update that the mutex prevents.
\<close>

definition second_ingress :: Ingress where
  "second_ingress = (sample_ingress None)\<lparr>ing_Rules := [''b.example.com''], ing_TLS := []\<rparr>"

lemma second_hosts: "getHosts second_ingress = [\<lparr>h_Host = ''b.example.com'', h_TLS = False\<rparr>]"
  by (simp add: getHosts_def second_ingress_def sample_ingress_def checkTLS_def)

lemmas pool_defs = pool_step_def start_pool_def fresh_thread_def after_read_def log_event_def

definition two_appends :: "operation list list" where
  "two_appends = [[AppendConfig ''t'' [\<lparr>h_Host = ''a'', h_TLS = False\<rparr>] (Addr4 10 0 0 1) sample_settings],
     [AppendConfig ''t'' [\<lparr>h_Host = ''b'', h_TLS = False\<rparr>] (Addr4 10 0 0 1) sample_settings]]"

lemma unlocked_run:
  "\<exists>es p. pool_reach False (mem_reconciler cf ing no_secret) (start_pool sample_state two_appends) es p \<and> finished p \<and>
    (\<forall>th \<in> set (p_Threads p). th_Result th = Ok ()) \<and>
    rule_table (tc_Ingress (cl_config (world (world (p_Sys p))) ''t'')) ''a'' = None"
proof -
  let ?r = "mem_reconciler cf ing no_secret"
  obtain es q where run: "run_schedule False ?r [0, 1, 0, 1, 0, 1, 0, 1] (start_pool sample_state two_appends) = (es, q)"
    by fastforce
  then have q: "finished q" "\<forall>th \<in> set (p_Threads q). th_Result th = Ok ()"
    "cl_config (world (world (p_Sys q))) ''t'' = appended_config (\<lambda>rs. rs) sample_settings (Addr4 10 0 0 1)
      [\<lparr>h_Host = ''b'', h_TLS = False\<rparr>] empty_config"
    by (auto simp: pool_defs finished_def two_appends_def sample_state_def run_defs mem_defs client_defs)
  have "enumerates (\<lambda>rs. rs)" by (simp add: enumerates_def)
  then have "rule_table (tc_Ingress (cl_config (world (world (p_Sys q))) ''t'')) ''a'' = None"
    by (simp add: q(3) table_appended spec_append_def rule_table_def empty_config_def)
  moreover from run_schedule_reach [OF pool_reach.start run]
  have "pool_reach False ?r (start_pool sample_state two_appends) es q" by simp
  ultimately show ?thesis using q(1,2) by blast
qed

definition two_jobs :: "(Ingress \<times> Addr) list" where
  "two_jobs = [(sample_ingress None, Addr4 10 0 0 1), (second_ingress, Addr4 10 0 0 2)]"

definition two_programs :: "operation list list" where
  "two_programs = map (\<lambda>(ing, ip). sync_operations ''t'' sample_settings ip ing) two_jobs"

lemma two_jobs_first: "0 < length two_jobs" "two_jobs ! 0 = (sample_ingress None, Addr4 10 0 0 1)"
  by (simp_all add: two_jobs_def)

lemma two_jobs_cases: "j < length two_jobs \<Longrightarrow> j = 0 \<or> j = 1"
  by (auto simp: two_jobs_def)

lemma two_jobs_rules: "ing_Rules (fst (two_jobs ! 0)) = [''a.example.com'']" "ing_Rules (fst (two_jobs ! 1)) = [''b.example.com'']"
  by (simp_all add: two_jobs_def sample_ingress_def second_ingress_def)

lemma two_jobs_named: "j < length two_jobs \<Longrightarrow> [] \<notin> set (ing_Rules (fst (two_jobs ! j)))"
  using two_jobs_cases [of j] two_jobs_rules by auto

lemma two_jobs_disjoint: "i < length two_jobs \<Longrightarrow> j < length two_jobs \<Longrightarrow> i \<noteq> j \<Longrightarrow>
    set (ing_Rules (fst (two_jobs ! i))) \<inter> set (ing_Rules (fst (two_jobs ! j))) = {}"
  using two_jobs_cases [of i] two_jobs_cases [of j] two_jobs_rules by auto

lemma second_shown: "\<not> checkToBeIgnored (om_Annotations (ing_Meta second_ingress))"
  using sample_shown [of None] by (simp add: second_ingress_def)

lemma mem_run_operations:
  assumes "proxy_known s"
  shows "\<exists>s'. run_operations (mem_reconciler cf ing secret) (AppendConfig t hosts ip ts # map (AppendDNS t) hosts) s = (Ok (), s')
     \<and> proxy_known s'"
proof -
  let ?r = "mem_reconciler cf ing secret"
  have loop: "proxy_known s \<Longrightarrow> \<exists>s'. run_operations ?r (map (AppendDNS t) hosts) s = (Ok (), s') \<and> proxy_known s'" for s
  proof (induction hosts arbitrary: s)
    case (Cons h hosts)
    from mem_appendDNS [OF Cons.prems] obtain s1 where "appendDNSRecord ?r t h s = (Ok (), s1)" "proxy_known s1" by blast
    with Cons.IH show ?case by (auto simp: run_operations_def ok_simps)
  qed (simp add: run_operations_def ok_simps)
  obtain s1 where s1: "appendCloudflareTunnelConfig ?r t hosts ip ts s = (Ok (), s1)"
    "cl_zone (world (world s1)) = cl_zone (world (world s))" using mem_appendConfig by blast
  with assms have "proxy_known s1" by (simp add: proxy_known_def)
  from loop [OF this] s1 show ?thesis by (auto simp: run_operations_def ok_simps)
qed

lemma sync_operations_shown: "\<not> checkToBeIgnored (om_Annotations (ing_Meta ing)) \<Longrightarrow>
    sync_operations t ts ip ing = AppendConfig t (getHosts ing) ip ts # map (AppendDNS t) (getHosts ing)"
  by (simp add: sync_operations_def Let_def)

lemma sample_pool: 
  "\<exists>es p. pool_reach True (mem_reconciler cf ing secret)
      (start_pool sample_state two_programs) es p \<and>
    finished p \<and> (\<forall>th \<in> set (p_Threads p). th_Result th = Ok ())"
proof -
  let ?r = "mem_reconciler cf ing secret"
  let ?ops = "\<lambda>(ing, ip). sync_operations ''t'' sample_settings ip ing"
  let ?p = "start_pool sample_state two_programs"
  have ops: "?ops (two_jobs ! 0) = sync_operations ''t'' sample_settings (Addr4 10 0 0 1) (sample_ingress None)"
    "?ops (two_jobs ! 1) = sync_operations ''t'' sample_settings (Addr4 10 0 0 2) second_ingress"
    by (simp_all add: two_jobs_def)
  have "proxy_known sample_state" using sample_proxy_known [of "trace sample_state"] by simp
  with mem_run_operations obtain s1 where s1: "run_operations ?r (?ops (two_jobs ! 0)) sample_state = (Ok (), s1)" "proxy_known s1"
    unfolding ops sync_operations_shown [OF sample_shown] by blast
  from mem_run_operations [OF s1(2)] obtain s2 where s2: "run_operations ?r (?ops (two_jobs ! 1)) s1 = (Ok (), s2)"
    unfolding ops sync_operations_shown [OF second_shown] by blast
  have th: "p_Threads ?p = [fresh_thread (?ops (two_jobs ! 0)), fresh_thread (?ops (two_jobs ! 1))]"
    "p_Mutex ?p = None" "p_Sys ?p = sample_state"
    by (simp_all add: start_pool_def two_programs_def two_jobs_def)
  let ?done = "\<lparr>th_Point = AtLock, th_Todo = [], th_Result = Ok ()\<rparr>"
  from pool_thread_alone [OF pool_reach.start, of ?p 0 "?ops (two_jobs ! 0)" ?r s1] s1(1) obtain es1 where
    r1: "pool_reach True ?r ?p es1 (?p\<lparr>p_Sys := s1, p_Threads := [?done, fresh_thread (?ops (two_jobs ! 1))]\<rparr>)"
    by (auto simp: th fresh_thread_def)
  from pool_thread_alone [OF r1, of 1 "?ops (two_jobs ! 1)" s2] s2 obtain es2 where
    "pool_reach True ?r ?p es2 (?p\<lparr>p_Sys := s2, p_Threads := [?done, ?done]\<rparr>)"
    by (auto simp: th fresh_thread_def)
  then show ?thesis by (intro exI conjI) (auto simp: finished_def)
qed

section \<open>The deletion of the sample tunnel\<close>

definition deleted_tunnel :: CloudflareTunnel where
  "deleted_tunnel = (sample_tunnel ''t'')\<lparr>cft_Meta := sample_meta [finalizerName] (Some ''now'')\<rparr>"

lemma deleted_tunnel_parts: "cft_TunnelID deleted_tunnel = ''t''" "om_DeletionTimestamp (cft_Meta deleted_tunnel) = Some ''now''"
    "ContainsFinalizer mem_lib (cft_Meta deleted_tunnel) finalizerName"
  by (simp_all add: deleted_tunnel_def sample_tunnel_def sample_meta_def zero_meta_def mem_lib_def)

lemma mem_deletes: "\<exists>s'. forE rs (\<lambda>x. wrapV msg (logged (ev x)
    (api_DeleteDNSRecord mem_api z (rec_ID x)))) s = (Ok (), s')"
proof (induction rs arbitrary: s)
  case (Cons x rs)
  obtain s1 where "wrapV msg (logged (ev x) (api_DeleteDNSRecord mem_api z (rec_ID x))) s = (Ok (), s1)"
    by (simp add: mem_api_def run_defs)
  with Cons [of s1] show ?case by (auto simp: ok_simps)
qed (simp add: retE_def)

lemma mem_DeleteAllDNS: "\<exists>s'. client_DeleteAllDNS mem_client t s = (Ok (), s')"
proof -
  let ?z = "zone_rc mem_client"
  obtain s1 rs where list: "logged (A_ListDNSRecords ?z (own_listing t)) (api_ListDNSRecords mem_api ?z (own_listing t)) s = (Ok rs, s1)"
    by (simp add: mem_api_def run_defs)
  obtain s2 where "forE rs (\<lambda>record. wrapV ''failed to update tunnel configs''
      (logged (A_DeleteDNSRecord ?z (rec_ID record)) (api_DeleteDNSRecord mem_api ?z (rec_ID record)))) s1 = (Ok (), s2)"
    using mem_deletes [where ev = "\<lambda>x. A_DeleteDNSRecord ?z (rec_ID x)"] by blast
  with list have "client_DeleteAllDNS mem_client t s = (Ok (), s2)"
    by (cases "rs = []") (auto simp: client_DeleteAllDNS_def own_comment_eq own_listing_def mem_client_def ok_simps Let_def)
  then show ?thesis by blast
qed

lemma mem_calm: "calm (mem_reconciler cf ing secret) (\<lambda>w. cl_zone (world w))"
  by (auto simp: calm_def mem_defs client_DeleteTunnel_def run_defs)

lemma deletion_run: "\<exists>s'. tunnel_Reconcile (mem_reconciler deleted_tunnel ing secret) sample_key s = (Ok (zero_Result, None), s')"
proof -
  let ?r = "mem_reconciler deleted_tunnel ing secret"
  define s0 where "s0 = s\<lparr>trace := trace s @ [K_GetCloudflareTunnel sample_key (Ok deleted_tunnel)]\<rparr>"
  obtain w where "client_DeleteAllDNS mem_client ''t'' (world s0) = (Ok (), w)" using mem_DeleteAllDNS by blast
  then have "tunnel_release ?r deleted_tunnel s0 = (Ok (zero_Result, None), snd (tunnel_release ?r deleted_tunnel s0))"
    by (simp add: tunnel_release_def deleted_tunnel_parts mem_defs client_DeleteTunnel_def run_defs)
  moreover have "k_Get_CloudflareTunnel (r_Client ?r) sample_key (world s) = (Ok deleted_tunnel, world s)"
    by (simp add: mem_defs)
  ultimately show ?thesis
    using Reconcile_deleted [of ?r sample_key s deleted_tunnel "world s"] deleted_tunnel_parts by (auto simp: s0_def)
qed

lemma sample_tidy: "tidy own_mark (cl_zone (world (world sample_state)))"
  by (simp add: tidy_def zone_ok_def alias_of_def tunnel_target_def sample_state_def sample_record_def)

section \<open>A lookup before the deletion, the records after it\<close>

text \<open>A record written for a tunnel is an alias of it.\<close>

lemma appendDNS_alias:
  assumes "documented_service c zone config" and "r_Manager r = client_manager c" and "zone_ok (zone (world (world s)))"
    and "appendDNSRecord r t h s = (Ok (), s')" and "h_Host h \<noteq> ''''"
  shows "\<exists>x \<in> set (zone (world (world s'))). alias_of t x"
proof -
  let ?x = "first_cname (h_Host h) (zone (world (world s')))"
  have "points_to ?x t"
    using client_view.appendDNS_effect(1) [OF assms] by (simp add: client_view.lookup_def)
  moreover from this have "?x \<noteq> zero_DNSRecord" by (auto simp: points_to_def zero_DNSRecord_def)
  ultimately show ?thesis
    using first_cname_in [of "h_Host h" "zone (world (world s'))"]
    by (auto simp: alias_of_def points_to_def cname_matches_def)
qed

lemma stale_lookup:
  fixes ing secret
  defines "before \<equiv> mem_reconciler (sample_tunnel ''t'') ing secret" and "after \<equiv> mem_reconciler deleted_tunnel ing secret"
  shows "\<exists>s1 s2 s3. getCloudflareTunnel before sample_key sample_state = (Ok (sample_tunnel ''t''), s1) \<and>
    tunnel_Reconcile after sample_key s1 = (Ok (zero_Result, None), s2) \<and>
    (\<forall>x \<in> set (cl_zone (world (world s2))). \<not> alias_of ''t'' x) \<and>
    appendDNSRecord after ''t'' \<lparr>h_Host = ''a.example.com'', h_TLS = True\<rparr> s2 = (Ok (), s3) \<and>
    (\<exists>x \<in> set (cl_zone (world (world s3))). alias_of ''t'' x)"
proof -
  let ?h = "\<lparr>h_Host = ''a.example.com'', h_TLS = True\<rparr>"
  define s1 where "s1 = sample_state\<lparr>trace := [K_GetCloudflareTunnel sample_key (Ok (sample_tunnel ''t''))]\<rparr>"
  define s1' where "s1' = s1\<lparr>world := world s1, trace := trace s1 @ [K_GetCloudflareTunnel sample_key (Ok deleted_tunnel)]\<rparr>"
  have w: "world s1' = world sample_state" by (simp add: s1_def s1'_def sample_state_def)
  have lookup: "getCloudflareTunnel before sample_key sample_state = (Ok (sample_tunnel ''t''), s1)"
    unfolding before_def s1_def by (simp add: mem_lookup) (simp add: sample_state_def)
  obtain s2 where del: "tunnel_Reconcile after sample_key s1 = (Ok (zero_Result, None), s2)"
    unfolding after_def using deletion_run by blast
  have "k_Get_CloudflareTunnel (r_Client after) sample_key (world s1) = (Ok deleted_tunnel, world s1)"
    by (simp add: after_def mem_defs)
  with del have rel: "tunnel_release after deleted_tunnel s1' = (Ok (zero_Result, None), s2)"
    using Reconcile_deleted [of after sample_key s1 deleted_tunnel "world s1"] deleted_tunnel_parts
    by (simp add: s1'_def after_def)
  have mgr: "r_Manager after = client_manager mem_client" and calm: "calm after (\<lambda>w. cl_zone (world w))"
    by (simp_all add: after_def mem_calm)
  from sample_tidy have tidy: "tidy own_mark (cl_zone (world (world s1')))" by (simp add: w)
  note gone = client_owner.release_aliases [OF mem_client_documented mgr tidy calm rel, unfolded deleted_tunnel_parts]
  from gone(2) have ok: "zone_ok (cl_zone (world (world s2)))" by (simp add: tidy_def)
  from tidy have "zone_ok (cl_zone (world (world s1')))" by (simp add: tidy_def)
  from client_owner.release_zone [OF mem_client_documented mgr this calm rel]
  have "set (cl_zone (world (world s2))) \<subseteq> set (cl_zone (world (world sample_state)))" by (auto simp: w)
  moreover have "proxy_known sample_state" using sample_proxy_known [of "trace sample_state"] by simp
  ultimately have "proxy_known s2" unfolding proxy_known_def by blast
  then obtain s3 where add: "appendDNSRecord after ''t'' ?h s2 = (Ok (), s3)"
    unfolding after_def using mem_appendDNS by blast
  from appendDNS_alias [OF mem_client_documented mgr ok add] lookup del add gone(1) show ?thesis by auto
qed

end
