(* ===== verification/Logger.thy ===== *)
theory Logger
  imports Prelude
begin

text \<open>
  \<^verbatim>\<open>createLogger\<close> of \<^verbatim>\<open>cmd/main.go\<close>: the level and the format of the log from the two command
  line flags. The handlers themselves belong to \<^verbatim>\<open>log/slog\<close> and \<^verbatim>\<open>console-slog\<close>; the model
  gives the options they are made with, and the warnings printed on the way.
\<close>

datatype Level = LevelDebug | LevelInfo | LevelWarn | LevelError

text \<open>\<^verbatim>\<open>slog.Level\<close> is an integer; a handler prints the records at or above its level.\<close>

fun level_number :: "Level \<Rightarrow> int" where
  "level_number LevelDebug = -4"
| "level_number LevelInfo = 0"
| "level_number LevelWarn = 4"
| "level_number LevelError = 8"

instantiation Level :: linorder
begin

definition less_eq_Level :: "Level \<Rightarrow> Level \<Rightarrow> bool" where
  "less_eq_Level a b \<longleftrightarrow> level_number a \<le> level_number b"

definition less_Level :: "Level \<Rightarrow> Level \<Rightarrow> bool" where
  "less_Level a b \<longleftrightarrow> level_number a < level_number b"

instance
proof
  fix a b :: Level
  show "a \<le> b \<Longrightarrow> b \<le> a \<Longrightarrow> a = b"
    by (cases a; cases b) (simp_all add: less_eq_Level_def)
qed (auto simp: less_eq_Level_def less_Level_def)

end

datatype LogType = LogTypeJSON | LogTypeText

record LoggerOptions =
  lo_Type :: LogType
  lo_Level :: Level
  lo_AddSource :: bool

definition parse_level :: "string \<Rightarrow> Level \<times> string list" where
  "parse_level logLevelStr = (let s = strings_ToLower logLevelStr in
     if s = ''debug'' then (LevelDebug, [])
     else if s = ''info'' then (LevelInfo, [])
     else if s = ''warn'' then (LevelWarn, [])
     else if s = ''error'' then (LevelError, [])
     else (LevelInfo, [''Invalid log level, use default level: info'']))"

definition parse_type :: "string \<Rightarrow> LogType \<times> string list" where
  "parse_type logTypeStr = (let s = strings_ToLower logTypeStr in
     if s = ''json'' then (LogTypeJSON, [])
     else if s = ''text'' then (LogTypeText, [])
     else (LogTypeJSON, [''Invalid log type, use default type: json'']))"

text \<open>The options of the handler, and the texts of the warnings.\<close>

definition createLogger :: "string \<Rightarrow> string \<Rightarrow> LoggerOptions \<times> string list" where
  "createLogger logLevelStr logTypeStr =
     (case parse_level logLevelStr of (level, w1) \<Rightarrow>
      case parse_type logTypeStr of (typ, w2) \<Rightarrow>
        (\<lparr>lo_Type = typ, lo_Level = level, lo_AddSource = (level = LevelDebug)\<rparr>, w1 @ w2))"

definition enabled :: "LoggerOptions \<Rightarrow> Level \<Rightarrow> bool" where
  "enabled opts level \<longleftrightarrow> lo_Level opts \<le> level"

lemma parse_level_range: "snd (parse_level s) = [] \<longleftrightarrow>
    strings_ToLower s \<in> {''debug'', ''info'', ''warn'', ''error''}"
  by (simp add: parse_level_def Let_def)

lemma createLogger_error: "enabled (fst (createLogger s t)) LevelError"
  by (auto simp: createLogger_def enabled_def less_eq_Level_def parse_level_def parse_type_def Let_def)

lemma createLogger_debug_iff:
  "enabled (fst (createLogger s t)) LevelDebug \<longleftrightarrow> strings_ToLower s = ''debug''"
  by (auto simp: createLogger_def enabled_def less_eq_Level_def parse_level_def parse_type_def Let_def)

lemma createLogger_source:
  "lo_AddSource (fst (createLogger s t)) \<longleftrightarrow> enabled (fst (createLogger s t)) LevelDebug"
  by (auto simp: createLogger_def enabled_def less_eq_Level_def parse_level_def parse_type_def Let_def)

end
