(* ===== verification/EntryPoint.thy ===== *)
theory EntryPoint
  imports Logger TunnelEvents CloudflareClient
begin

text \<open>
  \<^verbatim>\<open>main\<close> of \<^verbatim>\<open>cmd/main.go\<close>: the order in which the process sets itself up, the options of
  its two servers, and where it exits. Parsing of the command line and of the environment,
  the construction of the manager and its registries are calls into libraries; each is an
  event.
\<close>

section \<open>Flags and configuration\<close>

record Flags =
  metricsAddr :: string
  probeAddr :: string
  enableLeaderElection :: bool
  secureMetrics :: bool
  enableHTTP2 :: bool
  logLevelStr :: string
  logtype :: string

definition default_flags :: Flags where
  "default_flags = \<lparr>metricsAddr = ''0'', probeAddr = '':8081'', enableLeaderElection = True,
     secureMetrics = True, enableHTTP2 = False, logLevelStr = ''info'', logtype = ''json''\<rparr>"

record Config =
  CloudflareAPIToken :: string
  CloudflareAccountID :: string
  CloudflareZoneID :: string
  EnableWebhooks :: bool

text \<open>Of \<^verbatim>\<open>tls.Config\<close>, the protocols offered in the handshake; the rest is opaque.\<close>

record tls_config =
  tls_NextProtos :: "string list"
  tls_Rest :: json

definition disableHTTP2 :: "tls_config \<Rightarrow> tls_config" where
  "disableHTTP2 c = c\<lparr>tls_NextProtos := [''http/1.1'']\<rparr>"

definition tls_options :: "Flags \<Rightarrow> (tls_config \<Rightarrow> tls_config) list" where
  "tls_options f = (if \<not> enableHTTP2 f then [disableHTTP2] else [])"

record metrics_options =
  mo_BindAddress :: string
  mo_SecureServing :: bool
  mo_TLSOpts :: "(tls_config \<Rightarrow> tls_config) list"
  mo_Authenticated :: bool \<comment> \<open>\<^verbatim>\<open>FilterProvider = filters.WithAuthenticationAndAuthorization\<close>\<close>

definition metrics_server_options :: "Flags \<Rightarrow> metrics_options" where
  "metrics_server_options f = (let opts = \<lparr>mo_BindAddress = metricsAddr f, mo_SecureServing = secureMetrics f,
       mo_TLSOpts = tls_options f, mo_Authenticated = False\<rparr> in
     if secureMetrics f then opts\<lparr>mo_Authenticated := True\<rparr> else opts)"

record manager_options =
  mg_Metrics :: metrics_options
  mg_WebhookTLSOpts :: "(tls_config \<Rightarrow> tls_config) list"
  mg_HealthProbeBindAddress :: string
  mg_LeaderElection :: bool
  mg_LeaderElectionID :: string

definition manager_options_of :: "Flags \<Rightarrow> manager_options" where
  "manager_options_of f = \<lparr>mg_Metrics = metrics_server_options f, mg_WebhookTLSOpts = tls_options f,
     mg_HealthProbeBindAddress = probeAddr f, mg_LeaderElection = enableLeaderElection f,
     mg_LeaderElectionID = ''c770d844.cf-tunnel-operator.walnuts.dev''\<rparr>"

section \<open>The schemes\<close>

text \<open>
  \<^verbatim>\<open>utilruntime.Must\<close> turns an error into a panic. \<^verbatim>\<open>init\<close> registers the API groups of client-go,
  of the operator, of the Prometheus operator and of the resource definitions; \<open>add\<close> is their
  \<^verbatim>\<open>AddToScheme\<close>.
\<close>

definition must :: "('s, unit) io \<Rightarrow> ('s, unit) io" where
  "must m = handle m (\<lambda>e. panicE ''error'') retE"

definition init_scheme :: "(string \<Rightarrow> ('s, unit) io) \<Rightarrow> ('s, unit) io" where
  "init_scheme add = forE [''clientgoscheme'', ''cftunneloperatorv1beta1'', ''monitoringv1'', ''apiextensionsv1'']
     (\<lambda>group. must (add group))"

lemma must_no_error: "must m s \<noteq> (Err e, s')"
  by (auto simp: must_def handle_def panicE_def retE_def split: prod.splits outcome.splits)

lemma forE_no_error: "(\<And>x s s'. x \<in> set xs \<Longrightarrow> body x s \<noteq> (Err e, s')) \<Longrightarrow> forE xs body s \<noteq> (Err e, s')"
proof (induction xs arbitrary: s)
  case (Cons x xs)
  show ?case
  proof
    assume "forE (x # xs) body s = (Err e, s')"
    with Cons.prems [of x] obtain y s1 where "body x s = (Ok y, s1)" "forE xs body s1 = (Err e, s')"
      by (auto simp: bindE_def handle_def throwE_def split: prod.splits outcome.splits)
    with Cons show False by auto
  qed
qed (simp add: retE_def)

text \<open>A group that cannot be registered ends the process before \<^verbatim>\<open>main\<close>.\<close>

lemma init_scheme_no_error: "init_scheme add s \<noteq> (Err e, s')"
  unfolding init_scheme_def by (intro forE_no_error must_no_error)

section \<open>The libraries\<close>

text \<open>
  A controller is registered with its reconciler, and a webhook, by their builder's
  \<^verbatim>\<open>Complete\<close>. \<^verbatim>\<open>GetConfigOrDie\<close> ends the process itself when there is no configuration, which
  its error outcome stands for. \<open>b_GetClient\<close> is the client of the manager; \<open>b_Lib\<close> and
  \<open>b_MapValues\<close> are the libraries and the runtime the reconcilers run on.
\<close>

record ('w, 'c) boot =
  b_ParseEnv :: "('w, Config) io"
  b_GetConfigOrDie :: "('w, unit) io"
  b_NewManager :: "manager_options \<Rightarrow> ('w, unit) io"
  b_NewWithAPIToken :: "string \<Rightarrow> 'c cf_api outcome"
  b_RandRead :: "nat \<Rightarrow> ('c, nat list) io"
  b_ReadCRD :: "string \<Rightarrow> ('w, unit) io"
  b_GetClient :: "'c client_state k8s_client"
  b_Lib :: k8s_lib
  b_MapValues :: "IngressRule list \<Rightarrow> IngressRule list"
  b_CompleteController :: "string \<Rightarrow> string list \<Rightarrow> 'c client_state reconciler \<Rightarrow> ('w, unit) io"
  b_CompleteWebhook :: "('w, unit) io"
  b_AddHealthzCheck :: "string \<Rightarrow> ('w, unit) io"
  b_AddReadyzCheck :: "string \<Rightarrow> ('w, unit) io"
  b_Start :: "('w, unit) io"

text \<open>\<^verbatim>\<open>slog.SetDefault\<close>, \<^verbatim>\<open>klog.SetLogger\<close> and \<^verbatim>\<open>ctrl.SetLogger\<close>, each with the one handler.\<close>

datatype log_target = Slog | Klog | Ctrl

datatype 'c boot_event =
    B_SetLogger log_target LoggerOptions
  | B_ParseEnv "Config outcome"
  | B_GetConfig "unit outcome"
  | B_NewManager manager_options "unit outcome"
  | B_NewClient Config "unit outcome"
  | B_ReadCRD string "unit outcome"
  | B_Controller string "string list" "'c client_state reconciler" "unit outcome"
  | B_Webhook "unit outcome"
  | B_Healthz string "unit outcome"
  | B_Readyz string "unit outcome"
  | B_Start "unit outcome"

type_synonym ('w, 'c) boot_state = "('w, 'c boot_event) sys"

datatype status = Returned | Exited string

section \<open>The setup functions\<close>

definition attempt :: "('s, 'a) io \<Rightarrow> ('s, 'a outcome) io" where
  "attempt m = (\<lambda>s. case m s of (Panic p, s') \<Rightarrow> (Panic p, s') | (r, s') \<Rightarrow> (Ok r, s'))"

text \<open>The fields both reconcilers are built with.\<close>

definition wired :: "('w, 'c) boot \<Rightarrow> 'c CloudflareTunnelClient \<Rightarrow> 'c client_state reconciler" where
  "wired b cfManager = \<lparr>r_Client = b_GetClient b, r_Manager = client_manager cfManager, r_Lib = b_Lib b,
     r_MapValues = b_MapValues b\<rparr>"

text \<open>
  The two \<^verbatim>\<open>SetupWithManager\<close>: the tunnel controller asks for the resource definition of
  service monitors first (its owned kinds are \<open>SetupWithManager\<close> of \<^verbatim>\<open>TunnelReconciler\<close>).
\<close>

definition setup_tunnel_controller ::
  "('w, 'c) boot \<Rightarrow> 'c client_state reconciler \<Rightarrow> (('w, 'c) boot_state, unit) io" where
  "setup_tunnel_controller b r = (let crd = ''servicemonitors.monitoring.coreos.com'' in
     bindE (attempt (logged (B_ReadCRD crd) (b_ReadCRD b crd)))
     (\<lambda>answer. bindE (liftO (SetupWithManager answer))
     (\<lambda>owned. logged (B_Controller ''CloudflareTunnel'' owned r) (b_CompleteController b ''CloudflareTunnel'' owned r))))"

definition setup_ingress_controller ::
  "('w, 'c) boot \<Rightarrow> 'c client_state reconciler \<Rightarrow> (('w, 'c) boot_state, unit) io" where
  "setup_ingress_controller b r = logged (B_Controller ''Ingress'' [] r) (b_CompleteController b ''Ingress'' [] r)"

definition setup_webhook :: "('w, 'c) boot \<Rightarrow> (('w, 'c) boot_state, unit) io" where
  "setup_webhook b = logged B_Webhook (b_CompleteWebhook b)"

definition new_cf_manager :: "('w, 'c) boot \<Rightarrow> Config \<Rightarrow> 'c CloudflareTunnelClient outcome" where
  "new_cf_manager b cfg = NewCloudflareTunnelClient (b_NewWithAPIToken b)
     (CloudflareAPIToken cfg) (CloudflareAccountID cfg) (CloudflareZoneID cfg) (random_SecureString (b_RandRead b))"

section \<open>main\<close>

text \<open>\<^verbatim>\<open>if err := m(); err != nil { setupLog.Error(err, msg); os.Exit(1) }\<close>\<close>

definition or_exit :: "string \<Rightarrow> ('s, 'a) io \<Rightarrow> ('a \<Rightarrow> ('s, status) io) \<Rightarrow> ('s, status) io" where
  "or_exit msg m k = handle m (\<lambda>e. retE (Exited msg)) k"

definition start_manager :: "('w, 'c) boot \<Rightarrow> (('w, 'c) boot_state, status) io" where
  "start_manager b =
     or_exit ''unable to set up health check'' (logged (B_Healthz ''healthz'') (b_AddHealthzCheck b ''healthz'')) (\<lambda>_.
     or_exit ''unable to set up ready check'' (logged (B_Readyz ''readyz'') (b_AddReadyzCheck b ''readyz'')) (\<lambda>_.
     or_exit ''problem running manager'' (logged B_Start (b_Start b)) (\<lambda>_. retE Returned)))"

definition register :: "('w, 'c) boot \<Rightarrow> Config \<Rightarrow> (('w, 'c) boot_state, status) io" where
  "register b cfg =
     or_exit ''unable to create Cloudflare Tunnel client''
       (logged (\<lambda>r. B_NewClient cfg (map_outcome (\<lambda>_. ()) r)) (liftO (new_cf_manager b cfg))) (\<lambda>cfManager.
     or_exit ''unable to create controller CloudflareTunnel'' (setup_tunnel_controller b (wired b cfManager)) (\<lambda>_.
     or_exit ''unable to create controller Ingress'' (setup_ingress_controller b (wired b cfManager)) (\<lambda>_.
     if EnableWebhooks cfg then or_exit ''unable to create webhook'' (setup_webhook b) (\<lambda>_. start_manager b)
     else start_manager b)))"

definition main_run :: "('w, 'c) boot \<Rightarrow> Flags \<Rightarrow> (('w, 'c) boot_state, status) io" where
  "main_run b f =
     (let l = fst (createLogger (logLevelStr f) (logtype f)) in
     bindE (emit (B_SetLogger Slog l)) (\<lambda>_.
     bindE (emit (B_SetLogger Klog l)) (\<lambda>_.
     bindE (emit (B_SetLogger Ctrl l)) (\<lambda>_.
     or_exit ''unable to parse environment variables'' (logged B_ParseEnv (b_ParseEnv b)) (\<lambda>cfg.
     or_exit ''unable to get kubeconfig'' (logged B_GetConfig (b_GetConfigOrDie b)) (\<lambda>_.
     or_exit ''unable to start manager''
       (logged (B_NewManager (manager_options_of f)) (b_NewManager b (manager_options_of f))) (\<lambda>_.
     register b cfg)))))))"

section \<open>The order of the setup\<close>

text \<open>The plan: the setup steps with the message the process exits with when one fails.\<close>

fun step_name :: "'c boot_event \<Rightarrow> string" where
  "step_name (B_SetLogger target opts) = (case target of Slog \<Rightarrow> ''slog'' | Klog \<Rightarrow> ''klog'' | Ctrl \<Rightarrow> ''ctrl'')"
| "step_name (B_ParseEnv r) = ''environment''"
| "step_name (B_GetConfig r) = ''kubeconfig''"
| "step_name (B_NewManager opts r) = ''manager''"
| "step_name (B_NewClient cfg r) = ''client''"
| "step_name (B_ReadCRD name r) = ''definition''"
| "step_name (B_Controller name owned reconciler r) = name"
| "step_name (B_Webhook r) = ''webhook''"
| "step_name (B_Healthz name r) = name"
| "step_name (B_Readyz name r) = name"
| "step_name (B_Start r) = ''start''"

fun step_ok :: "'c boot_event \<Rightarrow> bool" where
  "step_ok (B_SetLogger target opts) = True"
| "step_ok (B_ParseEnv r) = (\<exists>v. r = Ok v)"
| "step_ok (B_GetConfig r) = (r = Ok ())"
| "step_ok (B_NewManager opts r) = (r = Ok ())"
| "step_ok (B_NewClient cfg r) = (r = Ok ())"
| "step_ok (B_ReadCRD name r) = (case r of Ok v \<Rightarrow> True | Err e \<Rightarrow> IsNotFound e | Panic p \<Rightarrow> False)"
| "step_ok (B_Controller name owned reconciler r) = (r = Ok ())"
| "step_ok (B_Webhook r) = (r = Ok ())"
| "step_ok (B_Healthz name r) = (r = Ok ())"
| "step_ok (B_Readyz name r) = (r = Ok ())"
| "step_ok (B_Start r) = (r = Ok ())"

definition start_plan :: "(string \<times> string) list" where
  "start_plan = [(''healthz'', ''unable to set up health check''), (''readyz'', ''unable to set up ready check''),
     (''start'', ''problem running manager'')]"

definition register_plan :: "bool \<Rightarrow> (string \<times> string) list" where
  "register_plan webhooks = [(''client'', ''unable to create Cloudflare Tunnel client''),
     (''definition'', ''unable to create controller CloudflareTunnel''),
     (''CloudflareTunnel'', ''unable to create controller CloudflareTunnel''),
     (''Ingress'', ''unable to create controller Ingress'')] @
     (if webhooks then [(''webhook'', ''unable to create webhook'')] else []) @ start_plan"

definition boot_plan :: "bool \<Rightarrow> (string \<times> string) list" where
  "boot_plan webhooks = [(''slog'', ''''), (''klog'', ''''), (''ctrl'', ''''),
     (''environment'', ''unable to parse environment variables''),
     (''kubeconfig'', ''unable to get kubeconfig''), (''manager'', ''unable to start manager'')] @ register_plan webhooks"

text \<open>A run follows a plan up to the first failing step, where it exits with the step's message.\<close>

fun follows :: "(string \<times> string) list \<Rightarrow> 'c boot_event list \<Rightarrow> status \<Rightarrow> bool" where
  "follows [] es st = (es = [] \<and> st = Returned)"
| "follows ((name, msg) # plan) es st = (case es of [] \<Rightarrow> False
    | e # es' \<Rightarrow> step_name e = name \<and> (if step_ok e then follows plan es' st else es' = [] \<and> st = Exited msg))"

definition follows_out :: "(string \<times> string) list \<Rightarrow> 'c boot_event list \<Rightarrow> status outcome \<Rightarrow> bool" where
  "follows_out plan es r \<longleftrightarrow> (case r of Ok st \<Rightarrow> follows plan es st | Err e \<Rightarrow> False
    | Panic p \<Rightarrow> map step_name es = take (length es) (map fst plan))"

lemma follows_out_simps [simp]: "follows_out plan es (Ok st) = follows plan es st"
    "\<not> follows_out plan es (Err e)"
    "follows_out plan es (Panic p) \<longleftrightarrow> map step_name es = take (length es) (map fst plan)"
  by (simp_all add: follows_out_def)

lemma traces_or_exit:
  assumes "\<And>r. step_name (ev r) = name" and "\<And>r. step_ok (ev r) \<longleftrightarrow> (\<exists>x. r = Ok x)"
    and "\<And>x. traces (follows_out plan) (k x)"
  shows "traces (follows_out ((name, msg) # plan)) (or_exit msg (logged ev m) k)"
  unfolding or_exit_def
proof (rule traces_handle_logged)
  fix x show "traces (\<lambda>es. follows_out ((name, msg) # plan) (ev (Ok x) # es)) (k x)"
    by (rule traces_mono [OF assms(3) [of x]]) (use assms(1,2) in \<open>auto simp: follows_out_def split: outcome.splits\<close>)
qed (use assms(1,2) in \<open>auto intro!: traces_retE\<close>)

lemma unit_Ok: "(\<exists>x. r = Ok x) \<longleftrightarrow> r = Ok ()" for r :: "unit outcome"
  by auto

lemma traces_start_manager: "traces (follows_out start_plan) (start_manager b)"
  unfolding start_manager_def start_plan_def
  by (intro traces_or_exit traces_retE) (auto simp: unit_Ok)

lemma traces_setup_tunnel_controller:
  fixes b :: "('w, 'c) boot"
  assumes "\<And>x. traces (follows_out plan) (k x)"
  shows "traces (follows_out ((''definition'', msg) # (''CloudflareTunnel'', msg) # plan))
    (or_exit msg (setup_tunnel_controller b rec) k)"
proof -
  define A :: "'c boot_event list \<Rightarrow> unit outcome \<Rightarrow> bool" where "A = (\<lambda>es r.
    case r of Panic p \<Rightarrow> (\<exists>d. es = [d] \<and> step_name d = ''definition'') \<or>
        (\<exists>d c. es = [d, c] \<and> step_name d = ''definition'' \<and> step_name c = ''CloudflareTunnel'')
    | Err e \<Rightarrow> (\<exists>d. es = [d] \<and> step_name d = ''definition'' \<and> \<not> step_ok d) \<or>
        (\<exists>d c. es = [d, c] \<and> step_name d = ''definition'' \<and> step_ok d \<and> step_name c = ''CloudflareTunnel'' \<and> \<not> step_ok c)
    | Ok _ \<Rightarrow> (\<exists>d c. es = [d, c] \<and> step_name d = ''definition'' \<and> step_ok d \<and> step_name c = ''CloudflareTunnel'' \<and> step_ok c))"
  have "traces A (setup_tunnel_controller b rec)"
    unfolding setup_tunnel_controller_def Let_def bindE_def
  proof (rule traces_handle [where A = "\<lambda>es r. case r of Ok a \<Rightarrow> es = [B_ReadCRD ''servicemonitors.monitoring.coreos.com'' a] |
      Err e \<Rightarrow> False | Panic p \<Rightarrow> (\<exists>d. es = [d] \<and> step_name d = ''definition'')"], goal_cases)
    case 1
    show ?case by (auto simp: traces_def attempt_def logged_def split: prod.splits outcome.splits)
  next
    case (2 answer es0)
    then show ?case
      by (cases answer) (auto simp: A_def SetupWithManager_def Let_def intro!: trace_intros split: outcome.splits)
  qed (auto simp: A_def)
  then show ?thesis
    unfolding or_exit_def
  proof (rule traces_handle, goal_cases)
    case (1 x es0)
    then show ?case
      by (intro traces_mono [OF assms [of x]]) (auto simp: A_def follows_out_def split: outcome.splits)
  qed (auto simp: A_def intro!: traces_retE)
qed

lemma traces_register: "traces (follows_out (register_plan (EnableWebhooks cfg))) (register b cfg)"
proof -
  have tail: "traces (follows_out ((if EnableWebhooks cfg then [(''webhook'', ''unable to create webhook'')] else []) @ start_plan))
      (if EnableWebhooks cfg then or_exit ''unable to create webhook'' (setup_webhook b) (\<lambda>_. start_manager b) else start_manager b)"
    using traces_start_manager [of b] by (auto simp: setup_webhook_def unit_Ok intro!: traces_or_exit)
  show ?thesis
    unfolding register_def register_plan_def append.simps setup_ingress_controller_def
    by (intro traces_or_exit traces_setup_tunnel_controller tail)
      (auto simp: map_outcome_def split: outcome.splits)
qed


lemma follows_names: "follows plan es st \<Longrightarrow> map step_name es = take (length es) (map fst plan)"
  by (induction plan es st rule: follows.induct) (auto split: list.splits if_splits)

lemma follows_out_names: "follows_out plan es r \<Longrightarrow> e \<in> set es \<Longrightarrow> step_name e \<in> fst ` set plan"
proof -
  assume f: "follows_out plan es r" and e: "e \<in> set es"
  then have "map step_name es = take (length es) (map fst plan)"
    by (cases r) (auto dest: follows_names)
  with e have "step_name e \<in> set (take (length es) (map fst plan))" by (metis image_eqI list.set_map)
  then show ?thesis by (auto dest: in_set_takeD)
qed

text \<open>
  The configuration decides whether the plan has the webhook step, the flags alone the logger
  and the options of the manager, and both controllers get the client of the parsed configuration.
\<close>

definition configured :: "('w, 'c) boot \<Rightarrow> Config \<Rightarrow> 'c boot_event list \<Rightarrow> bool" where
  "configured b cfg es \<longleftrightarrow> (\<forall>name owned rec reply. B_Controller name owned rec reply \<in> set es \<longrightarrow>
     (\<exists>c. new_cf_manager b cfg = Ok c \<and> rec = wired b c))"

definition main_events :: "('w, 'c) boot \<Rightarrow> Flags \<Rightarrow> 'c boot_event list \<Rightarrow> status outcome \<Rightarrow> bool" where
  "main_events b f es r \<longleftrightarrow>
     (\<exists>webhooks. follows_out (boot_plan webhooks) es r \<and>
        (\<forall>cfg. B_ParseEnv (Ok cfg) \<in> set es \<longrightarrow> webhooks = EnableWebhooks cfg \<and> configured b cfg es)) \<and>
     (\<forall>target opts. B_SetLogger target opts \<in> set es \<longrightarrow> opts = fst (createLogger (logLevelStr f) (logtype f))) \<and>
     (\<forall>opts reply. B_NewManager opts reply \<in> set es \<longrightarrow> opts = manager_options_of f)"

lemma traces_handle_attempt [trace_intros]:
  assumes "\<And>r. traces (\<lambda>es. R (ev r # es)) (k r)" and "\<And>p. R [ev (Panic p)] (Panic p)"
  shows "traces R (handle (attempt (logged ev m)) h k)"
proof (rule traces_handle [where A = "\<lambda>es r. case r of Ok a \<Rightarrow> es = [ev a] | Err e \<Rightarrow> False | Panic p \<Rightarrow> es = [ev (Panic p)]"])
  show "traces (\<lambda>es r. case r of Ok a \<Rightarrow> es = [ev a] | Err e \<Rightarrow> False | Panic p \<Rightarrow> es = [ev (Panic p)]) (attempt (logged ev m))"
    by (auto simp: traces_def attempt_def logged_def split: prod.splits outcome.splits)
qed (use assms in auto)

lemma traces_handle_known:
  assumes "\<And>x. r = Ok x \<Longrightarrow> traces (\<lambda>es. R (ev (Ok x) # es)) (k x)"
    and "\<And>e. r = Err e \<Longrightarrow> traces (\<lambda>es. R (ev (Err e) # es)) (h e)" and "\<And>p. r = Panic p \<Longrightarrow> R [ev (Panic p)] (Panic p)"
  shows "traces R (handle (logged ev (liftO r)) h k)"
  by (rule traces_handle [where A = "\<lambda>es x. es = [ev r] \<and> x = r"])
    (use assms in \<open>auto simp: traces_def logged_def liftO_def\<close>)

lemma traces_configured: "traces (\<lambda>es r. configured b cfg es) (register b cfg)"
  unfolding register_def or_exit_def
proof (rule traces_handle_known, goal_cases)
  case (1 c)
  then show ?case
    unfolding start_manager_def setup_webhook_def setup_ingress_controller_def setup_tunnel_controller_def
      or_exit_def bindE_def Let_def
    by (intro trace_intros) (auto simp: configured_def intro!: trace_intros)
qed (auto simp: configured_def intro!: trace_intros)

lemma register_names:
  assumes "follows_out (register_plan webhooks) es r"
  shows "B_ParseEnv x \<notin> set es" and "B_NewManager opts y \<notin> set es" and "B_SetLogger target l \<notin> set es"
proof -
  have "step_name e \<notin> {''environment'', ''manager'', ''slog'', ''klog'', ''ctrl''}" if "e \<in> set es" for e
    using follows_out_names [OF assms that] by (auto simp: register_plan_def start_plan_def split: if_splits)
  then show "B_ParseEnv x \<notin> set es" and "B_NewManager opts y \<notin> set es" and "B_SetLogger target l \<notin> set es"
    by (cases target; fastforce)+
qed

lemma traces_main: "traces (main_events b f) (main_run b f)"
  unfolding main_run_def bindE_def or_exit_def Let_def
proof (intro traces_handle_emit traces_handle_logged traces_retE
    traces_mono [OF traces_conj [OF traces_register traces_configured]], goal_cases)
  case (1 cfg v w es r)
  with register_names [of "EnableWebhooks cfg" es r] show ?case
    by (cases r) (auto simp: main_events_def boot_plan_def configured_def intro!: exI [of _ "EnableWebhooks cfg"])
qed (auto simp: main_events_def boot_plan_def configured_def)

section \<open>The servers\<close>

text \<open>A server applies its TLS options in order.\<close>

definition apply_tls :: "(tls_config \<Rightarrow> tls_config) list \<Rightarrow> tls_config \<Rightarrow> tls_config" where
  "apply_tls opts c = fold (\<lambda>opt c. opt c) opts c"

lemma apply_tls_options: "tls_NextProtos (apply_tls (tls_options f) c) =
    (if enableHTTP2 f then tls_NextProtos c else [''http/1.1''])"
  by (simp add: apply_tls_def tls_options_def disableHTTP2_def)

lemma follows_returned: "follows plan es Returned \<Longrightarrow> map step_name es = map fst plan \<and> list_all step_ok es"
  by (induction plan es Returned rule: follows.induct) (auto split: list.splits if_splits)

end
