(* ===== verification/Memory.thy ===== *)
theory Memory
  imports Prelude
begin

text \<open>
  A memory of cells for the code whose correctness is about sharing: a Go pointer, slice or
  map value is an address or nil, \<^verbatim>\<open>new\<close> and \<^verbatim>\<open>make\<close> take the next free address. The locale
  \<open>deep_copier\<close> is the contract of a \<^verbatim>\<open>DeepCopyInto\<close>: an equal value in fresh memory.
\<close>

section \<open>Memories\<close>

type_synonym addr = nat
type_synonym pointer = "addr option"

record 'c mem =
  cells :: "addr \<Rightarrow> 'c option"
  next_addr :: addr

definition mem_ok :: "'c mem \<Rightarrow> bool" where
  "mem_ok m \<longleftrightarrow> (\<forall>a. cells m a \<noteq> None \<longrightarrow> a < next_addr m)"

definition new_cell :: "'c \<Rightarrow> ('c mem, addr) io" where
  "new_cell c = (\<lambda>m. (Ok (next_addr m), m\<lparr>cells := (cells m)(next_addr m \<mapsto> c), next_addr := Suc (next_addr m)\<rparr>))"

definition write_cell :: "addr \<Rightarrow> 'c \<Rightarrow> 'c mem \<Rightarrow> 'c mem" where
  "write_cell a c m = m\<lparr>cells := (cells m)(a \<mapsto> c)\<rparr>"

definition store :: "addr \<Rightarrow> 'c \<Rightarrow> ('c mem, unit) io" where
  "store a c = (\<lambda>m. (Ok (), write_cell a c m))"

definition load :: "addr \<Rightarrow> ('c mem, 'c) io" where
  "load a = (\<lambda>m. case cells m a of None \<Rightarrow> (Panic ''invalid memory address or nil pointer dereference'', m)
     | Some c \<Rightarrow> (Ok c, m))"

text \<open>\<open>m'\<close> has at least the cells of \<open>m\<close>, unchanged.\<close>

definition grows :: "'c mem \<Rightarrow> 'c mem \<Rightarrow> bool" where
  "grows m m' \<longleftrightarrow> mem_ok m' \<and> next_addr m \<le> next_addr m' \<and> (\<forall>a < next_addr m. cells m' a = cells m a)"

definition fresh_between :: "'c mem \<Rightarrow> 'c mem \<Rightarrow> addr set" where
  "fresh_between m m' = {next_addr m ..< next_addr m'}"

lemma grows_refl: "mem_ok m \<Longrightarrow> grows m m"
  by (simp add: grows_def)

lemma grows_trans: "grows m m1 \<Longrightarrow> grows m1 m2 \<Longrightarrow> grows m m2"
  by (auto simp: grows_def)

lemma grows_ok: "grows m m' \<Longrightarrow> mem_ok m'"
  by (simp add: grows_def)

lemma grows_old: "grows m m' \<Longrightarrow> mem_ok m \<Longrightarrow> A \<subseteq> dom (cells m) \<Longrightarrow> a \<in> A \<Longrightarrow> cells m' a = cells m a"
  unfolding grows_def mem_ok_def by blast

lemma new_cell_grows: "mem_ok m \<Longrightarrow> new_cell c m = (Ok a, m') \<Longrightarrow>
    grows m m' \<and> a = next_addr m \<and> cells m' a = Some c \<and> next_addr m' = Suc a"
  by (auto simp: new_cell_def grows_def mem_ok_def less_Suc_eq)

lemma write_fresh_grows: "grows m m' \<Longrightarrow> a \<in> fresh_between m m' \<Longrightarrow> grows m (write_cell a c m')"
  by (auto simp: grows_def write_cell_def fresh_between_def mem_ok_def)

lemma write_cell_simps [simp]: "cells (write_cell a c m) = (cells m)(a \<mapsto> c)"
    "next_addr (write_cell a c m) = next_addr m"
  by (simp_all add: write_cell_def)

lemma fresh_mono: "grows m m1 \<Longrightarrow> grows m1 m2 \<Longrightarrow> fresh_between m m1 \<subseteq> fresh_between m m2"
    "grows m m1 \<Longrightarrow> grows m1 m2 \<Longrightarrow> fresh_between m1 m2 \<subseteq> fresh_between m m2"
  by (auto simp: grows_def fresh_between_def)

lemma fresh_disjoint: "mem_ok m \<Longrightarrow> A \<subseteq> dom (cells m) \<Longrightarrow> B \<subseteq> fresh_between m m' \<Longrightarrow> A \<inter> B = {}"
  by (fastforce simp: mem_ok_def fresh_between_def)

section \<open>The contract of a deep copy\<close>

text \<open>
  \<open>view m p\<close> is the value that \<open>p\<close> denotes in the memory \<open>m\<close> (\<open>None\<close> when a pointer dangles),
  \<open>owned m p\<close> the addresses it reaches. \<open>good\<close> restricts the values that are copied.
\<close>

locale deep_copier =
  fixes copy :: "'p \<Rightarrow> ('c mem, 'p) io" and view :: "'c mem \<Rightarrow> 'p \<Rightarrow> 'v option"
    and owned :: "'c mem \<Rightarrow> 'p \<Rightarrow> addr set" and good :: "'v \<Rightarrow> bool"
  assumes owned_alloc: "view m p = Some v \<Longrightarrow> owned m p \<subseteq> dom (cells m)"
    and view_frame: "view m p = Some v \<Longrightarrow> (\<And>a. a \<in> owned m p \<Longrightarrow> cells m' a = cells m a) \<Longrightarrow>
      view m' p = Some v \<and> owned m' p = owned m p"
    and copies: "mem_ok m \<Longrightarrow> view m p = Some v \<Longrightarrow> good v \<Longrightarrow>
      \<exists>q m'. copy p m = (Ok q, m') \<and> grows m m' \<and> view m' q = Some v \<and> owned m' q \<subseteq> fresh_between m m'"
begin

lemma view_grows: "mem_ok m \<Longrightarrow> view m p = Some v \<Longrightarrow> grows m m' \<Longrightarrow> view m' p = Some v \<and> owned m' p = owned m p"
  using view_frame grows_old owned_alloc by metis

text \<open>The original keeps its value, and a later write to either is not seen through the other.\<close>

lemma copy_isolated:
  assumes ok: "mem_ok m" and v: "view m p = Some v" and g: "good v"
  shows "\<exists>q m'. copy p m = (Ok q, m') \<and> view m' q = Some v \<and> view m' p = Some v \<and> owned m' p \<inter> owned m' q = {} \<and>
    (\<forall>a c. (a \<in> owned m' q \<longrightarrow> view (write_cell a c m') p = Some v) \<and>
      (a \<in> owned m' p \<longrightarrow> view (write_cell a c m') q = Some v))"
proof -
  from copies [OF ok v g] obtain q m' where q: "copy p m = (Ok q, m')" "grows m m'" "view m' q = Some v"
    "owned m' q \<subseteq> fresh_between m m'" by blast
  from view_grows [OF ok v q(2)] have p: "view m' p = Some v" "owned m' p = owned m p" by simp_all
  from fresh_disjoint [OF ok owned_alloc [OF v] q(4)] have disj: "owned m' p \<inter> owned m' q = {}" by (simp add: p)
  have other: "b \<in> B \<Longrightarrow> a \<in> A \<Longrightarrow> A \<inter> B = {} \<Longrightarrow> cells (write_cell a c m') b = cells m' b" for a b c A B
    by auto
  have "view (write_cell a c m') p = Some v" if "a \<in> owned m' q" for a c
    using view_frame [OF p(1) other [OF _ that]] disj by (simp add: Int_commute)
  moreover have "view (write_cell a c m') q = Some v" if "a \<in> owned m' p" for a c
    using view_frame [OF q(3) other [OF _ that disj]] by simp
  ultimately show ?thesis using q(1,3) p(1) disj by blast
qed

end

section \<open>Copying the parts of a value\<close>

text \<open>The copies of two parts one after the other.\<close>

definition pair_copy :: "('p \<Rightarrow> ('c mem, 'p) io) \<Rightarrow> ('q \<Rightarrow> ('c mem, 'q) io) \<Rightarrow> 'p \<times> 'q \<Rightarrow> ('c mem, 'p \<times> 'q) io" where
  "pair_copy c1 c2 p = bindE (c1 (fst p)) (\<lambda>q1. bindE (c2 (snd p)) (\<lambda>q2. retE (q1, q2)))"

definition pair_view :: "('c mem \<Rightarrow> 'p \<Rightarrow> 'v option) \<Rightarrow> ('c mem \<Rightarrow> 'q \<Rightarrow> 'w option) \<Rightarrow> 'c mem \<Rightarrow> 'p \<times> 'q \<Rightarrow> ('v \<times> 'w) option" where
  "pair_view v1 v2 m p = (case v1 m (fst p) of None \<Rightarrow> None | Some x \<Rightarrow>
     (case v2 m (snd p) of None \<Rightarrow> None | Some y \<Rightarrow> Some (x, y)))"

definition pair_owned :: "('c mem \<Rightarrow> 'p \<Rightarrow> addr set) \<Rightarrow> ('c mem \<Rightarrow> 'q \<Rightarrow> addr set) \<Rightarrow> 'c mem \<Rightarrow> 'p \<times> 'q \<Rightarrow> addr set" where
  "pair_owned o1 o2 m p = o1 m (fst p) \<union> o2 m (snd p)"

lemma pair_view_Some: "pair_view v1 v2 m p = Some xy \<longleftrightarrow> v1 m (fst p) = Some (fst xy) \<and> v2 m (snd p) = Some (snd xy)"
  by (cases xy) (auto simp: pair_view_def split: option.splits)

lemma pair_copier:
  fixes c1 :: "'p \<Rightarrow> ('c mem, 'p) io" and c2 :: "'q \<Rightarrow> ('c mem, 'q) io"
  assumes "deep_copier c1 v1 o1 g1" and "deep_copier c2 v2 o2 g2"
  shows "deep_copier (pair_copy c1 c2) (pair_view v1 v2) (pair_owned o1 o2) (\<lambda>v. g1 (fst v) \<and> g2 (snd v))"
proof
  fix m :: "'c mem" and p v
  assume v: "pair_view v1 v2 m p = Some v"
  then show "pair_owned o1 o2 m p \<subseteq> dom (cells m)"
    using deep_copier.owned_alloc [OF assms(1)] deep_copier.owned_alloc [OF assms(2)]
    by (fastforce simp: pair_view_Some pair_owned_def)
  fix m' :: "'c mem"
  assume "\<And>a. a \<in> pair_owned o1 o2 m p \<Longrightarrow> cells m' a = cells m a"
  with v deep_copier.view_frame [OF assms(1), of m "fst p" "fst v" m']
    deep_copier.view_frame [OF assms(2), of m "snd p" "snd v" m']
  show "pair_view v1 v2 m' p = Some v \<and> pair_owned o1 o2 m' p = pair_owned o1 o2 m p"
    by (auto simp: pair_view_Some pair_owned_def)
next
  fix m :: "'c mem" and p v
  assume ok: "mem_ok m" and v: "pair_view v1 v2 m p = Some v" and g: "g1 (fst v) \<and> g2 (snd v)"
  then have v1: "v1 m (fst p) = Some (fst v)" and v2: "v2 m (snd p) = Some (snd v)" by (simp_all add: pair_view_Some)
  from deep_copier.copies [OF assms(1) ok v1] g obtain q1 m1 where q1: "c1 (fst p) m = (Ok q1, m1)" "grows m m1"
    "v1 m1 q1 = Some (fst v)" "o1 m1 q1 \<subseteq> fresh_between m m1" by blast
  from deep_copier.view_grows [OF assms(2) ok v2 q1(2)] have "v2 m1 (snd p) = Some (snd v)" by simp
  from deep_copier.copies [OF assms(2) grows_ok [OF q1(2)] this] g obtain q2 m2 where q2: "c2 (snd p) m1 = (Ok q2, m2)"
    "grows m1 m2" "v2 m2 q2 = Some (snd v)" "o2 m2 q2 \<subseteq> fresh_between m1 m2" by blast
  from deep_copier.view_grows [OF assms(1) grows_ok [OF q1(2)] q1(3) q2(2)]
  have "v1 m2 q1 = Some (fst v)" "o1 m2 q1 = o1 m1 q1" by simp_all
  then show "\<exists>q m'. pair_copy c1 c2 p m = (Ok q, m') \<and> grows m m' \<and> pair_view v1 v2 m' q = Some v \<and>
      pair_owned o1 o2 m' q \<subseteq> fresh_between m m'"
    using q1 q2 fresh_mono [OF q1(2) q2(2)] grows_trans [OF q1(2) q2(2)]
    by (intro exI [of _ "(q1, q2)"] exI [of _ m2])
      (auto simp: pair_copy_def bindE_def handle_def retE_def pair_view_Some pair_owned_def)
qed

text \<open>
  A struct: \<open>parts\<close> are the parts that need a copy, \<open>with_parts\<close> is the shallow copy with the
  parts replaced, and \<open>value\<close> makes the struct's value from its own fields and its parts' values.
\<close>

lemma struct_copier:
  fixes c :: "'q \<Rightarrow> ('c mem, 'q) io"
  assumes c: "deep_copier c v o1 g"
    and parts: "\<And>p q. parts (with_parts p q) = q" and rest: "\<And>p q. value (with_parts p q) = value p"
    and copy: "\<And>p. copy p = bindE (c (parts p)) (\<lambda>q. retE (with_parts p q))"
    and good: "\<And>p x. good (value p x) \<Longrightarrow> g x"
  shows "deep_copier copy (\<lambda>m p. map_option (value p) (v m (parts p))) (\<lambda>m p. o1 m (parts p)) good"
proof
  fix m :: "'c mem" and p x
  assume x: "map_option (value p) (v m (parts p)) = Some x"
  then obtain y where y: "v m (parts p) = Some y" "x = value p y" by auto
  from deep_copier.owned_alloc [OF c y(1)] show "o1 m (parts p) \<subseteq> dom (cells m)" .
  fix m' :: "'c mem"
  assume "\<And>a. a \<in> o1 m (parts p) \<Longrightarrow> cells m' a = cells m a"
  from deep_copier.view_frame [OF c y(1) this] y(2)
  show "map_option (value p) (v m' (parts p)) = Some x \<and> o1 m' (parts p) = o1 m (parts p)" by simp
next
  fix m :: "'c mem" and p x
  assume ok: "mem_ok m" and x: "map_option (value p) (v m (parts p)) = Some x" and "good x"
  then obtain y where y: "v m (parts p) = Some y" "x = value p y" "g y" using good by auto
  from deep_copier.copies [OF c ok y(1,3)] obtain q m' where "c (parts p) m = (Ok q, m')" "grows m m'"
    "v m' q = Some y" "o1 m' q \<subseteq> fresh_between m m'" by blast
  then show "\<exists>q m'. copy p m = (Ok q, m') \<and> grows m m' \<and> map_option (value q) (v m' (parts q)) = Some x \<and>
      o1 m' (parts q) \<subseteq> fresh_between m m'"
    by (intro exI [of _ "with_parts p q"] exI [of _ m'])
      (simp add: copy bindE_def handle_def retE_def parts rest y(2))
qed

section \<open>Pointers to values without pointers\<close>

text \<open>
  \<^verbatim>\<open>if in.F != nil { *out = new(T); **out = **in }\<close>, and likewise \<^verbatim>\<open>make\<close> with \<^verbatim>\<open>copy\<close>. \<open>get\<close>
  reads the value in a cell of the expected type.
\<close>

definition leaf_view :: "('c \<Rightarrow> 'v option) \<Rightarrow> 'c mem \<Rightarrow> pointer \<Rightarrow> 'v option option" where
  "leaf_view get m p = (case p of None \<Rightarrow> Some None | Some a \<Rightarrow> (case cells m a of None \<Rightarrow> None
     | Some c \<Rightarrow> map_option Some (get c)))"

definition leaf_owned :: "'c mem \<Rightarrow> pointer \<Rightarrow> addr set" where
  "leaf_owned m p = set_option p"

definition leaf_copy :: "pointer \<Rightarrow> ('c mem, pointer) io" where
  "leaf_copy p = (case p of None \<Rightarrow> retE None
     | Some a \<Rightarrow> bindE (load a) (\<lambda>c. bindE (new_cell c) (\<lambda>b. retE (Some b))))"

lemmas mem_run_defs = bindE_def handle_def retE_def load_def store_def

lemma leaf_view_Some: "leaf_view get m (Some a) = Some v \<longleftrightarrow> (\<exists>c x. cells m a = Some c \<and> get c = Some x \<and> v = Some x)"
  by (auto simp: leaf_view_def split: option.splits)

lemma leaf_copier: "deep_copier leaf_copy (leaf_view get) leaf_owned (\<lambda>_. True)"
proof
  fix m :: "'a mem" and p v
  assume v: "leaf_view get m p = Some v"
  then show "leaf_owned m p \<subseteq> dom (cells m)"
    by (cases p) (auto simp: leaf_owned_def leaf_view_Some)
  fix m' :: "'a mem" assume "\<And>a. a \<in> leaf_owned m p \<Longrightarrow> cells m' a = cells m a"
  with v show "leaf_view get m' p = Some v \<and> leaf_owned m' p = leaf_owned m p"
    by (cases p) (auto simp: leaf_owned_def leaf_view_def)
next
  fix m :: "'a mem" and p v
  assume ok: "mem_ok m" and v: "leaf_view get m p = Some v"
  show "\<exists>q m'. leaf_copy p m = (Ok q, m') \<and> grows m m' \<and> leaf_view get m' q = Some v \<and> leaf_owned m' q \<subseteq> fresh_between m m'"
  proof (cases p)
    case None
    with v ok show ?thesis by (auto simp: leaf_copy_def leaf_view_def leaf_owned_def retE_def grows_refl)
  next
    case (Some a)
    with v obtain c x where c: "cells m a = Some c" "get c = Some x" "v = Some x" by (auto simp: leaf_view_Some)
    obtain b m' where b: "new_cell c m = (Ok b, m')" by (auto simp: new_cell_def)
    from new_cell_grows [OF ok b] c have "grows m m' \<and> leaf_view get m' (Some b) = Some v \<and> leaf_owned m' (Some b) \<subseteq> fresh_between m m'"
      by (auto simp: leaf_view_Some leaf_owned_def fresh_between_def)
    with Some b c(1) show ?thesis by (auto simp: leaf_copy_def mem_run_defs)
  qed
qed

section \<open>Pointers to structs\<close>

text \<open>
  \<^verbatim>\<open>*out = new(T); (*in).DeepCopyInto(*out)\<close>: the cell is allocated first and filled when the
  parts are copied. \<open>get\<close> and \<open>mk\<close> convert between a cell and the struct in it.
\<close>

definition box_view :: "('c \<Rightarrow> 'p option) \<Rightarrow> ('c mem \<Rightarrow> 'p \<Rightarrow> 'v option) \<Rightarrow> 'c mem \<Rightarrow> pointer \<Rightarrow> 'v option option" where
  "box_view get view m p = (case p of None \<Rightarrow> Some None | Some a \<Rightarrow> (case cells m a of None \<Rightarrow> None
     | Some c \<Rightarrow> (case get c of None \<Rightarrow> None | Some x \<Rightarrow> map_option Some (view m x))))"

definition box_owned :: "('c \<Rightarrow> 'p option) \<Rightarrow> ('c mem \<Rightarrow> 'p \<Rightarrow> addr set) \<Rightarrow> 'c mem \<Rightarrow> pointer \<Rightarrow> addr set" where
  "box_owned get owned m p = (case p of None \<Rightarrow> {} | Some a \<Rightarrow> insert a (case cells m a of None \<Rightarrow> {}
     | Some c \<Rightarrow> (case get c of None \<Rightarrow> {} | Some x \<Rightarrow> owned m x)))"

definition box_copy :: "('c \<Rightarrow> 'p option) \<Rightarrow> ('p \<Rightarrow> 'c) \<Rightarrow> ('p \<Rightarrow> 'p) \<Rightarrow> ('p \<Rightarrow> ('c mem, 'p) io) \<Rightarrow> pointer \<Rightarrow> ('c mem, pointer) io" where
  "box_copy get mk zero copy p = (case p of None \<Rightarrow> retE None
     | Some a \<Rightarrow> bindE (load a) (\<lambda>c. case get c of None \<Rightarrow> panicE ''cell of another type''
       | Some x \<Rightarrow> bindE (new_cell (mk (zero x))) (\<lambda>b. bindE (copy x) (\<lambda>y. bindE (store b (mk y)) (\<lambda>_. retE (Some b))))))"

lemma box_view_Some: "box_view get view m (Some a) = Some v \<longleftrightarrow>
    (\<exists>c x y. cells m a = Some c \<and> get c = Some x \<and> view m x = Some y \<and> v = Some y)"
  by (auto simp: box_view_def split: option.splits)

lemma box_owned_Some: "cells m a = Some c \<Longrightarrow> get c = Some x \<Longrightarrow>
    box_owned get owned m (Some a) = insert a (owned m x)"
  by (simp add: box_owned_def)

definition good_opt :: "('v \<Rightarrow> bool) \<Rightarrow> 'v option \<Rightarrow> bool" where
  "good_opt good x = (case x of None \<Rightarrow> True | Some v \<Rightarrow> good v)"

lemma box_copier:
  fixes copy :: "'p \<Rightarrow> ('c mem, 'p) io"
  assumes c: "deep_copier copy view owned good" and mk: "\<And>x. get (mk x) = Some x"
  shows "deep_copier (box_copy get mk zero copy) (box_view get view) (box_owned get owned) (good_opt good)"
proof
  fix m :: "'c mem" and p v
  assume v: "box_view get view m p = Some v"
  then show "box_owned get owned m p \<subseteq> dom (cells m)"
    using deep_copier.owned_alloc [OF c] by (cases p) (fastforce simp: box_view_Some box_owned_def)+
  fix m' :: "'c mem" assume same: "\<And>a. a \<in> box_owned get owned m p \<Longrightarrow> cells m' a = cells m a"
  show "box_view get view m' p = Some v \<and> box_owned get owned m' p = box_owned get owned m p"
  proof (cases p)
    case None
    with v show ?thesis by (simp add: box_view_def box_owned_def)
  next
    case (Some a)
    with v obtain d x y where x: "cells m a = Some d" "get d = Some x" "view m x = Some y" "v = Some y"
      by (auto simp: box_view_Some)
    have own: "box_owned get owned m (Some a) = insert a (owned m x)" by (rule box_owned_Some [where c = d]) (rule x(1), rule x(2))
    have a: "cells m' a = Some d" using same [of a] x(1) by (simp add: Some own)
    have "view m' x = Some y \<and> owned m' x = owned m x"
      by (rule deep_copier.view_frame [OF c x(3)]) (use same own Some in auto)
    with a x Some show ?thesis by (auto simp: box_view_Some box_owned_def)
  qed
next
  fix m :: "'c mem" and p v
  assume ok: "mem_ok m" and v: "box_view get view m p = Some v" and g: "good_opt good v"
  show "\<exists>q m'. box_copy get mk zero copy p m = (Ok q, m') \<and> grows m m' \<and> box_view get view m' q = Some v \<and>
      box_owned get owned m' q \<subseteq> fresh_between m m'"
  proof (cases p)
    case None
    with v ok show ?thesis by (auto simp: box_copy_def box_view_def box_owned_def retE_def grows_refl)
  next
    case (Some a)
    with v g obtain d x y where x: "cells m a = Some d" "get d = Some x" "view m x = Some y" "v = Some y" "good y"
      by (auto simp: box_view_Some good_opt_def)
    obtain b m1 where b: "new_cell (mk (zero x)) m = (Ok b, m1)" by (auto simp: new_cell_def)
    note m1 = new_cell_grows [OF ok b]
    from deep_copier.view_grows [OF c ok x(3)] m1 have "view m1 x = Some y" by blast
    from deep_copier.copies [OF c _ this x(5)] m1 grows_ok obtain z m2 where z: "copy x m1 = (Ok z, m2)" "grows m1 m2"
      "view m2 z = Some y" "owned m2 z \<subseteq> fresh_between m1 m2" by blast
    let ?m = "write_cell b (mk z) m2"
    have b_new: "b \<in> fresh_between m m2" using m1 z(2) by (auto simp: fresh_between_def grows_def)
    have gr: "grows m ?m" using write_fresh_grows [OF grows_trans b_new] m1 z(2) by blast
    have "b \<notin> owned m2 z" using z(4) m1 by (auto simp: fresh_between_def)
    then have "cells ?m e = cells m2 e" if "e \<in> owned m2 z" for e using that by auto
    from deep_copier.view_frame [OF c z(3) this] have zv: "view ?m z = Some y" "owned ?m z = owned m2 z" by auto
    have "owned m2 z \<subseteq> fresh_between m ?m" using z(4) m1 by (auto simp: fresh_between_def)
    then have "box_view get view ?m (Some b) = Some v" "box_owned get owned ?m (Some b) \<subseteq> fresh_between m ?m"
      using zv x(4) b_new by (auto simp: box_view_Some box_owned_def mk fresh_between_def)
    with gr show ?thesis
      using Some x(1,2) b z(1) by (auto simp: box_copy_def mem_run_defs)
  qed
qed

section \<open>Copies through JSON\<close>

text \<open>
  \<^verbatim>\<open>json.Marshal\<close> and \<^verbatim>\<open>json.Unmarshal\<close> of a type. A value is faithful when it survives the
  two; an error of either makes the copy panic.
\<close>

record 'v codec =
  Marshal :: "'v \<Rightarrow> string outcome"
  Unmarshal :: "string \<Rightarrow> 'v outcome"

definition faithful :: "'v codec \<Rightarrow> 'v \<Rightarrow> bool" where
  "faithful j v \<longleftrightarrow> (\<exists>bytes. Marshal j v = Ok bytes \<and> Unmarshal j bytes = Ok v)"

definition json_copy :: "'v codec \<Rightarrow> 'v \<Rightarrow> ('s, 'v) io" where
  "json_copy j v = (case Marshal j v of
      Err e \<Rightarrow> panicE ''Failed to marshal''
    | Panic p \<Rightarrow> panicE p
    | Ok bytes \<Rightarrow> (case Unmarshal j bytes of
        Err e \<Rightarrow> panicE ''Failed to unmarshal''
      | Panic p \<Rightarrow> panicE p
      | Ok v' \<Rightarrow> retE v'))"

lemma json_copy_faithful: "faithful j v \<Longrightarrow> json_copy j v = retE v"
  by (auto simp: faithful_def json_copy_def)

text \<open>The copy of a value behind a pointer that is not nil, and behind one that may be nil.\<close>

definition json_cell_copy :: "'v codec \<Rightarrow> ('c \<Rightarrow> 'v option) \<Rightarrow> ('v \<Rightarrow> 'c) \<Rightarrow> addr \<Rightarrow> ('c mem, addr) io" where
  "json_cell_copy j get mk a = bindE (load a) (\<lambda>c. case get c of None \<Rightarrow> panicE ''cell of another type''
     | Some v \<Rightarrow> bindE (json_copy j v) (\<lambda>v'. new_cell (mk v')))"

definition json_pointer_copy :: "'v codec \<Rightarrow> ('c \<Rightarrow> 'v option) \<Rightarrow> ('v \<Rightarrow> 'c) \<Rightarrow> pointer \<Rightarrow> ('c mem, pointer) io" where
  "json_pointer_copy j get mk p = (case p of None \<Rightarrow> retE None
     | Some a \<Rightarrow> bindE (json_cell_copy j get mk a) (\<lambda>b. retE (Some b)))"

lemma json_pointer_copier:
  fixes get :: "'c \<Rightarrow> 'v option"
  assumes mk: "\<And>x. get (mk x) = Some x"
  shows "deep_copier (json_pointer_copy j get mk) (leaf_view get) leaf_owned (good_opt (faithful j))"
proof
  fix m m' :: "'c mem" and p v
  assume v: "leaf_view get m p = Some v"
  from deep_copier.owned_alloc [OF leaf_copier v] show "leaf_owned m p \<subseteq> dom (cells m)" .
  assume "\<And>a. a \<in> leaf_owned m p \<Longrightarrow> cells m' a = cells m a"
  from deep_copier.view_frame [OF leaf_copier v this]
  show "leaf_view get m' p = Some v \<and> leaf_owned m' p = leaf_owned m p" by simp
next
  fix m :: "'c mem" and p v
  assume ok: "mem_ok m" and v: "leaf_view get m p = Some v" and g: "good_opt (faithful j) v"
  show "\<exists>q m'. json_pointer_copy j get mk p m = (Ok q, m') \<and> grows m m' \<and> leaf_view get m' q = Some v \<and>
      leaf_owned m' q \<subseteq> fresh_between m m'"
  proof (cases p)
    case None
    with v ok show ?thesis by (auto simp: json_pointer_copy_def leaf_view_def leaf_owned_def retE_def grows_refl)
  next
    case (Some a)
    with v g obtain c x where c: "cells m a = Some c" "get c = Some x" "v = Some x" "faithful j x"
      by (auto simp: leaf_view_Some good_opt_def)
    obtain b m' where b: "new_cell (mk x) m = (Ok b, m')" by (auto simp: new_cell_def)
    from new_cell_grows [OF ok b] c mk have "grows m m' \<and> leaf_view get m' (Some b) = Some v \<and> leaf_owned m' (Some b) \<subseteq> fresh_between m m'"
      by (auto simp: leaf_view_Some leaf_owned_def fresh_between_def)
    with Some b c show ?thesis by (auto simp: json_pointer_copy_def json_cell_copy_def json_copy_faithful mem_run_defs)
  qed
qed

section \<open>Slices of pointers\<close>

text \<open>
  A slice is nil or the address of its backing array, here an array of pointers to cells.
  \<open>getp\<close> reads an array, \<open>get\<close> an element.
\<close>

fun elems_view :: "('c \<Rightarrow> 'v option) \<Rightarrow> 'c mem \<Rightarrow> pointer list \<Rightarrow> 'v option list option" where
  "elems_view get m [] = Some []"
| "elems_view get m (p # ps) = (case leaf_view get m p of None \<Rightarrow> None
     | Some v \<Rightarrow> map_option (Cons v) (elems_view get m ps))"

definition elems_owned :: "pointer list \<Rightarrow> addr set" where
  "elems_owned ps = (\<Union>p \<in> set ps. set_option p)"

definition slice_view :: "('c \<Rightarrow> pointer list option) \<Rightarrow> ('c \<Rightarrow> 'v option) \<Rightarrow> 'c mem \<Rightarrow> pointer \<Rightarrow> 'v option list option option" where
  "slice_view getp get = box_view getp (elems_view get)"

definition slice_owned :: "('c \<Rightarrow> pointer list option) \<Rightarrow> 'c mem \<Rightarrow> pointer \<Rightarrow> addr set" where
  "slice_owned getp = box_owned getp (\<lambda>m. elems_owned)"

text \<open>What \<^verbatim>\<open>json.Unmarshal\<close> builds from a decoded list: new elements, and a new array.\<close>

fun build_elems :: "('v \<Rightarrow> 'c) \<Rightarrow> 'v option list \<Rightarrow> ('c mem, pointer list) io" where
  "build_elems mk [] = retE []"
| "build_elems mk (None # vs) = bindE (build_elems mk vs) (\<lambda>ps. retE (None # ps))"
| "build_elems mk (Some v # vs) = bindE (new_cell (mk v)) (\<lambda>a. bindE (build_elems mk vs) (\<lambda>ps. retE (Some a # ps)))"

definition build_slice :: "(pointer list \<Rightarrow> 'c) \<Rightarrow> ('v \<Rightarrow> 'c) \<Rightarrow> 'v option list option \<Rightarrow> ('c mem, pointer) io" where
  "build_slice mkp mk v = (case v of None \<Rightarrow> retE None
     | Some vs \<Rightarrow> bindE (build_elems mk vs) (\<lambda>ps. bindE (new_cell (mkp ps)) (\<lambda>b. retE (Some b))))"

definition read_slice :: "('c \<Rightarrow> pointer list option) \<Rightarrow> ('c \<Rightarrow> 'v option) \<Rightarrow> pointer \<Rightarrow> ('c mem, 'v option list option) io" where
  "read_slice getp get p = (\<lambda>m. case slice_view getp get m p of
      None \<Rightarrow> (Panic ''invalid memory address or nil pointer dereference'', m) | Some v \<Rightarrow> (Ok v, m))"

definition json_slice_copy :: "'v option list option codec \<Rightarrow> ('c \<Rightarrow> pointer list option) \<Rightarrow> (pointer list \<Rightarrow> 'c) \<Rightarrow>
    ('c \<Rightarrow> 'v option) \<Rightarrow> ('v \<Rightarrow> 'c) \<Rightarrow> pointer \<Rightarrow> ('c mem, pointer) io" where
  "json_slice_copy j getp mkp get mk p =
     bindE (read_slice getp get p) (\<lambda>v. bindE (json_copy j v) (build_slice mkp mk))"

text \<open>\<^verbatim>\<open>s := make([]*T, len(l)); copy(s, l)\<close>: a new array with the same pointers.\<close>

definition slice_ref :: "('c \<Rightarrow> pointer list option) \<Rightarrow> (pointer list \<Rightarrow> 'c) \<Rightarrow> pointer \<Rightarrow> ('c mem, pointer) io" where
  "slice_ref getp mkp p = (case p of None \<Rightarrow> retE None
     | Some a \<Rightarrow> bindE (load a) (\<lambda>c. case getp c of None \<Rightarrow> panicE ''cell of another type''
       | Some ps \<Rightarrow> bindE (new_cell (mkp ps)) (\<lambda>b. retE (Some b))))"

lemma elems_view_frame: "elems_view get m ps = Some vs \<Longrightarrow> (\<And>a. a \<in> elems_owned ps \<Longrightarrow> cells m' a = cells m a) \<Longrightarrow>
    elems_view get m' ps = Some vs"
proof (induction ps arbitrary: vs)
  case (Cons p ps)
  then obtain v vs' where v: "leaf_view get m p = Some v" "elems_view get m ps = Some vs'" "vs = v # vs'"
    by (auto split: option.splits)
  from deep_copier.view_frame [OF leaf_copier v(1), of m'] Cons.prems(2)
  have "leaf_view get m' p = Some v" by (auto simp: leaf_owned_def elems_owned_def)
  with Cons v show ?case by (auto simp: elems_owned_def)
qed simp

lemma elems_view_alloc: "elems_view get m ps = Some vs \<Longrightarrow> elems_owned ps \<subseteq> dom (cells m)"
proof (induction ps arbitrary: vs)
  case (Cons p ps)
  then obtain v vs' where v: "leaf_view get m p = Some v" "elems_view get m ps = Some vs'"
    by (auto split: option.splits)
  from deep_copier.owned_alloc [OF leaf_copier v(1)] Cons.IH [OF v(2)] show ?case
    by (auto simp: leaf_owned_def elems_owned_def)
qed (simp add: elems_owned_def)

lemma build_elems_fresh:
  assumes "mem_ok m" and mk: "\<And>v. get (mk v) = Some v"
  shows "\<exists>ps m'. build_elems mk vs m = (Ok ps, m') \<and> grows m m' \<and> elems_view get m' ps = Some vs \<and>
    elems_owned ps \<subseteq> fresh_between m m'"
  using assms(1)
proof (induction vs arbitrary: m)
  case Nil
  then show ?case by (auto simp: retE_def elems_owned_def grows_refl)
next
  case (Cons v vs)
  show ?case
  proof (cases v)
    case None
    from Cons.IH [OF Cons.prems] obtain ps m' where "build_elems mk vs m = (Ok ps, m')" "grows m m'"
      "elems_view get m' ps = Some vs" "elems_owned ps \<subseteq> fresh_between m m'" by blast
    with None show ?thesis
      by (intro exI [of _ "None # ps"] exI [of _ m']) (auto simp: mem_run_defs elems_owned_def leaf_view_def)
  next
    case (Some x)
    obtain a m1 where a: "new_cell (mk x) m = (Ok a, m1)" by (auto simp: new_cell_def)
    note m1 = new_cell_grows [OF Cons.prems a]
    from m1 have ok: "mem_ok m1" using grows_ok by blast
    from Cons.IH [OF ok] obtain ps m' where ps: "build_elems mk vs m1 = (Ok ps, m')" "grows m1 m'"
      "elems_view get m' ps = Some vs" "elems_owned ps \<subseteq> fresh_between m1 m'" by blast
    have "cells m' a = Some (mk x)" "a < next_addr m'" "next_addr m \<le> a"
      using m1 ps(2) by (auto simp: grows_def)
    with a ps m1 grows_trans [of m m1 m'] Some show ?thesis
      by (intro exI [of _ "Some a # ps"] exI [of _ m'])
        (auto simp: mem_run_defs elems_owned_def leaf_view_def mk fresh_between_def)
  qed
qed

lemma json_slice_copier:
  fixes get :: "'c \<Rightarrow> 'v option"
  assumes mk: "\<And>v. get (mk v) = Some v" and mkp: "\<And>ps. getp (mkp ps) = Some ps"
  shows "deep_copier (json_slice_copy j getp mkp get mk) (slice_view getp get) (slice_owned getp) (faithful j)"
proof
  fix m :: "'c mem" and p v
  assume v: "slice_view getp get m p = Some v"
  then show "slice_owned getp m p \<subseteq> dom (cells m)"
    by (cases p) (auto simp: slice_view_def slice_owned_def box_view_Some box_owned_def dest!: elems_view_alloc)
  fix m' :: "'c mem" assume same: "\<And>a. a \<in> slice_owned getp m p \<Longrightarrow> cells m' a = cells m a"
  show "slice_view getp get m' p = Some v \<and> slice_owned getp m' p = slice_owned getp m p"
  proof (cases p)
    case None
    with v show ?thesis by (simp add: slice_view_def slice_owned_def box_view_def box_owned_def)
  next
    case (Some a)
    with v obtain c ps vs where c: "cells m a = Some c" "getp c = Some ps" "elems_view get m ps = Some vs" "v = Some vs"
      by (auto simp: slice_view_def box_view_Some)
    then have own: "slice_owned getp m p = insert a (elems_owned ps)" by (simp add: Some slice_owned_def box_owned_def)
    then have "cells m' a = Some c" "elems_view get m' ps = Some vs"
      using same c by (auto intro: elems_view_frame)
    with c own Some show ?thesis by (simp add: slice_view_def slice_owned_def box_view_def box_owned_def)
  qed
next
  fix m :: "'c mem" and p v
  assume ok: "mem_ok m" and v: "slice_view getp get m p = Some v" and g: "faithful j v"
  have run: "json_slice_copy j getp mkp get mk p m = build_slice mkp mk v m"
    using v by (simp add: json_slice_copy_def read_slice_def json_copy_faithful [OF g] mem_run_defs)
  show "\<exists>q m'. json_slice_copy j getp mkp get mk p m = (Ok q, m') \<and> grows m m' \<and> slice_view getp get m' q = Some v \<and>
      slice_owned getp m' q \<subseteq> fresh_between m m'"
  proof (cases v)
    case None
    with ok show ?thesis
      by (intro exI [of _ None] exI [of _ m])
        (auto simp: run build_slice_def slice_view_def slice_owned_def box_view_def box_owned_def retE_def grows_refl)
  next
    case (Some vs)
    from build_elems_fresh [OF ok mk] obtain ps m1 where ps: "build_elems mk vs m = (Ok ps, m1)" "grows m m1"
      "elems_view get m1 ps = Some vs" "elems_owned ps \<subseteq> fresh_between m m1" by blast
    obtain b m2 where b: "new_cell (mkp ps) m1 = (Ok b, m2)" by (auto simp: new_cell_def)
    note m2 = new_cell_grows [OF grows_ok [OF ps(2)] b]
    have "elems_owned ps \<subseteq> dom (cells m1)" by (rule elems_view_alloc [OF ps(3)])
    then have "elems_view get m2 ps = Some vs"
      using m2 grows_ok [OF ps(2)] by (intro elems_view_frame [OF ps(3)]) (blast dest: grows_old)
    with b ps m2 Some show ?thesis
      using grows_trans [of m m1 m2] fresh_mono(1) [of m m1 m2]
      by (intro exI [of _ "Some b"] exI [of _ m2])
        (auto simp: run build_slice_def mem_run_defs slice_view_def slice_owned_def box_view_Some box_owned_def mkp
          fresh_between_def grows_def)
  qed
qed

text \<open>A \<^verbatim>\<open>Ref\<close> denotes the same list and has an array of its own, but shares the elements.\<close>

lemma slice_ref_shares:
  assumes ok: "mem_ok m" and mkp: "\<And>ps. getp (mkp ps) = Some ps"
    and l: "cells m a = Some c" "getp c = Some ps" "elems_view get m ps = Some vs"
  shows "\<exists>b m'. slice_ref getp mkp (Some a) m = (Ok (Some b), m') \<and> grows m m' \<and> b \<noteq> a \<and>
    cells m' b = Some (mkp ps) \<and> slice_view getp get m' (Some b) = Some (Some vs) \<and>
    slice_owned getp m' (Some b) \<inter> slice_owned getp m' (Some a) = elems_owned ps \<and>
    b \<notin> slice_owned getp m' (Some a) \<and> slice_view getp get m' (Some a) = Some (Some vs)"
proof -
  obtain b m' where b: "new_cell (mkp ps) m = (Ok b, m')" by (auto simp: new_cell_def)
  note m' = new_cell_grows [OF ok b]
  have alloc: "elems_owned ps \<subseteq> dom (cells m)" by (rule elems_view_alloc [OF l(3)])
  then have v: "elems_view get m' ps = Some vs"
    using m' ok by (intro elems_view_frame [OF l(3)]) (blast dest: grows_old)
  have a: "cells m' a = Some c" using m' ok l(1) by (auto simp: grows_def mem_ok_def)
  have "a < b" "\<And>e. e \<in> elems_owned ps \<Longrightarrow> e < b" using ok l(1) alloc m' by (auto simp: mem_ok_def)
  with m' b l v a mkp show ?thesis
    by (intro exI [of _ b] exI [of _ m'])
      (auto simp: slice_ref_def mem_run_defs slice_view_def slice_owned_def box_view_Some box_owned_def)
qed

section \<open>Slices of structs\<close>

text \<open>\<^verbatim>\<open>for i := range *in { (*in)[i].DeepCopyInto(&(*out)[i]) }\<close>\<close>

fun list_copy :: "('p \<Rightarrow> ('c mem, 'p) io) \<Rightarrow> 'p list \<Rightarrow> ('c mem, 'p list) io" where
  "list_copy c [] = retE []"
| "list_copy c (p # ps) = bindE (c p) (\<lambda>q. bindE (list_copy c ps) (\<lambda>qs. retE (q # qs)))"

fun list_view :: "('c mem \<Rightarrow> 'p \<Rightarrow> 'v option) \<Rightarrow> 'c mem \<Rightarrow> 'p list \<Rightarrow> 'v list option" where
  "list_view v m [] = Some []"
| "list_view v m (p # ps) = (case v m p of None \<Rightarrow> None | Some x \<Rightarrow> map_option (Cons x) (list_view v m ps))"

definition list_owned :: "('c mem \<Rightarrow> 'p \<Rightarrow> addr set) \<Rightarrow> 'c mem \<Rightarrow> 'p list \<Rightarrow> addr set" where
  "list_owned o1 m ps = (\<Union>p \<in> set ps. o1 m p)"

lemma list_owned_simps [simp]: "list_owned o1 m [] = {}" "list_owned o1 m (p # ps) = o1 m p \<union> list_owned o1 m ps"
  by (simp_all add: list_owned_def)

lemma list_view_Cons: "list_view v m (p # ps) = Some xs \<longleftrightarrow>
    (\<exists>y ys. v m p = Some y \<and> list_view v m ps = Some ys \<and> xs = y # ys)"
  by (auto split: option.splits)

lemma list_copier:
  fixes c :: "'p \<Rightarrow> ('c mem, 'p) io"
  assumes c: "deep_copier c v o1 g"
  shows "deep_copier (list_copy c) (list_view v) (list_owned o1) (list_all g)"
proof
  fix m m' :: "'c mem" and ps xs
  assume "list_view v m ps = Some xs"
  then show "list_owned o1 m ps \<subseteq> dom (cells m)"
    by (induction ps arbitrary: xs)
      (auto simp: list_view_Cons simp del: list_view.simps(2) dest!: deep_copier.owned_alloc [OF c])
next
  fix m m' :: "'c mem" and ps xs
  assume "list_view v m ps = Some xs" and "\<And>a. a \<in> list_owned o1 m ps \<Longrightarrow> cells m' a = cells m a"
  then show "list_view v m' ps = Some xs \<and> list_owned o1 m' ps = list_owned o1 m ps"
  proof (induction ps arbitrary: xs)
    case (Cons p ps)
    then obtain y ys where y: "v m p = Some y" "list_view v m ps = Some ys" "xs = y # ys"
      unfolding list_view_Cons by blast
    from deep_copier.view_frame [OF c y(1), of m'] Cons.IH [OF y(2)] Cons.prems(2) y show ?case by simp
  qed simp
next
  fix m :: "'c mem" and ps xs
  assume "mem_ok m" and "list_view v m ps = Some xs" and "list_all g xs"
  then show "\<exists>qs m'. list_copy c ps m = (Ok qs, m') \<and> grows m m' \<and> list_view v m' qs = Some xs \<and>
      list_owned o1 m' qs \<subseteq> fresh_between m m'"
  proof (induction ps arbitrary: m xs)
    case Nil
    then show ?case by (auto simp: retE_def grows_refl)
  next
    case (Cons p ps)
    then obtain y ys where y: "v m p = Some y" "list_view v m ps = Some ys" "xs = y # ys" "g y" "list_all g ys"
      unfolding list_view_Cons by auto
    from deep_copier.copies [OF c Cons.prems(1) y(1,4)] obtain q m1 where q: "c p m = (Ok q, m1)" "grows m m1"
      "v m1 q = Some y" "o1 m1 q \<subseteq> fresh_between m m1" by blast
    have rest: "list_view v m1 ps = Some ys"
    proof -
      have "list_owned o1 m ps \<subseteq> dom (cells m)" using y(2)
        by (induction ps arbitrary: ys)
          (auto simp: list_view_Cons simp del: list_view.simps(2) dest!: deep_copier.owned_alloc [OF c])
      with q(2) Cons.prems(1) have same: "\<And>a. a \<in> list_owned o1 m ps \<Longrightarrow> cells m1 a = cells m a"
        by (blast dest: grows_old)
      show ?thesis using y(2) same
      proof (induction ps arbitrary: ys)
        case (Cons p ps)
        then obtain z zs where z: "v m p = Some z" "list_view v m ps = Some zs" "ys = z # zs"
          unfolding list_view_Cons by blast
        from deep_copier.view_frame [OF c z(1), of m1] Cons.IH [OF z(2)] Cons.prems(2) z show ?case by simp
      qed simp
    qed
    from Cons.IH [OF grows_ok [OF q(2)] rest y(5)] obtain qs m2 where qs: "list_copy c ps m1 = (Ok qs, m2)" "grows m1 m2"
      "list_view v m2 qs = Some ys" "list_owned o1 m2 qs \<subseteq> fresh_between m1 m2" by blast
    from deep_copier.view_grows [OF c grows_ok [OF q(2)] q(3) qs(2)]
    have "v m2 q = Some y" "o1 m2 q = o1 m1 q" by simp_all
    with q qs y(3) fresh_mono [OF q(2) qs(2)] grows_trans [OF q(2) qs(2)] show ?case
      by (intro exI [of _ "q # qs"] exI [of _ m2]) (auto simp: mem_run_defs)
  qed
qed

section \<open>Copies that fail\<close>

text \<open>The copies of the values in \<open>bad\<close> panic with \<open>msg\<close>, and leave what was there.\<close>

definition panics_on :: "('p \<Rightarrow> ('c mem, 'p) io) \<Rightarrow> ('c mem \<Rightarrow> 'p \<Rightarrow> 'v option) \<Rightarrow> ('v \<Rightarrow> bool) \<Rightarrow> string \<Rightarrow> bool" where
  "panics_on copy view bad msg \<longleftrightarrow> (\<forall>m p v. mem_ok m \<longrightarrow> view m p = Some v \<longrightarrow> bad v \<longrightarrow>
     (\<exists>m'. copy p m = (Panic msg, m') \<and> grows m m'))"

lemma panics_onD: "panics_on copy view bad msg \<Longrightarrow> mem_ok m \<Longrightarrow> view m p = Some v \<Longrightarrow> bad v \<Longrightarrow>
    \<exists>m'. copy p m = (Panic msg, m') \<and> grows m m'"
  by (simp add: panics_on_def)

lemma panics_onI: "(\<And>m p v. mem_ok m \<Longrightarrow> view m p = Some v \<Longrightarrow> bad v \<Longrightarrow>
    \<exists>m'. copy p m = (Panic msg, m') \<and> grows m m') \<Longrightarrow> panics_on copy view bad msg"
  by (simp add: panics_on_def)

lemma pair_panics_first: "panics_on c1 v1 b msg \<Longrightarrow> panics_on (pair_copy c1 c2) (pair_view v1 v2) (\<lambda>v. b (fst v)) msg"
  by (rule panics_onI) (fastforce simp: pair_view_Some pair_copy_def mem_run_defs dest: panics_onD)

lemma pair_panics_second:
  fixes c1 :: "'p \<Rightarrow> ('c mem, 'p) io"
  assumes c1: "deep_copier c1 v1 o1 g1" and c2: "deep_copier c2 v2 o2 g2" and bad: "panics_on c2 v2 b msg"
  shows "panics_on (pair_copy c1 c2) (pair_view v1 v2) (\<lambda>v. g1 (fst v) \<and> b (snd v)) msg"
proof (rule panics_onI)
  fix m :: "'c mem" and p v
  assume ok: "mem_ok m" and v: "pair_view v1 v2 m p = Some v" and g: "g1 (fst v) \<and> b (snd v)"
  then have v1: "v1 m (fst p) = Some (fst v)" and v2: "v2 m (snd p) = Some (snd v)" by (simp_all add: pair_view_Some)
  from deep_copier.copies [OF c1 ok v1] g obtain q m1 where q: "c1 (fst p) m = (Ok q, m1)" "grows m m1" by blast
  from deep_copier.view_grows [OF c2 ok v2 q(2)] have "v2 m1 (snd p) = Some (snd v)" by simp
  from panics_onD [OF bad grows_ok [OF q(2)] this] g obtain m2 where "c2 (snd p) m1 = (Panic msg, m2)" "grows m1 m2" by blast
  with q show "\<exists>m'. pair_copy c1 c2 p m = (Panic msg, m') \<and> grows m m'"
    by (auto simp: pair_copy_def mem_run_defs intro: grows_trans)
qed

lemma struct_panics:
  assumes c: "panics_on c v b msg" and copy: "\<And>p. copy p = bindE (c (parts p)) (\<lambda>q. retE (with_parts p q))"
    and bad: "\<And>p x. bad (value p x) \<Longrightarrow> b x"
  shows "panics_on copy (\<lambda>m p. map_option (value p) (v m (parts p))) bad msg"
  by (rule panics_onI) (use bad in \<open>fastforce simp: copy mem_run_defs dest: panics_onD [OF c]\<close>)

lemma box_panics:
  fixes copy :: "'p \<Rightarrow> ('c mem, 'p) io"
  assumes c: "deep_copier copy view owned good" and bad: "panics_on copy view b msg"
  shows "panics_on (box_copy get mk zero copy) (box_view get view) (\<lambda>v. \<exists>x. v = Some x \<and> b x) msg"
proof (rule panics_onI)
  fix m :: "'c mem" and p v
  assume ok: "mem_ok m" and v: "box_view get view m p = Some v" "\<exists>x. v = Some x \<and> b x"
  then obtain a d x y where a: "p = Some a" "cells m a = Some d" "get d = Some x" "view m x = Some y" "b y"
    by (cases p) (auto simp: box_view_Some box_view_def split: option.splits)
  obtain e m1 where e: "new_cell (mk (zero x)) m = (Ok e, m1)" by (auto simp: new_cell_def)
  note m1 = new_cell_grows [OF ok e]
  from deep_copier.view_grows [OF c ok a(4)] m1 have "view m1 x = Some y" by blast
  from panics_onD [OF bad _ this a(5)] m1 grows_ok obtain m2 where "copy x m1 = (Panic msg, m2)" "grows m1 m2" by blast
  with a e m1 show "\<exists>m'. box_copy get mk zero copy p m = (Panic msg, m') \<and> grows m m'"
    by (auto simp: box_copy_def mem_run_defs intro: grows_trans)
qed

lemma json_pointer_panics:
  "panics_on (json_pointer_copy j get mk) (leaf_view get) (\<lambda>v. \<exists>x e. v = Some x \<and> Marshal j x = Err e) ''Failed to marshal''"
  by (rule panics_onI)
    (auto simp: json_pointer_copy_def json_cell_copy_def json_copy_def mem_run_defs leaf_view_def panicE_def grows_refl
      split: option.splits)

end
