(* ===== verification/DeepCopy.thy ===== *)
theory DeepCopy
  imports Memory ApiTypes
begin

text \<open>
  The copies of the custom resource: \<^verbatim>\<open>api/v1beta1/zz_generated.deepcopy.go\<close> and the JSON copies
  of \<^verbatim>\<open>api/v1beta1/apply_configuration.go\<close> it calls. The informer cache hands out shared objects
  and the reconcilers edit copies of them, so a copy must be equal and must share nothing.
  A struct is laid out as in Go: its own fields, and for every pointer, slice or map field an
  address or nil. The apply configurations are cells without inner pointers, since
  \<^verbatim>\<open>json.Unmarshal\<close> builds each of them anew; their codecs are parameters.
\<close>

section \<open>Layouts\<close>

text \<open>\<open>'x\<close> is the layout of a Kubernetes struct that is embedded by value.\<close>

record SettingsLayout =
  set_NameOverride :: string
  set_CatchAllRule :: string
  set_CAPool :: pointer
  set_NoTLSVerify :: bool
  set_TLSTimeoutSeconds :: int32
  set_HTTP2Origin :: bool
  set_DisableChunkedEncoding :: bool
  set_ConnectTimeoutSeconds :: int32
  set_NoHappyEyeballs :: bool
  set_ProxyType :: string
  set_KeepAliveTimeoutSeconds :: int32
  set_KeepAliveConnections :: int32

record PDBLayout =
  pl_MinAvailable :: pointer
  pl_MaxUnavailable :: pointer

record 'x SpecLayout =
  sl_Default :: bool
  sl_Replicas :: int32
  sl_Resources :: 'x
  sl_ImagePullSecrets :: pointer
  sl_Image :: string
  sl_ArgsOverride :: pointer
  sl_ExtraEnv :: pointer
  sl_NodeSelector :: pointer
  sl_Tolerations :: pointer
  sl_TopologySpreadConstraints :: pointer
  sl_Affinity :: pointer
  sl_EnableServiceMonitor :: bool
  sl_PodDisruptionBudget :: pointer
  sl_Settings :: SettingsLayout
  sl_PodSecurityContext :: pointer
  sl_SecurityContext :: pointer

record StatusLayout =
  sta_Replicas :: int32
  sta_TunnelName :: string
  sta_TunnelID :: string
  sta_Conditions :: pointer

record TypeMeta =
  tm_Kind :: string
  tm_APIVersion :: string

record 'x TunnelLayout =
  tl_TypeMeta :: TypeMeta
  tl_ObjectMeta :: 'x
  tl_Spec :: "'x SpecLayout"
  tl_Status :: StatusLayout

record 'x ListLayout =
  ll_TypeMeta :: TypeMeta
  ll_ListMeta :: 'x
  ll_Items :: pointer

text \<open>What an address holds. \<open>LibraryCell\<close> is for the pointers inside the Kubernetes structs.\<close>

datatype 'x cell =
    StringCell (the_string: string)
  | IntOrStringCell (the_int_or_string: IntOrString)
  | StringsCell (the_strings: "string list")
  | ReferencesCell (the_references: "string list")
  | MapCell (the_map: "string \<rightharpoonup> string")
  | PointersCell (the_pointers: "pointer list")
  | ConditionsCell (the_conditions: "'x list")
  | EnvVarCell (the_env: EnvVarApply)
  | TolerationCell (the_toleration: json)
  | SpreadCell (the_spread: TopologySpreadConstraintApply)
  | AffinityCell (the_affinity: json)
  | PodSecurityCell (the_pod_security: PodSecurityContextApply)
  | SecurityCell (the_security: SecurityContextApply)
  | PDBCell (the_pdb: PDBLayout)
  | SettingsCell (the_settings: SettingsLayout)
  | SpecCell (the_spec: "'x SpecLayout")
  | StatusCell (the_status: StatusLayout)
  | TunnelCell (the_tunnel: "'x TunnelLayout")
  | TunnelsCell (the_tunnels: "'x TunnelLayout list")
  | ListCell (the_list: "'x ListLayout")
  | LibraryCell (the_library: json)

type_synonym ('x, 'a) heap = "('x cell mem, 'a) io"

text \<open>Reading a cell at a type: \<open>None\<close> when it holds a value of another type.\<close>

definition at_type :: "('x cell \<Rightarrow> 'v) \<Rightarrow> ('v \<Rightarrow> 'x cell) \<Rightarrow> 'x cell \<Rightarrow> 'v option" where
  "at_type sel mk c = (if c = mk (sel c) then Some (sel c) else None)"

section \<open>Code outside the repository\<close>

text \<open>
  The \<^verbatim>\<open>DeepCopyInto\<close> methods of \<^verbatim>\<open>ResourceRequirements\<close>, \<^verbatim>\<open>ObjectMeta\<close>, \<^verbatim>\<open>ListMeta\<close> and
  \<^verbatim>\<open>Condition\<close>, the zero value of a struct, and the JSON codecs of the apply configurations.
\<close>

record 'x library =
  Resources_DeepCopyInto :: "'x \<Rightarrow> ('x, 'x) heap"
  ObjectMeta_DeepCopyInto :: "'x \<Rightarrow> ('x, 'x) heap"
  ListMeta_DeepCopyInto :: "'x \<Rightarrow> ('x, 'x) heap"
  Condition_DeepCopyInto :: "'x \<Rightarrow> ('x, 'x) heap"
  zero_struct :: 'x

record codecs =
  env_codec :: "EnvVarApply option list option codec"
  toleration_codec :: "json option list option codec"
  spread_codec :: "TopologySpreadConstraintApply option list option codec"
  affinity_codec :: "json codec"
  pod_security_codec :: "PodSecurityContextApply codec"
  security_codec :: "SecurityContextApply codec"

section \<open>\<^verbatim>\<open>apply_configuration.go\<close>\<close>

text \<open>
  \<^verbatim>\<open>DeepCopy\<close> of the three lists takes and returns a pointer to a slice; the slice value itself
  is passed here. \<^verbatim>\<open>DeepCopy\<close> of the three structs is called on a pointer that is not nil.
\<close>

definition EnvVars_DeepCopy :: "codecs \<Rightarrow> pointer \<Rightarrow> ('x, pointer) heap" where
  "EnvVars_DeepCopy js = json_slice_copy (env_codec js) (at_type the_pointers PointersCell) PointersCell
     (at_type the_env EnvVarCell) EnvVarCell"

definition EnvVars_Ref :: "pointer \<Rightarrow> ('x, pointer) heap" where
  "EnvVars_Ref = slice_ref (at_type the_pointers PointersCell) PointersCell"

definition Affinity_DeepCopy :: "codecs \<Rightarrow> addr \<Rightarrow> ('x, addr) heap" where
  "Affinity_DeepCopy js = json_cell_copy (affinity_codec js) (at_type the_affinity AffinityCell) AffinityCell"

definition Affinity_Ref :: "pointer \<Rightarrow> pointer" where
  "Affinity_Ref p = p"

definition Tolerations_DeepCopy :: "codecs \<Rightarrow> pointer \<Rightarrow> ('x, pointer) heap" where
  "Tolerations_DeepCopy js = json_slice_copy (toleration_codec js) (at_type the_pointers PointersCell) PointersCell
     (at_type the_toleration TolerationCell) TolerationCell"

definition Tolerations_Ref :: "pointer \<Rightarrow> ('x, pointer) heap" where
  "Tolerations_Ref = slice_ref (at_type the_pointers PointersCell) PointersCell"

definition TopologySpread_DeepCopy :: "codecs \<Rightarrow> pointer \<Rightarrow> ('x, pointer) heap" where
  "TopologySpread_DeepCopy js = json_slice_copy (spread_codec js) (at_type the_pointers PointersCell) PointersCell
     (at_type the_spread SpreadCell) SpreadCell"

definition TopologySpread_Ref :: "pointer \<Rightarrow> ('x, pointer) heap" where
  "TopologySpread_Ref = slice_ref (at_type the_pointers PointersCell) PointersCell"

definition PodSecurityContext_DeepCopy :: "codecs \<Rightarrow> addr \<Rightarrow> ('x, addr) heap" where
  "PodSecurityContext_DeepCopy js =
     json_cell_copy (pod_security_codec js) (at_type the_pod_security PodSecurityCell) PodSecurityCell"

definition PodSecurityContext_Ref :: "pointer \<Rightarrow> pointer" where
  "PodSecurityContext_Ref p = p"

definition SecurityContext_DeepCopy :: "codecs \<Rightarrow> addr \<Rightarrow> ('x, addr) heap" where
  "SecurityContext_DeepCopy js = json_cell_copy (security_codec js) (at_type the_security SecurityCell) SecurityCell"

definition SecurityContext_Ref :: "pointer \<Rightarrow> pointer" where
  "SecurityContext_Ref p = p"

text \<open>\<^verbatim>\<open>clone := in.DeepCopy(); *out = *clone\<close>, \<open>out\<close> being an address.\<close>

definition clone_into :: "(addr \<Rightarrow> ('x, addr) heap) \<Rightarrow> addr \<Rightarrow> addr \<Rightarrow> ('x, unit) heap" where
  "clone_into copy a out = bindE (copy a) (\<lambda>b. bindE (load b) (store out))"

definition Affinity_DeepCopyInto :: "codecs \<Rightarrow> addr \<Rightarrow> addr \<Rightarrow> ('x, unit) heap" where
  "Affinity_DeepCopyInto js = clone_into (Affinity_DeepCopy js)"

definition PodSecurityContext_DeepCopyInto :: "codecs \<Rightarrow> addr \<Rightarrow> addr \<Rightarrow> ('x, unit) heap" where
  "PodSecurityContext_DeepCopyInto js = clone_into (PodSecurityContext_DeepCopy js)"

definition SecurityContext_DeepCopyInto :: "codecs \<Rightarrow> addr \<Rightarrow> addr \<Rightarrow> ('x, unit) heap" where
  "SecurityContext_DeepCopyInto js = clone_into (SecurityContext_DeepCopy js)"

text \<open>For a list type \<^verbatim>\<open>*clone\<close> is a slice, which \<^verbatim>\<open>DeepCopyInto\<close> assigns to its field.\<close>

definition EnvVars_DeepCopyInto :: "codecs \<Rightarrow> pointer \<Rightarrow> ('x, pointer) heap" where
  "EnvVars_DeepCopyInto js p = EnvVars_DeepCopy js p"

definition Tolerations_DeepCopyInto :: "codecs \<Rightarrow> pointer \<Rightarrow> ('x, pointer) heap" where
  "Tolerations_DeepCopyInto js p = Tolerations_DeepCopy js p"

definition TopologySpread_DeepCopyInto :: "codecs \<Rightarrow> pointer \<Rightarrow> ('x, pointer) heap" where
  "TopologySpread_DeepCopyInto js p = TopologySpread_DeepCopy js p"

section \<open>\<^verbatim>\<open>zz_generated.deepcopy.go\<close>\<close>

text \<open>The zero values that \<^verbatim>\<open>new\<close> and \<^verbatim>\<open>make\<close> put into a cell before it is filled.\<close>

definition zero_settings :: SettingsLayout where
  "zero_settings = \<lparr>set_NameOverride = '''', set_CatchAllRule = '''', set_CAPool = None, set_NoTLSVerify = False,
     set_TLSTimeoutSeconds = 0, set_HTTP2Origin = False, set_DisableChunkedEncoding = False, set_ConnectTimeoutSeconds = 0,
     set_NoHappyEyeballs = False, set_ProxyType = '''', set_KeepAliveTimeoutSeconds = 0, set_KeepAliveConnections = 0\<rparr>"

definition zero_pdb :: PDBLayout where
  "zero_pdb = \<lparr>pl_MinAvailable = None, pl_MaxUnavailable = None\<rparr>"

definition zero_spec :: "'x library \<Rightarrow> 'x SpecLayout" where
  "zero_spec lib = \<lparr>sl_Default = False, sl_Replicas = 0, sl_Resources = zero_struct lib, sl_ImagePullSecrets = None,
     sl_Image = '''', sl_ArgsOverride = None, sl_ExtraEnv = None, sl_NodeSelector = None, sl_Tolerations = None,
     sl_TopologySpreadConstraints = None, sl_Affinity = None, sl_EnableServiceMonitor = False,
     sl_PodDisruptionBudget = None, sl_Settings = zero_settings, sl_PodSecurityContext = None, sl_SecurityContext = None\<rparr>"

definition zero_status :: StatusLayout where
  "zero_status = \<lparr>sta_Replicas = 0, sta_TunnelName = '''', sta_TunnelID = '''', sta_Conditions = None\<rparr>"

definition zero_tunnel :: "'x library \<Rightarrow> 'x TunnelLayout" where
  "zero_tunnel lib = \<lparr>tl_TypeMeta = \<lparr>tm_Kind = '''', tm_APIVersion = ''''\<rparr>, tl_ObjectMeta = zero_struct lib,
     tl_Spec = zero_spec lib, tl_Status = zero_status\<rparr>"

definition zero_list :: "'x library \<Rightarrow> 'x ListLayout" where
  "zero_list lib = \<lparr>ll_TypeMeta = \<lparr>tm_Kind = '''', tm_APIVersion = ''''\<rparr>, ll_ListMeta = zero_struct lib, ll_Items = None\<rparr>"

text \<open>
  \<^verbatim>\<open>DeepCopyInto\<close> gets the struct and returns what it writes to \<^verbatim>\<open>out\<close>: first \<^verbatim>\<open>*out = *in\<close>,
  which shares every pointer, then a copy for each pointer, slice and map field.
  \<^verbatim>\<open>DeepCopy\<close> of a pointer allocates the struct it fills.
\<close>

definition Settings_DeepCopyInto :: "SettingsLayout \<Rightarrow> ('x, SettingsLayout) heap" where
  "Settings_DeepCopyInto s = bindE (leaf_copy (set_CAPool s)) (\<lambda>p. retE (s\<lparr>set_CAPool := p\<rparr>))"

definition Settings_DeepCopy :: "pointer \<Rightarrow> ('x, pointer) heap" where
  "Settings_DeepCopy = box_copy (at_type the_settings SettingsCell) SettingsCell (\<lambda>_. zero_settings) Settings_DeepCopyInto"

definition PDBSpec_DeepCopyInto :: "PDBLayout \<Rightarrow> ('x, PDBLayout) heap" where
  "PDBSpec_DeepCopyInto s =
     bindE (leaf_copy (pl_MinAvailable s)) (\<lambda>a.
     bindE (leaf_copy (pl_MaxUnavailable s)) (\<lambda>b.
     retE (s\<lparr>pl_MinAvailable := a, pl_MaxUnavailable := b\<rparr>)))"

definition PDBSpec_DeepCopy :: "pointer \<Rightarrow> ('x, pointer) heap" where
  "PDBSpec_DeepCopy = box_copy (at_type the_pdb PDBCell) PDBCell (\<lambda>_. zero_pdb) PDBSpec_DeepCopyInto"

text \<open>\<^verbatim>\<open>if in.F != nil { *out = (*in).DeepCopy() }\<close>\<close>

definition unless_nil :: "(addr \<Rightarrow> ('x, addr) heap) \<Rightarrow> pointer \<Rightarrow> ('x, pointer) heap" where
  "unless_nil copy p = (case p of None \<Rightarrow> retE None | Some a \<Rightarrow> bindE (copy a) (\<lambda>b. retE (Some b)))"

definition Spec_DeepCopyInto :: "'x library \<Rightarrow> codecs \<Rightarrow> 'x SpecLayout \<Rightarrow> ('x, 'x SpecLayout) heap" where
  "Spec_DeepCopyInto lib js s =
     bindE (Resources_DeepCopyInto lib (sl_Resources s)) (\<lambda>res.
     bindE (leaf_copy (sl_ImagePullSecrets s)) (\<lambda>ips.
     bindE (leaf_copy (sl_ArgsOverride s)) (\<lambda>args.
     bindE (EnvVars_DeepCopyInto js (sl_ExtraEnv s)) (\<lambda>env.
     bindE (leaf_copy (sl_NodeSelector s)) (\<lambda>nodes.
     bindE (Tolerations_DeepCopyInto js (sl_Tolerations s)) (\<lambda>tol.
     bindE (TopologySpread_DeepCopyInto js (sl_TopologySpreadConstraints s)) (\<lambda>tsc.
     bindE (unless_nil (Affinity_DeepCopy js) (sl_Affinity s)) (\<lambda>aff.
     bindE (PDBSpec_DeepCopy (sl_PodDisruptionBudget s)) (\<lambda>pdb.
     bindE (Settings_DeepCopyInto (sl_Settings s)) (\<lambda>set.
     bindE (unless_nil (PodSecurityContext_DeepCopy js) (sl_PodSecurityContext s)) (\<lambda>psc.
     bindE (unless_nil (SecurityContext_DeepCopy js) (sl_SecurityContext s)) (\<lambda>sc.
     retE (s\<lparr>sl_Resources := res, sl_ImagePullSecrets := ips, sl_ArgsOverride := args, sl_ExtraEnv := env,
       sl_NodeSelector := nodes, sl_Tolerations := tol, sl_TopologySpreadConstraints := tsc, sl_Affinity := aff,
       sl_PodDisruptionBudget := pdb, sl_Settings := set, sl_PodSecurityContext := psc,
       sl_SecurityContext := sc\<rparr>)))))))))))))"

definition Spec_DeepCopy :: "'x library \<Rightarrow> codecs \<Rightarrow> pointer \<Rightarrow> ('x, pointer) heap" where
  "Spec_DeepCopy lib js = box_copy (at_type the_spec SpecCell) SpecCell (\<lambda>_. zero_spec lib) (Spec_DeepCopyInto lib js)"

definition Status_DeepCopyInto :: "'x library \<Rightarrow> StatusLayout \<Rightarrow> ('x, StatusLayout) heap" where
  "Status_DeepCopyInto lib s =
     bindE (box_copy (at_type the_conditions ConditionsCell) ConditionsCell
       (\<lambda>cs. replicate (length cs) (zero_struct lib)) (list_copy (Condition_DeepCopyInto lib)) (sta_Conditions s)) (\<lambda>p.
     retE (s\<lparr>sta_Conditions := p\<rparr>))"

definition Status_DeepCopy :: "'x library \<Rightarrow> pointer \<Rightarrow> ('x, pointer) heap" where
  "Status_DeepCopy lib = box_copy (at_type the_status StatusCell) StatusCell (\<lambda>_. zero_status) (Status_DeepCopyInto lib)"

definition Tunnel_DeepCopyInto :: "'x library \<Rightarrow> codecs \<Rightarrow> 'x TunnelLayout \<Rightarrow> ('x, 'x TunnelLayout) heap" where
  "Tunnel_DeepCopyInto lib js t =
     bindE (ObjectMeta_DeepCopyInto lib (tl_ObjectMeta t)) (\<lambda>om.
     bindE (Spec_DeepCopyInto lib js (tl_Spec t)) (\<lambda>sp.
     bindE (Status_DeepCopyInto lib (tl_Status t)) (\<lambda>st.
     retE (t\<lparr>tl_ObjectMeta := om, tl_Spec := sp, tl_Status := st\<rparr>))))"

definition Tunnel_DeepCopy :: "'x library \<Rightarrow> codecs \<Rightarrow> pointer \<Rightarrow> ('x, pointer) heap" where
  "Tunnel_DeepCopy lib js =
     box_copy (at_type the_tunnel TunnelCell) TunnelCell (\<lambda>_. zero_tunnel lib) (Tunnel_DeepCopyInto lib js)"

text \<open>The result is an interface value: nil, or the pointer at its type.\<close>

definition Tunnel_DeepCopyObject :: "'x library \<Rightarrow> codecs \<Rightarrow> pointer \<Rightarrow> ('x, pointer) heap" where
  "Tunnel_DeepCopyObject lib js p = bindE (Tunnel_DeepCopy lib js p) (\<lambda>c. case c of None \<Rightarrow> retE None | Some a \<Rightarrow> retE (Some a))"

definition List_DeepCopyInto :: "'x library \<Rightarrow> codecs \<Rightarrow> 'x ListLayout \<Rightarrow> ('x, 'x ListLayout) heap" where
  "List_DeepCopyInto lib js l =
     bindE (ListMeta_DeepCopyInto lib (ll_ListMeta l)) (\<lambda>lm.
     bindE (box_copy (at_type the_tunnels TunnelsCell) TunnelsCell
       (\<lambda>ts. replicate (length ts) (zero_tunnel lib)) (list_copy (Tunnel_DeepCopyInto lib js)) (ll_Items l)) (\<lambda>p.
     retE (l\<lparr>ll_ListMeta := lm, ll_Items := p\<rparr>)))"

definition List_DeepCopy :: "'x library \<Rightarrow> codecs \<Rightarrow> pointer \<Rightarrow> ('x, pointer) heap" where
  "List_DeepCopy lib js = box_copy (at_type the_list ListCell) ListCell (\<lambda>_. zero_list lib) (List_DeepCopyInto lib js)"

definition List_DeepCopyObject :: "'x library \<Rightarrow> codecs \<Rightarrow> pointer \<Rightarrow> ('x, pointer) heap" where
  "List_DeepCopyObject lib js p = bindE (List_DeepCopy lib js p) (\<lambda>c. case c of None \<Rightarrow> retE None | Some a \<Rightarrow> retE (Some a))"

section \<open>What a layout denotes\<close>

type_synonym ('x, 'p, 'v) view = "'x cell mem \<Rightarrow> 'p \<Rightarrow> 'v option"
type_synonym ('x, 'p) reach = "'x cell mem \<Rightarrow> 'p \<Rightarrow> addr set"

definition settings_value :: "SettingsLayout \<Rightarrow> string option \<Rightarrow> CloudflareTunnelSettings" where
  "settings_value s pool = \<lparr>NameOverride = set_NameOverride s, CatchAllRule = set_CatchAllRule s, CAPool = pool,
     NoTLSVerify = set_NoTLSVerify s, TLSTimeoutSeconds = set_TLSTimeoutSeconds s, HTTP2Origin = set_HTTP2Origin s,
     DisableChunkedEncoding = set_DisableChunkedEncoding s, ConnectTimeoutSeconds = set_ConnectTimeoutSeconds s,
     NoHappyEyeballs = set_NoHappyEyeballs s, ProxyType = set_ProxyType s,
     KeepAliveTimeoutSeconds = set_KeepAliveTimeoutSeconds s, KeepAliveConnections = set_KeepAliveConnections s\<rparr>"

definition settings_view :: "('x, SettingsLayout, CloudflareTunnelSettings) view" where
  "settings_view m s = map_option (settings_value s) (leaf_view (at_type the_string StringCell) m (set_CAPool s))"

definition settings_owned :: "('x, SettingsLayout) reach" where
  "settings_owned m s = leaf_owned m (set_CAPool s)"

definition pdb_parts :: "PDBLayout \<Rightarrow> pointer \<times> pointer" where
  "pdb_parts s = (pl_MinAvailable s, pl_MaxUnavailable s)"

abbreviation int_or_string_view :: "('x, pointer, IntOrString option) view" where
  "int_or_string_view \<equiv> leaf_view (at_type the_int_or_string IntOrStringCell)"

definition pdb_view :: "('x, PDBLayout, PDBSpec) view" where
  "pdb_view m s = map_option (\<lambda>v. \<lparr>pdbs_MinAvailable = fst v, pdbs_MaxUnavailable = snd v\<rparr>)
     (pair_view int_or_string_view int_or_string_view m (pdb_parts s))"

definition pdb_owned :: "('x, PDBLayout) reach" where
  "pdb_owned m s = pair_owned leaf_owned leaf_owned m (pdb_parts s)"

interpretation settings: deep_copier Settings_DeepCopyInto settings_view settings_owned "\<lambda>_. True"
proof -
  have "deep_copier Settings_DeepCopyInto
      (\<lambda>m p. map_option (settings_value p) (leaf_view (at_type the_string StringCell) m (set_CAPool p)))
      (\<lambda>m p. leaf_owned m (set_CAPool p)) (\<lambda>_. True)"
    by (rule struct_copier [OF leaf_copier, where with_parts = "\<lambda>s p. s\<lparr>set_CAPool := p\<rparr>"])
      (simp_all add: settings_value_def Settings_DeepCopyInto_def fun_eq_iff)
  then show "deep_copier (Settings_DeepCopyInto :: _ \<Rightarrow> ('x, _) heap) settings_view settings_owned (\<lambda>_. True)"
    unfolding settings_view_def settings_owned_def by simp
qed

interpretation pdb: deep_copier PDBSpec_DeepCopyInto pdb_view pdb_owned "\<lambda>_. True"
proof -
  have "deep_copier PDBSpec_DeepCopyInto
      (\<lambda>m p. map_option (\<lambda>v. \<lparr>pdbs_MinAvailable = fst v, pdbs_MaxUnavailable = snd v\<rparr>)
        (pair_view int_or_string_view int_or_string_view m (pdb_parts p)))
      (\<lambda>m p. pair_owned leaf_owned leaf_owned m (pdb_parts p)) (\<lambda>_. True)"
    by (rule struct_copier [OF pair_copier [OF leaf_copier leaf_copier],
          where with_parts = "\<lambda>s p. s\<lparr>pl_MinAvailable := fst p, pl_MaxUnavailable := snd p\<rparr>"])
      (simp_all add: PDBSpec_DeepCopyInto_def pair_copy_def pdb_parts_def bindE_assoc bindE_retE)
  then show "deep_copier (PDBSpec_DeepCopyInto :: _ \<Rightarrow> ('x, _) heap) pdb_view pdb_owned (\<lambda>_. True)"
    unfolding pdb_view_def pdb_owned_def by simp
qed

text \<open>The parts of a spec in the order of their copies, and the four fields that need none.\<close>

definition spec_parts where
  "spec_parts s = (sl_Resources s, sl_ImagePullSecrets s, sl_ArgsOverride s, sl_ExtraEnv s, sl_NodeSelector s,
     sl_Tolerations s, sl_TopologySpreadConstraints s, sl_Affinity s, sl_PodDisruptionBudget s, sl_Settings s,
     sl_PodSecurityContext s, sl_SecurityContext s)"

definition with_spec_parts where
  "with_spec_parts s = (\<lambda>(res, ips, args, env, nodes, tol, tsc, aff, pdb, set, psc, sc).
     s\<lparr>sl_Resources := res, sl_ImagePullSecrets := ips, sl_ArgsOverride := args, sl_ExtraEnv := env,
       sl_NodeSelector := nodes, sl_Tolerations := tol, sl_TopologySpreadConstraints := tsc, sl_Affinity := aff,
       sl_PodDisruptionBudget := pdb, sl_Settings := set, sl_PodSecurityContext := psc, sl_SecurityContext := sc\<rparr>)"

definition spec_value where
  "spec_value s parts = ((sl_Default s, sl_Replicas s, sl_Image s, sl_EnableServiceMonitor s), parts)"

abbreviation pointers_of :: "'x cell \<Rightarrow> pointer list option" where
  "pointers_of \<equiv> at_type the_pointers PointersCell"

definition spec_view where
  "spec_view xview m s = map_option (spec_value s)
     (pair_view xview
     (pair_view (leaf_view (at_type the_references ReferencesCell))
     (pair_view (leaf_view (at_type the_strings StringsCell))
     (pair_view (slice_view pointers_of (at_type the_env EnvVarCell))
     (pair_view (leaf_view (at_type the_map MapCell))
     (pair_view (slice_view pointers_of (at_type the_toleration TolerationCell))
     (pair_view (slice_view pointers_of (at_type the_spread SpreadCell))
     (pair_view (leaf_view (at_type the_affinity AffinityCell))
     (pair_view (box_view (at_type the_pdb PDBCell) pdb_view)
     (pair_view settings_view
     (pair_view (leaf_view (at_type the_pod_security PodSecurityCell))
        (leaf_view (at_type the_security SecurityCell))))))))))))  m (spec_parts s))"

definition spec_owned where
  "spec_owned xowned m s =
     pair_owned xowned
     (pair_owned leaf_owned
     (pair_owned leaf_owned
     (pair_owned (slice_owned pointers_of)
     (pair_owned leaf_owned
     (pair_owned (slice_owned pointers_of)
     (pair_owned (slice_owned pointers_of)
     (pair_owned leaf_owned
     (pair_owned (box_owned (at_type the_pdb PDBCell) pdb_owned)
     (pair_owned settings_owned
     (pair_owned leaf_owned leaf_owned)))))))))) m (spec_parts s)"

text \<open>The specs whose apply configurations survive the JSON round trip.\<close>

definition spec_faithful where
  "spec_faithful js = (\<lambda>(own, res, ips, args, env, nodes, tol, tsc, aff, pdb, set, psc, sc).
     faithful (env_codec js) env \<and> faithful (toleration_codec js) tol \<and> faithful (spread_codec js) tsc \<and>
     good_opt (faithful (affinity_codec js)) aff \<and> good_opt (faithful (pod_security_codec js)) psc \<and>
     good_opt (faithful (security_codec js)) sc)"

definition status_view where
  "status_view xview m s = map_option (\<lambda>cs. (sta_Replicas s, sta_TunnelName s, sta_TunnelID s, cs))
     (box_view (at_type the_conditions ConditionsCell) (list_view xview) m (sta_Conditions s))"

definition status_owned where
  "status_owned xowned m s = box_owned (at_type the_conditions ConditionsCell) (list_owned xowned) m (sta_Conditions s)"

definition tunnel_parts where
  "tunnel_parts t = (tl_ObjectMeta t, tl_Spec t, tl_Status t)"

definition tunnel_view where
  "tunnel_view xview m t = map_option (Pair (tl_TypeMeta t))
     (pair_view xview (pair_view (spec_view xview) (status_view xview)) m (tunnel_parts t))"

definition tunnel_owned where
  "tunnel_owned xowned m t =
     pair_owned xowned (pair_owned (spec_owned xowned) (status_owned xowned)) m (tunnel_parts t)"

definition tunnel_faithful where
  "tunnel_faithful js = (\<lambda>(tm, om, sp, st). spec_faithful js sp)"

definition list_parts where
  "list_parts l = (ll_ListMeta l, ll_Items l)"

definition tunnels_view where
  "tunnels_view xview m l = map_option (Pair (ll_TypeMeta l))
     (pair_view xview (box_view (at_type the_tunnels TunnelsCell) (list_view (tunnel_view xview))) m (list_parts l))"

definition tunnels_owned where
  "tunnels_owned xowned m l =
     pair_owned xowned (box_owned (at_type the_tunnels TunnelsCell) (list_owned (tunnel_owned xowned))) m (list_parts l)"

definition tunnels_faithful where
  "tunnels_faithful js = (\<lambda>(tm, lm, items). good_opt (list_all (tunnel_faithful js)) items)"

section \<open>The copies are deep\<close>

text \<open>The parts of a spec that do not depend on the library.\<close>

lemma at_type_mk_simps [simp]: "at_type the_pointers PointersCell (PointersCell ps) = Some ps"
    "at_type the_env EnvVarCell (EnvVarCell e) = Some e" "at_type the_toleration TolerationCell (TolerationCell t) = Some t"
    "at_type the_spread SpreadCell (SpreadCell c) = Some c" "at_type the_affinity AffinityCell (AffinityCell a) = Some a"
    "at_type the_pod_security PodSecurityCell (PodSecurityCell p) = Some p"
    "at_type the_security SecurityCell (SecurityCell s) = Some s" "at_type the_pdb PDBCell (PDBCell l) = Some l"
    "at_type the_conditions ConditionsCell (ConditionsCell cs) = Some cs"
    "at_type the_tunnels TunnelsCell (TunnelsCell ts) = Some ts" "at_type the_tunnel TunnelCell (TunnelCell u) = Some u"
    "at_type the_list ListCell (ListCell v) = Some v"
  by (simp_all add: at_type_def)

lemma envs_copier: "deep_copier (EnvVars_DeepCopyInto js) (slice_view pointers_of (at_type the_env EnvVarCell))
    (slice_owned pointers_of) (faithful (env_codec js))"
  using json_slice_copier [of "at_type the_env EnvVarCell" EnvVarCell pointers_of PointersCell]
  by (simp add: EnvVars_DeepCopyInto_def [abs_def] EnvVars_DeepCopy_def)

lemma tolerations_copier:
  "deep_copier (Tolerations_DeepCopyInto js) (slice_view pointers_of (at_type the_toleration TolerationCell))
    (slice_owned pointers_of) (faithful (toleration_codec js))"
  using json_slice_copier [of "at_type the_toleration TolerationCell" TolerationCell pointers_of PointersCell]
  by (simp add: Tolerations_DeepCopyInto_def [abs_def] Tolerations_DeepCopy_def)

lemma spread_copier:
  "deep_copier (TopologySpread_DeepCopyInto js) (slice_view pointers_of (at_type the_spread SpreadCell))
    (slice_owned pointers_of) (faithful (spread_codec js))"
  using json_slice_copier [of "at_type the_spread SpreadCell" SpreadCell pointers_of PointersCell]
  by (simp add: TopologySpread_DeepCopyInto_def [abs_def] TopologySpread_DeepCopy_def)

lemma json_pointer: "unless_nil (json_cell_copy j get mk) = json_pointer_copy j get mk"
  by (simp add: fun_eq_iff json_pointer_copy_def unless_nil_def)

lemma affinity_copier: "deep_copier (unless_nil (Affinity_DeepCopy js)) (leaf_view (at_type the_affinity AffinityCell))
    leaf_owned (good_opt (faithful (affinity_codec js)))"
  unfolding Affinity_DeepCopy_def json_pointer by (rule json_pointer_copier) simp

lemma pod_security_copier:
  "deep_copier (unless_nil (PodSecurityContext_DeepCopy js)) (leaf_view (at_type the_pod_security PodSecurityCell))
    leaf_owned (good_opt (faithful (pod_security_codec js)))"
  unfolding PodSecurityContext_DeepCopy_def json_pointer by (rule json_pointer_copier) simp

lemma security_copier:
  "deep_copier (unless_nil (SecurityContext_DeepCopy js)) (leaf_view (at_type the_security SecurityCell))
    leaf_owned (good_opt (faithful (security_codec js)))"
  unfolding SecurityContext_DeepCopy_def json_pointer by (rule json_pointer_copier) simp

lemma good_opt_True [simp]: "good_opt (\<lambda>_. True) x" "good_opt (list_all (\<lambda>_. True)) y"
  by (simp_all add: good_opt_def list.pred_True split: option.splits)

lemma pdb_pointer_copier: "deep_copier PDBSpec_DeepCopy (box_view (at_type the_pdb PDBCell) pdb_view)
    (box_owned (at_type the_pdb PDBCell) pdb_owned) (good_opt (\<lambda>_. True))"
  unfolding PDBSpec_DeepCopy_def by (rule box_copier [OF pdb.deep_copier_axioms]) simp

text \<open>A returned interface value is nil exactly when the pointer is.\<close>

lemma Tunnel_DeepCopyObject_eq: "Tunnel_DeepCopyObject lib js = Tunnel_DeepCopy lib js"
  by (auto simp: Tunnel_DeepCopyObject_def fun_eq_iff bindE_def handle_def retE_def throwE_def
      split: prod.splits outcome.splits option.splits)

lemma List_DeepCopyObject_eq: "List_DeepCopyObject lib js = List_DeepCopy lib js"
  by (auto simp: List_DeepCopyObject_def fun_eq_iff bindE_def handle_def retE_def throwE_def
      split: prod.splits outcome.splits option.splits)

locale kubernetes_copies =
  fixes lib :: "'x library" and xview :: "('x, 'x, 'v) view" and xowned :: "('x, 'x) reach"
  assumes resources: "deep_copier (Resources_DeepCopyInto lib) xview xowned (\<lambda>_. True)"
    and object_meta: "deep_copier (ObjectMeta_DeepCopyInto lib) xview xowned (\<lambda>_. True)"
    and list_meta: "deep_copier (ListMeta_DeepCopyInto lib) xview xowned (\<lambda>_. True)"
    and condition: "deep_copier (Condition_DeepCopyInto lib) xview xowned (\<lambda>_. True)"
begin

lemmas spec_parts_copier =
  pair_copier [OF resources pair_copier [OF leaf_copier pair_copier [OF leaf_copier pair_copier [OF envs_copier
  pair_copier [OF leaf_copier pair_copier [OF tolerations_copier pair_copier [OF spread_copier pair_copier [OF affinity_copier
  pair_copier [OF pdb_pointer_copier pair_copier [OF settings.deep_copier_axioms
  pair_copier [OF pod_security_copier security_copier]]]]]]]]]]]

lemma spec_copier: "deep_copier (Spec_DeepCopyInto lib js) (spec_view xview) (spec_owned xowned) (spec_faithful js)"
  unfolding spec_view_def spec_owned_def
  by (rule struct_copier [OF spec_parts_copier, where with_parts = with_spec_parts])
    (simp_all add: spec_parts_def with_spec_parts_def spec_value_def Spec_DeepCopyInto_def pair_copy_def bindE_assoc bindE_retE
      spec_faithful_def fun_eq_iff split: prod.splits)

lemma conditions_copier: "deep_copier
    (box_copy (at_type the_conditions ConditionsCell) ConditionsCell (\<lambda>cs. replicate (length cs) (zero_struct lib))
      (list_copy (Condition_DeepCopyInto lib)))
    (box_view (at_type the_conditions ConditionsCell) (list_view xview))
    (box_owned (at_type the_conditions ConditionsCell) (list_owned xowned)) (good_opt (list_all (\<lambda>_. True)))"
  by (rule box_copier [OF list_copier [OF condition]]) simp

lemma status_copier: "deep_copier (Status_DeepCopyInto lib) (status_view xview) (status_owned xowned) (\<lambda>_. True)"
  unfolding status_view_def status_owned_def
  by (rule struct_copier [OF conditions_copier, where with_parts = "\<lambda>s p. s\<lparr>sta_Conditions := p\<rparr>"])
    (simp_all add: Status_DeepCopyInto_def)

lemma tunnel_copier: "deep_copier (Tunnel_DeepCopyInto lib js) (tunnel_view xview) (tunnel_owned xowned) (tunnel_faithful js)"
  unfolding tunnel_view_def tunnel_owned_def
  by (rule struct_copier [OF pair_copier [OF object_meta pair_copier [OF spec_copier status_copier]],
        where with_parts = "\<lambda>t (om, sp, st). t\<lparr>tl_ObjectMeta := om, tl_Spec := sp, tl_Status := st\<rparr>"])
    (simp_all add: tunnel_parts_def Tunnel_DeepCopyInto_def pair_copy_def bindE_assoc bindE_retE tunnel_faithful_def
      split: prod.splits)

lemma items_copier: "deep_copier
    (box_copy (at_type the_tunnels TunnelsCell) TunnelsCell (\<lambda>ts. replicate (length ts) (zero_tunnel lib))
      (list_copy (Tunnel_DeepCopyInto lib js)))
    (box_view (at_type the_tunnels TunnelsCell) (list_view (tunnel_view xview)))
    (box_owned (at_type the_tunnels TunnelsCell) (list_owned (tunnel_owned xowned))) (good_opt (list_all (tunnel_faithful js)))"
  by (rule box_copier [OF list_copier [OF tunnel_copier]]) simp

lemma tunnels_copier: "deep_copier (List_DeepCopyInto lib js) (tunnels_view xview) (tunnels_owned xowned) (tunnels_faithful js)"
  unfolding tunnels_view_def tunnels_owned_def
  by (rule struct_copier [OF pair_copier [OF list_meta items_copier],
        where with_parts = "\<lambda>l (lm, p). l\<lparr>ll_ListMeta := lm, ll_Items := p\<rparr>"])
    (simp_all add: list_parts_def List_DeepCopyInto_def pair_copy_def bindE_assoc bindE_retE tunnels_faithful_def
      split: prod.splits)

text \<open>\<^verbatim>\<open>DeepCopy\<close> and \<^verbatim>\<open>DeepCopyObject\<close> of a pointer keep the contract.\<close>

lemma tunnel_pointer_copier: "deep_copier (Tunnel_DeepCopyObject lib js) (box_view (at_type the_tunnel TunnelCell) (tunnel_view xview))
    (box_owned (at_type the_tunnel TunnelCell) (tunnel_owned xowned)) (good_opt (tunnel_faithful js))"
  unfolding Tunnel_DeepCopyObject_eq Tunnel_DeepCopy_def by (rule box_copier [OF tunnel_copier]) simp

lemma list_pointer_copier: "deep_copier (List_DeepCopyObject lib js) (box_view (at_type the_list ListCell) (tunnels_view xview))
    (box_owned (at_type the_list ListCell) (tunnels_owned xowned)) (good_opt (tunnels_faithful js))"
  unfolding List_DeepCopyObject_eq List_DeepCopy_def by (rule box_copier [OF tunnels_copier]) simp

end

section \<open>A library and a memory\<close>

text \<open>A Kubernetes struct with one pointer of its own, its copy, and codecs for short values.\<close>

type_synonym kube_struct = "json \<times> pointer"

definition kube_copy :: "kube_struct \<Rightarrow> (kube_struct, kube_struct) heap" where
  "kube_copy s = bindE (leaf_copy (snd s)) (\<lambda>p. retE (fst s, p))"

definition kube_view :: "(kube_struct, kube_struct, json \<times> json option) view" where
  "kube_view m s = map_option (Pair (fst s)) (leaf_view (at_type the_library LibraryCell) m (snd s))"

definition kube_owned :: "(kube_struct, kube_struct) reach" where
  "kube_owned m s = leaf_owned m (snd s)"

definition kube_library :: "kube_struct library" where
  "kube_library = \<lparr>Resources_DeepCopyInto = kube_copy, ObjectMeta_DeepCopyInto = kube_copy,
     ListMeta_DeepCopyInto = kube_copy, Condition_DeepCopyInto = kube_copy, zero_struct = (JNull, None)\<rparr>"

lemma kube_copier: "deep_copier kube_copy kube_view kube_owned (\<lambda>_. True)"
  unfolding kube_view_def kube_owned_def
  by (rule struct_copier [OF leaf_copier, where with_parts = "\<lambda>s p. (fst s, p)"]) (simp_all add: kube_copy_def)

interpretation kube: kubernetes_copies kube_library kube_view kube_owned
  by (rule kubernetes_copies.intro) (simp_all add: kube_library_def kube_copier)

definition short_slice :: "'v option list option codec" where
  "short_slice = \<lparr>Marshal = (\<lambda>v. if v = None then Ok ''null'' else if v = Some [] then Ok ''[]'' else Err (ForeignError ''too long'')),
     Unmarshal = (\<lambda>bytes. if bytes = ''null'' then Ok None else if bytes = ''[]'' then Ok (Some []) else Err (ForeignError ''bad input''))\<rparr>"

definition sample_codecs :: codecs where
  "sample_codecs = \<lparr>env_codec = short_slice, toleration_codec = short_slice, spread_codec = short_slice,
     affinity_codec = \<lparr>Marshal = (\<lambda>v. case v of JString s \<Rightarrow> Ok s | _ \<Rightarrow> Err (ForeignError ''unsupported'')),
       Unmarshal = (\<lambda>bytes. if bytes = ''!'' then Err (ForeignError ''bad input'') else Ok (JString bytes))\<rparr>,
     pod_security_codec = \<lparr>Marshal = (\<lambda>v. Err (ForeignError ''unsupported'')), Unmarshal = (\<lambda>b. Err (ForeignError ''bad input''))\<rparr>,
     security_codec = \<lparr>Marshal = (\<lambda>v. Err (ForeignError ''unsupported'')), Unmarshal = (\<lambda>b. Err (ForeignError ''bad input''))\<rparr>\<rparr>"

definition sample_layout :: "kube_struct TunnelLayout" where
  "sample_layout = \<lparr>tl_TypeMeta = \<lparr>tm_Kind = ''CloudflareTunnel'', tm_APIVersion = ''v1beta1''\<rparr>, tl_ObjectMeta = (JString ''edge'', Some 1),
     tl_Spec = (zero_spec kube_library)\<lparr>sl_ArgsOverride := Some 2, sl_ExtraEnv := Some 3, sl_Affinity := Some 4,
       sl_PodDisruptionBudget := Some 5, sl_Settings := zero_settings\<lparr>set_CAPool := Some 7\<rparr>\<rparr>,
     tl_Status = zero_status\<lparr>sta_Conditions := Some 8\<rparr>\<rparr>"

definition sample_memory :: "kube_struct cell mem" where
  "sample_memory = \<lparr>cells = [0 \<mapsto> TunnelCell sample_layout, 1 \<mapsto> LibraryCell JNull, 2 \<mapsto> StringsCell [''run''],
     3 \<mapsto> PointersCell [], 4 \<mapsto> AffinityCell (JString ''zone''), 5 \<mapsto> PDBCell \<lparr>pl_MinAvailable = Some 6, pl_MaxUnavailable = None\<rparr>,
     6 \<mapsto> IntOrStringCell (IntVal 1), 7 \<mapsto> StringCell ''/ca.pem'', 8 \<mapsto> ConditionsCell [(JString ''Available'', None)]], next_addr = 9\<rparr>"

lemma sample_memory_ok: "mem_ok sample_memory"
  by (auto simp: mem_ok_def sample_memory_def split: if_splits)

section \<open>Failing copies\<close>

text \<open>An affinity that cannot be marshalled, after lists that can.\<close>

definition affinity_unmarshallable where
  "affinity_unmarshallable js = (\<lambda>(own, res, ips, args, env, nodes, tol, tsc, aff, rest).
     faithful (env_codec js) env \<and> faithful (toleration_codec js) tol \<and> faithful (spread_codec js) tsc \<and>
     (\<exists>x e. aff = Some x \<and> Marshal (affinity_codec js) x = Err e))"

abbreviation tunnel_at where
  "tunnel_at xview \<equiv> box_view (at_type the_tunnel TunnelCell) (tunnel_view xview)"

abbreviation tunnel_reach where
  "tunnel_reach xowned \<equiv> box_owned (at_type the_tunnel TunnelCell) (tunnel_owned xowned)"

abbreviation list_at where
  "list_at xview \<equiv> box_view (at_type the_list ListCell) (tunnels_view xview)"

abbreviation list_reach where
  "list_reach xowned \<equiv> box_owned (at_type the_list ListCell) (tunnels_owned xowned)"

lemma affinity_panics: "panics_on (unless_nil (Affinity_DeepCopy js)) (leaf_view (at_type the_affinity AffinityCell))
    (\<lambda>v. \<exists>x e. v = Some x \<and> Marshal (affinity_codec js) x = Err e) ''Failed to marshal''"
  unfolding Affinity_DeepCopy_def json_pointer by (rule json_pointer_panics)

context kubernetes_copies
begin

lemma spec_panics: "panics_on (Spec_DeepCopyInto lib js) (spec_view xview) (affinity_unmarshallable js) ''Failed to marshal''"
proof -
  note rest = pair_copier [OF affinity_copier pair_copier [OF pdb_pointer_copier pair_copier [OF settings.deep_copier_axioms
    pair_copier [OF pod_security_copier security_copier]]]]
  note c7 = pair_copier [OF spread_copier rest] and c6 = pair_copier [OF tolerations_copier pair_copier [OF spread_copier rest]]
  note c5 = pair_copier [OF leaf_copier c6]
  note c4 = pair_copier [OF envs_copier c5]
  note c3 = pair_copier [OF leaf_copier c4]
  note c2 = pair_copier [OF leaf_copier c3]
  show ?thesis
    unfolding spec_view_def
    by (rule struct_panics [OF pair_panics_second [OF resources c2 pair_panics_second [OF leaf_copier c3
        pair_panics_second [OF leaf_copier c4 pair_panics_second [OF envs_copier c5 pair_panics_second [OF leaf_copier c6
        pair_panics_second [OF tolerations_copier c7 pair_panics_second [OF spread_copier rest
        pair_panics_first [OF affinity_panics]]]]]]]], where with_parts = with_spec_parts])
      (auto simp: spec_parts_def with_spec_parts_def spec_value_def Spec_DeepCopyInto_def pair_copy_def bindE_assoc bindE_retE
        affinity_unmarshallable_def split: prod.splits)
qed

lemma tunnel_panics: "panics_on (Tunnel_DeepCopyObject lib js) (tunnel_at xview)
    (\<lambda>v. \<exists>tm om sp st. v = Some (tm, om, sp, st) \<and> affinity_unmarshallable js sp) ''Failed to marshal''"
proof -
  have "panics_on (Tunnel_DeepCopyInto lib js) (tunnel_view xview) (\<lambda>(tm, om, sp, st). affinity_unmarshallable js sp) ''Failed to marshal''"
    unfolding tunnel_view_def
    by (rule struct_panics [OF pair_panics_second [OF object_meta pair_copier [OF spec_copier status_copier]
        pair_panics_first [OF spec_panics]],
        where with_parts = "\<lambda>t (om, sp, st). t\<lparr>tl_ObjectMeta := om, tl_Spec := sp, tl_Status := st\<rparr>"])
      (simp_all add: tunnel_parts_def Tunnel_DeepCopyInto_def pair_copy_def bindE_assoc bindE_retE split: prod.splits)
  from box_panics [OF tunnel_copier this] show ?thesis
    unfolding Tunnel_DeepCopyObject_eq Tunnel_DeepCopy_def panics_on_def by fastforce
qed

end

section \<open>Isolation of the cached objects\<close>

sublocale kubernetes_copies \<subseteq> tunnel_object: deep_copier "Tunnel_DeepCopyObject lib js"
    "box_view (at_type the_tunnel TunnelCell) (tunnel_view xview)" "box_owned (at_type the_tunnel TunnelCell) (tunnel_owned xowned)"
    "good_opt (tunnel_faithful js)" for js
  by (rule tunnel_pointer_copier)

sublocale kubernetes_copies \<subseteq> list_object: deep_copier "List_DeepCopyObject lib js"
    "box_view (at_type the_list ListCell) (tunnels_view xview)" "box_owned (at_type the_list ListCell) (tunnels_owned xowned)"
    "good_opt (tunnels_faithful js)" for js
  by (rule list_pointer_copier)

context kubernetes_copies
begin

lemma box_copy_not_nil: "box_copy get mk zero copy (Some a) m = (Ok q, m') \<Longrightarrow> \<exists>b. q = Some b"
  by (auto simp: box_copy_def bindE_Ok retE_eq panicE_eq split: option.splits)

lemma tunnel_not_nil: "\<forall>q m'. Tunnel_DeepCopyObject lib js (Some a) m = (Ok q, m') \<longrightarrow> (\<exists>b. q = Some b)"
  unfolding Tunnel_DeepCopyObject_eq Tunnel_DeepCopy_def by (blast dest: box_copy_not_nil)

lemma list_not_nil: "\<forall>q m'. List_DeepCopyObject lib js (Some a) m = (Ok q, m') \<longrightarrow> (\<exists>b. q = Some b)"
  unfolding List_DeepCopyObject_eq List_DeepCopy_def by (blast dest: box_copy_not_nil)

lemma some_result: "\<exists>q m'. r = (Ok q, m') \<and> P q m' \<Longrightarrow> (\<forall>q m'. r = (Ok q, m') \<longrightarrow> (\<exists>b. q = Some b)) \<Longrightarrow>
    \<exists>b m'. r = (Ok (Some b), m') \<and> P (Some b) m'"
  by blast

lemma tunnel_object_isolated:
  assumes "mem_ok m" and "tunnel_at xview m (Some a) = Some (Some v)" and "tunnel_faithful js v"
  shows "\<exists>b m'. Tunnel_DeepCopyObject lib js (Some a) m = (Ok (Some b), m') \<and>
    tunnel_at xview m' (Some b) = Some (Some v) \<and> tunnel_at xview m' (Some a) = Some (Some v) \<and>
    tunnel_reach xowned m' (Some a) \<inter> tunnel_reach xowned m' (Some b) = {} \<and>
    (\<forall>e \<in> tunnel_reach xowned m' (Some b). \<forall>c. tunnel_at xview (write_cell e c m') (Some a) = Some (Some v)) \<and>
    (\<forall>e \<in> tunnel_reach xowned m' (Some a). \<forall>c. tunnel_at xview (write_cell e c m') (Some b) = Some (Some v))"
proof -
  from assms(3) have "good_opt (tunnel_faithful js) (Some v)" by (simp add: good_opt_def)
  from some_result [OF tunnel_object.copy_isolated [OF assms(1,2) this] tunnel_not_nil] show ?thesis by auto
qed

lemma list_object_isolated:
  assumes "mem_ok m" and "list_at xview m (Some a) = Some (Some v)" and "tunnels_faithful js v"
  shows "\<exists>b m'. List_DeepCopyObject lib js (Some a) m = (Ok (Some b), m') \<and>
    list_at xview m' (Some b) = Some (Some v) \<and> list_at xview m' (Some a) = Some (Some v) \<and>
    list_reach xowned m' (Some a) \<inter> list_reach xowned m' (Some b) = {} \<and>
    (\<forall>e \<in> list_reach xowned m' (Some b). \<forall>c. list_at xview (write_cell e c m') (Some a) = Some (Some v)) \<and>
    (\<forall>e \<in> list_reach xowned m' (Some a). \<forall>c. list_at xview (write_cell e c m') (Some b) = Some (Some v))"
proof -
  from assms(3) have "good_opt (tunnels_faithful js) (Some v)" by (simp add: good_opt_def)
  from some_result [OF list_object.copy_isolated [OF assms(1,2) this] list_not_nil] show ?thesis by auto
qed

end

text \<open>The value of the sample tunnel.\<close>

definition sample_value where
  "sample_value = (\<lparr>tm_Kind = ''CloudflareTunnel'', tm_APIVersion = ''v1beta1''\<rparr>, (JString ''edge'', Some JNull),
     ((False, 0 :: int32, '''' :: string, False), (JNull, None :: json option), None :: string list option, Some [''run''],
       Some [] :: EnvVarApply option list option, None :: (string \<rightharpoonup> string) option, None :: json option list option,
       None :: TopologySpreadConstraintApply option list option, Some (JString ''zone''),
       Some \<lparr>pdbs_MinAvailable = Some (IntVal 1), pdbs_MaxUnavailable = None\<rparr>,
       settings_value zero_settings (Some ''/ca.pem''), None :: PodSecurityContextApply option,
       None :: SecurityContextApply option),
     (0 :: int32, '''' :: string, '''' :: string, Some [(JString ''Available'', None :: json option)]))"

lemma sample_tunnel_at: "tunnel_at kube_view sample_memory (Some 0) = Some (Some sample_value)"
  by (simp add: sample_memory_def sample_layout_def sample_value_def box_view_def tunnel_view_def tunnel_parts_def pair_view_def
      kube_view_def leaf_view_def at_type_def spec_view_def spec_parts_def zero_spec_def kube_library_def slice_view_def
      spec_value_def pdb_view_def pdb_parts_def settings_view_def settings_value_def status_view_def zero_status_def zero_settings_def)

lemma sample_faithful: "tunnel_faithful sample_codecs sample_value"
  by (simp add: tunnel_faithful_def sample_value_def spec_faithful_def sample_codecs_def faithful_def short_slice_def good_opt_def)

text \<open>Codecs that cannot write an affinity.\<close>

definition deaf_codecs :: codecs where
  "deaf_codecs = sample_codecs\<lparr>affinity_codec := \<lparr>Marshal = (\<lambda>v. Err (ForeignError ''unsupported'')), Unmarshal = (\<lambda>b. Ok JNull)\<rparr>\<rparr>"

lemma deaf_affinity: "affinity_unmarshallable deaf_codecs (fst (snd (snd sample_value)))"
  by (simp add: affinity_unmarshallable_def sample_value_def deaf_codecs_def sample_codecs_def faithful_def short_slice_def)

text \<open>\<^verbatim>\<open>Ref\<close> protects the array of the original, not its elements.\<close>

lemma env_ref_shares:
  assumes ok: "mem_ok m" and a: "cells m a = Some (PointersCell ps)"
    and vs: "elems_view (at_type the_env EnvVarCell) m ps = Some vs"
  shows "\<exists>b m'. EnvVars_Ref (Some a) m = (Ok (Some b), m') \<and> b \<noteq> a \<and>
    slice_view pointers_of (at_type the_env EnvVarCell) m' (Some b) = Some (Some vs) \<and>
    slice_owned pointers_of m' (Some b) \<inter> slice_owned pointers_of m' (Some a) = elems_owned ps \<and>
    (\<forall>c. slice_view pointers_of (at_type the_env EnvVarCell) (write_cell b c m') (Some a) = Some (Some vs))"
proof -
  from slice_ref_shares [of m pointers_of PointersCell, OF ok _ a _ vs] obtain b m' where
    b: "EnvVars_Ref (Some a) m = (Ok (Some b), m')" "b \<noteq> a" "slice_view pointers_of (at_type the_env EnvVarCell) m' (Some b) = Some (Some vs)"
      "slice_owned pointers_of m' (Some b) \<inter> slice_owned pointers_of m' (Some a) = elems_owned ps"
    and other: "b \<notin> slice_owned pointers_of m' (Some a)" "slice_view pointers_of (at_type the_env EnvVarCell) m' (Some a) = Some (Some vs)"
    unfolding EnvVars_Ref_def by fastforce
  have "slice_view pointers_of (at_type the_env EnvVarCell) (write_cell b c m') (Some a) = Some (Some vs)" for c
  proof -
    have "cells (write_cell b c m') e = cells m' e" if "e \<in> slice_owned pointers_of m' (Some a)" for e
      using that other(1) by auto
    from deep_copier.view_frame [OF envs_copier other(2) this] show ?thesis by simp
  qed
  with b show ?thesis by blast
qed

text \<open>A list of one variable.\<close>

definition one_variable :: EnvVarApply where
  "one_variable = \<lparr>env_Name = Some ''NO_AUTOUPDATE'', env_Value = Some ''true'', env_SecretKeyRef = None, env_Rest = []\<rparr>"

definition variable_memory :: "kube_struct cell mem" where
  "variable_memory = \<lparr>cells = [0 \<mapsto> PointersCell [Some 1, None], 1 \<mapsto> EnvVarCell one_variable], next_addr = 2\<rparr>"

lemma variable_memory_ok: "mem_ok variable_memory"
  by (auto simp: mem_ok_def variable_memory_def split: if_splits)

end
