(* ===== verification/Convergence.thy ===== *)
theory Convergence
  imports TunnelEvents
begin

text \<open>
  Successive reconciliations of one tunnel resource, against an API server that stores the
  objects. The claim of a controller is about its whole life: however often \<^verbatim>\<open>Reconcile\<close> runs
  and fails, what the cluster stores about the tunnel stays coherent, and once a run has
  succeeded no further tunnel is created. The server is code outside the repository, so what it
  documents is a hypothesis (\<open>storing_server\<close>); between any two calls other parties may change
  the cluster, as long as they leave the tunnel's identifier and token alone (\<open>others\<close>).
\<close>

section \<open>What the cluster stores about a tunnel\<close>

record 's cluster_view =
  stored_tunnel :: "'s \<Rightarrow> NamespacedName \<Rightarrow> CloudflareTunnel option"
  stored_secret :: "'s \<Rightarrow> NamespacedName \<Rightarrow> Secret option"

abbreviation deleted_cf :: "CloudflareTunnel \<Rightarrow> bool" where
  "deleted_cf cf \<equiv> om_DeletionTimestamp (cft_Meta cf) \<noteq> None"

text \<open>The identifier in the status of the stored resource, while it is not being deleted.\<close>

definition live_id :: "'s cluster_view \<Rightarrow> NamespacedName \<Rightarrow> 's \<Rightarrow> string option" where
  "live_id v key s = (case stored_tunnel v s key of
      None \<Rightarrow> None | Some cf \<Rightarrow> if deleted_cf cf then None else Some (cft_TunnelID cf))"

definition secret_token :: "'s cluster_view \<Rightarrow> NamespacedName \<Rightarrow> 's \<Rightarrow> string" where
  "secret_token v key s = (case stored_secret v s key of
      None \<Rightarrow> '''' | Some secret \<Rightarrow> map_index (secret_Data secret) tunnelTokenKey)"

text \<open>
  What other parties may do: delete the resource, lose the secret, and anything that leaves the
  identifier and the token as they are.
\<close>

definition others :: "'s cluster_view \<Rightarrow> NamespacedName \<Rightarrow> 's \<Rightarrow> 's \<Rightarrow> bool" where
  "others v key s s' \<longleftrightarrow> (live_id v key s' = None \<or> live_id v key s' = live_id v key s) \<and>
     (secret_token v key s' = '''' \<or> secret_token v key s' = secret_token v key s)"

lemma others_refl [simp]: "others v key s s"
  by (simp add: others_def)

lemma others_trans: "others v key s s' \<Longrightarrow> others v key s' s'' \<Longrightarrow> others v key s s''"
  by (auto simp: others_def)

section \<open>A server that stores objects\<close>

text \<open>\<open>effect v key m Q\<close>: the call takes place at one moment of its duration, between steps of others.\<close>

definition effect :: "'s cluster_view \<Rightarrow> NamespacedName \<Rightarrow> ('s, 'a) io \<Rightarrow> ('a outcome \<Rightarrow> 's \<Rightarrow> 's \<Rightarrow> bool) \<Rightarrow> bool" where
  "effect v key m Q \<longleftrightarrow> (\<forall>s. \<exists>a b. others v key s a \<and> Q (fst (m s)) a b \<and> others v key b (snd (m s)))"

text \<open>
  Reads return the stored object, or not found when there is none. \<^verbatim>\<open>Update\<close> goes to the main
  resource, which leaves the status alone (the resource has the status subresource); unless the
  object was being deleted, it returns what it stored. \<^verbatim>\<open>Status().Update\<close> stores the status of
  a resource that exists. A forced server-side apply stores the data of the secret. A failed
  write may have taken place.
\<close>

definition reads_cluster :: "'s cluster_view \<Rightarrow> NamespacedName \<Rightarrow> 's k8s_client \<Rightarrow> bool" where
  "reads_cluster v key client \<longleftrightarrow>
     effect v key (k_Get_CloudflareTunnel client key) (\<lambda>reply a b. b = a \<and>
       (\<forall>cf. reply = Ok cf \<longrightarrow> stored_tunnel v a key = Some cf \<and> cft_Key cf = key) \<and>
       (\<forall>e. reply = Err e \<and> IsNotFound e \<longrightarrow> stored_tunnel v a key = None)) \<and>
     effect v key (k_Get_Secret client key) (\<lambda>reply a b. b = a \<and>
       (\<forall>secret. reply = Ok secret \<longrightarrow> stored_secret v a key = Some secret)) \<and>
     effect v key (k_Get_Service client key) (\<lambda>_ a b. b = a) \<and>
     effect v key (k_Get_Deployment client key) (\<lambda>_ a b. b = a)"

definition writes_tunnel :: "'s cluster_view \<Rightarrow> NamespacedName \<Rightarrow> 's k8s_client \<Rightarrow> bool" where
  "writes_tunnel v key client \<longleftrightarrow> (\<forall>obj. cft_Key obj = key \<longrightarrow>
     effect v key (k_Update_CloudflareTunnel client obj) (\<lambda>reply a b. others v key a b \<and>
       (\<forall>cf. reply = Ok cf \<and> \<not> deleted_cf obj \<longrightarrow>
          stored_tunnel v b key = Some cf \<and> cft_Key cf = key \<and> \<not> deleted_cf cf)) \<and>
     effect v key (k_StatusUpdate_CloudflareTunnel client obj) (\<lambda>reply a b.
       secret_token v key b = secret_token v key a \<and>
       (live_id v key b = live_id v key a \<or> live_id v key a \<noteq> None \<and> live_id v key b = Some (cft_TunnelID obj)) \<and>
       (\<forall>cf. reply = Ok cf \<longrightarrow> cft_Key cf = key \<and> cft_TunnelID cf = cft_TunnelID obj \<and>
          (live_id v key b = None \<or> live_id v key b = Some (cft_TunnelID obj)))))"

definition applies_objects :: "'s cluster_view \<Rightarrow> NamespacedName \<Rightarrow> k8s_lib \<Rightarrow> 's k8s_client \<Rightarrow> bool" where
  "applies_objects v key lib client \<longleftrightarrow>
     (\<forall>sa tree. ToUnstructured lib (AC_Secret sa) = Ok tree \<and> sa_Namespace sa = nn_Namespace key \<and> sa_Name sa = nn_Name key \<longrightarrow>
       effect v key (k_Patch_Apply client tree apply_options) (\<lambda>reply a b. live_id v key b = live_id v key a \<and>
         (secret_token v key b = map_index (Some (sa_Data sa)) tunnelTokenKey \<or>
          secret_token v key b = secret_token v key a \<and> reply \<noteq> Ok ()))) \<and>
     (\<forall>x tree. ToUnstructured lib x = Ok tree \<and> (\<forall>sa. x \<noteq> AC_Secret sa) \<longrightarrow>
       effect v key (k_Patch_Apply client tree apply_options) (\<lambda>_. others v key)) \<and>
     (\<forall>sm f. effect v key (k_CreateOrUpdate_ServiceMonitor client sm f) (\<lambda>_. others v key)) \<and>
     (\<forall>pdb f. effect v key (k_CreateOrUpdate_PDB client pdb f) (\<lambda>_. others v key))"

definition storing_server :: "'s cluster_view \<Rightarrow> NamespacedName \<Rightarrow> k8s_lib \<Rightarrow> 's k8s_client \<Rightarrow> bool" where
  "storing_server v key lib client \<longleftrightarrow>
     reads_cluster v key client \<and> writes_tunnel v key client \<and> applies_objects v key lib client"

text \<open>What \<^verbatim>\<open>controllerutil\<close> documents: a finalizer helper changes the list of finalizers only.\<close>

definition finalizer_frame :: "k8s_lib \<Rightarrow> bool" where
  "finalizer_frame lib \<longleftrightarrow>
     (\<forall>m f. \<exists>fs. AddFinalizer lib m f = m\<lparr>om_Finalizers := fs\<rparr>) \<and>
     (\<forall>m f. \<exists>fs. RemoveFinalizer lib m f = m\<lparr>om_Finalizers := fs\<rparr>)"

section \<open>Assertions that others cannot break\<close>

definition stable :: "'s cluster_view \<Rightarrow> NamespacedName \<Rightarrow> ('s \<Rightarrow> bool) \<Rightarrow> bool" where
  "stable v key P \<longleftrightarrow> (\<forall>a b. P a \<and> others v key a b \<longrightarrow> P b)"

text \<open>\<open>at_id\<close>: the resource, if it lives, has this identifier. \<open>coherent\<close>: a token in the secret was issued for the tunnel in the status.\<close>

definition at_id :: "'s cluster_view \<Rightarrow> NamespacedName \<Rightarrow> string \<Rightarrow> 's \<Rightarrow> bool" where
  "at_id v key i s \<longleftrightarrow> live_id v key s = None \<or> live_id v key s = Some i"

definition coherent :: "'s cluster_view \<Rightarrow> NamespacedName \<Rightarrow> (string \<Rightarrow> CloudflareTunnelToken \<Rightarrow> bool) \<Rightarrow> 's \<Rightarrow> bool" where
  "coherent v key issued s \<longleftrightarrow> (\<forall>i. live_id v key s = Some i \<longrightarrow> i = '''' \<or>
     secret_token v key s = '''' \<or> issued i (secret_token v key s))"

definition recorded :: "'s cluster_view \<Rightarrow> NamespacedName \<Rightarrow> 's \<Rightarrow> bool" where
  "recorded v key s \<longleftrightarrow> live_id v key s \<noteq> Some ''''"

definition token_for :: "'s cluster_view \<Rightarrow> NamespacedName \<Rightarrow> (string \<Rightarrow> CloudflareTunnelToken \<Rightarrow> bool) \<Rightarrow>
    string \<Rightarrow> CloudflareTunnelToken \<Rightarrow> 's \<Rightarrow> bool" where
  "token_for v key issued i token s \<longleftrightarrow> live_id v key s = None \<or> issued i token"

definition secret_holds :: "'s cluster_view \<Rightarrow> NamespacedName \<Rightarrow> CloudflareTunnelToken \<Rightarrow> 's \<Rightarrow> bool" where
  "secret_holds v key token s \<longleftrightarrow> secret_token v key s = '''' \<or> secret_token v key s = token"

lemmas view_defs = at_id_def coherent_def recorded_def token_for_def secret_holds_def

named_theorems stable_intros \<open>assertions that others cannot break\<close>

lemma stable_views [stable_intros]:
  "stable v key (at_id v key i)" "stable v key (coherent v key issued)" "stable v key (recorded v key)"
  "stable v key (token_for v key issued i token)" "stable v key (secret_holds v key token)"
  by (auto simp: stable_def others_def view_defs)

lemma stable_gone [stable_intros]: "stable v key (\<lambda>s. live_id v key s = None)"
  by (auto simp: stable_def others_def)

lemma stable_conj [stable_intros]: "stable v key P \<Longrightarrow> stable v key Q \<Longrightarrow> stable v key (\<lambda>s. P s \<and> Q s)"
  by (auto simp: stable_def)

lemma stable_const [stable_intros]: "stable v key (\<lambda>s. c)"
  by (simp add: stable_def)

lemma stable_imp [stable_intros]: "(c \<Longrightarrow> stable v key P) \<Longrightarrow> stable v key (\<lambda>s. c \<longrightarrow> P s)"
  by (auto simp: stable_def)

lemma stable_all [stable_intros]: "(\<And>x. stable v key (P x)) \<Longrightarrow> stable v key (\<lambda>s. \<forall>x. P x s)"
  by (auto simp: stable_def)

lemma stableD: "stable v key P \<Longrightarrow> others v key a b \<Longrightarrow> P a \<Longrightarrow> P b"
  by (auto simp: stable_def)

section \<open>Calls as triples\<close>

text \<open>A logged call with an effect: the precondition holds when it takes place, the postcondition afterwards.\<close>

lemma effect_triple:
  assumes "effect v key m Q" and "stable v key P" and "\<And>r. stable v key (R r)"
    and "\<And>r a b. P a \<Longrightarrow> Q r a b \<Longrightarrow> R r b"
  shows "triple P (logged ev m) R"
proof (rule triple_logged)
  fix s assume "P s"
  from assms(1) obtain a b where "others v key s a" "Q (fst (m s)) a b" "others v key b (snd (m s))"
    unfolding effect_def by blast
  from stableD [OF assms(2) this(1) \<open>P s\<close>] this(2) have "R (fst (m s)) b" by (rule assms(4))
  from stableD [OF assms(3) \<open>others v key b (snd (m s))\<close> this] show "R (fst (m s)) (snd (m s))" .
qed

lemma effect_keeps:
  "effect v key m Q \<Longrightarrow> (\<And>r a b. Q r a b \<Longrightarrow> others v key a b) \<Longrightarrow> stable v key P \<Longrightarrow> keeps P (logged ev m)"
proof -
  assume m: "effect v key m Q" and Q: "\<And>r a b. Q r a b \<Longrightarrow> others v key a b" and P: "stable v key P"
  have "P b" if "P a" "Q r a b" for r a b by (rule stableD [OF P Q [OF that(2)] that(1)])
  with effect_triple [OF m P P] show ?thesis unfolding keeps_def by blast
qed

lemma others_keeps: "(\<And>w. others v key w (snd (m w))) \<Longrightarrow> stable v key P \<Longrightarrow> keeps P (logged ev m)"
proof -
  assume m: "\<And>w. others v key w (snd (m w))" and P: "stable v key P"
  show ?thesis by (rule keeps_logged) (rule stableD [OF P m])
qed

text \<open>The laws of the server, one by one.\<close>

lemma server_laws:
  assumes "storing_server v key lib client"
  shows get_tunnel_law: "effect v key (k_Get_CloudflareTunnel client key) (\<lambda>reply a b. b = a \<and>
       (\<forall>cf. reply = Ok cf \<longrightarrow> stored_tunnel v a key = Some cf \<and> cft_Key cf = key) \<and>
       (\<forall>e. reply = Err e \<and> IsNotFound e \<longrightarrow> stored_tunnel v a key = None))"
    and get_secret_law: "effect v key (k_Get_Secret client key) (\<lambda>reply a b. b = a \<and>
       (\<forall>secret. reply = Ok secret \<longrightarrow> stored_secret v a key = Some secret))"
    and get_service_law: "effect v key (k_Get_Service client key) (\<lambda>_ a b. b = a)"
    and get_deployment_law: "effect v key (k_Get_Deployment client key) (\<lambda>_ a b. b = a)"
    and monitor_law: "effect v key (k_CreateOrUpdate_ServiceMonitor client sm f) (\<lambda>_. others v key)"
    and pdb_law: "effect v key (k_CreateOrUpdate_PDB client pdb g) (\<lambda>_. others v key)"
  using assms unfolding storing_server_def reads_cluster_def applies_objects_def by blast+

lemma update_law:
  assumes "storing_server v key lib client" and "cft_Key obj = key"
  shows "effect v key (k_Update_CloudflareTunnel client obj) (\<lambda>reply a b. others v key a b \<and>
       (\<forall>cf. reply = Ok cf \<and> \<not> deleted_cf obj \<longrightarrow>
          stored_tunnel v b key = Some cf \<and> cft_Key cf = key \<and> \<not> deleted_cf cf))"
  using assms unfolding storing_server_def writes_tunnel_def by blast

lemma status_law:
  assumes "storing_server v key lib client" and "cft_Key obj = key"
  shows "effect v key (k_StatusUpdate_CloudflareTunnel client obj) (\<lambda>reply a b.
       secret_token v key b = secret_token v key a \<and>
       (live_id v key b = live_id v key a \<or> live_id v key a \<noteq> None \<and> live_id v key b = Some (cft_TunnelID obj)) \<and>
       (\<forall>cf. reply = Ok cf \<longrightarrow> cft_Key cf = key \<and> cft_TunnelID cf = cft_TunnelID obj \<and>
          (live_id v key b = None \<or> live_id v key b = Some (cft_TunnelID obj))))"
  using assms unfolding storing_server_def writes_tunnel_def by blast

lemma apply_secret_law:
  assumes "storing_server v key lib client" and "ToUnstructured lib (AC_Secret sa) = Ok tree"
    and "sa_Namespace sa = nn_Namespace key" "sa_Name sa = nn_Name key"
  shows "effect v key (k_Patch_Apply client tree apply_options) (\<lambda>reply a b. live_id v key b = live_id v key a \<and>
         (secret_token v key b = map_index (Some (sa_Data sa)) tunnelTokenKey \<or>
          secret_token v key b = secret_token v key a \<and> reply \<noteq> Ok ()))"
  using assms unfolding storing_server_def applies_objects_def by blast

lemma apply_law:
  assumes "storing_server v key lib client" and "ToUnstructured lib x = Ok tree" and "\<And>sa. x \<noteq> AC_Secret sa"
  shows "effect v key (k_Patch_Apply client tree apply_options) (\<lambda>_. others v key)"
  using assms unfolding storing_server_def applies_objects_def by blast

text \<open>The calls that keep every stable assertion.\<close>

lemma server_keeps:
  assumes "storing_server v key lib client" and "stable v key P"
  shows "keeps P (logged ev1 (k_Get_CloudflareTunnel client key))"
    and "keeps P (logged ev2 (k_Get_Secret client key))"
    and "keeps P (logged ev3 (k_Get_Service client key))"
    and "keeps P (logged ev4 (k_Get_Deployment client key))"
    and "cft_Key obj = key \<Longrightarrow> keeps P (logged ev5 (k_Update_CloudflareTunnel client obj))"
    and "ToUnstructured lib x = Ok tree \<Longrightarrow> (\<And>sa. x \<noteq> AC_Secret sa) \<Longrightarrow>
      keeps P (logged ev6 (k_Patch_Apply client tree apply_options))"
    and "keeps P (logged ev7 (k_CreateOrUpdate_ServiceMonitor client sm f))"
    and "keeps P (logged ev8 (k_CreateOrUpdate_PDB client pdb g))"
proof -
  note law = effect_keeps [OF _ _ assms(2)]
  show "keeps P (logged ev1 (k_Get_CloudflareTunnel client key))"
    by (rule law [OF get_tunnel_law [OF assms(1)]]) simp
  show "keeps P (logged ev2 (k_Get_Secret client key))"
    by (rule law [OF get_secret_law [OF assms(1)]]) simp
  show "keeps P (logged ev3 (k_Get_Service client key))"
    by (rule law [OF get_service_law [OF assms(1)]]) simp
  show "keeps P (logged ev4 (k_Get_Deployment client key))"
    by (rule law [OF get_deployment_law [OF assms(1)]]) simp
  show "keeps P (logged ev5 (k_Update_CloudflareTunnel client obj))" if "cft_Key obj = key"
    by (rule law [OF update_law [OF assms(1) that]]) simp
  show "keeps P (logged ev6 (k_Patch_Apply client tree apply_options))"
    if "ToUnstructured lib x = Ok tree" "\<And>sa. x \<noteq> AC_Secret sa"
    by (rule law [OF apply_law [OF assms(1) that]])
  show "keeps P (logged ev7 (k_CreateOrUpdate_ServiceMonitor client sm f))"
    by (rule law [OF monitor_law [OF assms(1)]])
  show "keeps P (logged ev8 (k_CreateOrUpdate_PDB client pdb g))"
    by (rule law [OF pdb_law [OF assms(1)]])
qed

section \<open>The steps of a reconciliation\<close>

text \<open>Writing the status of a resource keeps every stable assertion once the resource has the identifier written.\<close>

lemma status_keeps:
  assumes "storing_server v key lib client" and "cft_Key obj = key" and "stable v key P"
  shows "keeps (\<lambda>s. at_id v key (cft_TunnelID obj) s \<and> P s) (logged ev (k_StatusUpdate_CloudflareTunnel client obj))"
  unfolding keeps_def
proof (rule effect_triple [OF status_law [OF assms(1,2)]], goal_cases)
  case (3 reply a b)
  then have "others v key a b" by (auto simp: others_def at_id_def)
  with 3(1) show ?case
    using stableD [OF assms(3)] stableD [OF stable_views(1)] by metis
qed (intro stable_intros assms(3))+

lemma check_keeps: "keeps P m \<Longrightarrow> keeps P (check lib msg zero m cs)"
  unfolding check_def by (intro keeps_intros)

lemma updateStatus_keeps:
  assumes server: "storing_server v key (r_Lib r) (r_Client r)" and "cft_Key cf = key" and "stable v key P"
  shows "keeps (\<lambda>s. at_id v key (cft_TunnelID cf) s \<and> P s) (updateStatus r cf)"
proof -
  have stable: "stable v key (\<lambda>s. at_id v key (cft_TunnelID cf) s \<and> P s)" by (intro stable_intros assms(3))
  have status: "keeps (\<lambda>s. at_id v key (cft_TunnelID cf) s \<and> P s) (StatusUpdate r (with_conditions cf cs))" for cs
    using status_keeps [OF server _ assms(3), of "with_conditions cf cs"] assms(2)
    by (simp add: with_conditions_def cft_Key_def)
  show ?thesis
    unfolding updateStatus_def Let_def case_prod_beta assms(2)
    by (intro keeps_intros check_keeps status server_keeps [OF server stable])
qed

lemma fail_keeps:
  assumes "storing_server v key (r_Lib r) (r_Client r)" and "cft_Key cf = key" and "stable v key P"
  shows "keeps (\<lambda>s. at_id v key (cft_TunnelID cf) s \<and> P s) (fail r cf err)"
  unfolding fail_def by (intro keeps_intros updateStatus_keeps [OF assms])

lemma found_or_keeps: "keeps P m \<Longrightarrow> keeps P (found_or zero msg m)"
  unfolding found_or_def by (intro keeps_intros)

text \<open>The deployment and the service: nothing a stable assertion speaks of.\<close>

lemma keeps_lift_bind:
  "(\<And>x. r = Ok x \<Longrightarrow> keeps P (k x)) \<Longrightarrow> keeps P (bindE (wrapW msg (liftO r)) k)"
  by (cases r) (auto simp: wrapW_def bindE_def intro: keeps_intros)

lemma workload_keeps:
  assumes server: "storing_server v key (r_Lib r) (r_Client r)" and "cft_Key cf = key" and "stable v key P"
  shows "keeps P (reconcileDeployment r cf n)" and "keeps P (reconcileService r cf)"
    and "keeps P (reconcileServiceMonitor r cf)" and "keeps P (reconcilePDB r cf)"
proof -
  note calls = server_keeps [OF server assms(3)]
  show "keeps P (reconcileDeployment r cf n)"
    unfolding reconcileDeployment_def Let_def assms(2)
    by (intro keeps_lift_bind keeps_bindE keeps_wrap keeps_if keeps_pure found_or_keeps calls) (assumption, simp)
  show "keeps P (reconcileService r cf)"
    unfolding reconcileService_def Let_def assms(2)
    by (intro keeps_lift_bind keeps_bindE keeps_wrap keeps_if keeps_pure found_or_keeps calls) (assumption, simp)
  show "keeps P (reconcileServiceMonitor r cf)"
    unfolding reconcileServiceMonitor_def by (intro keeps_intros calls)
  show "keeps P (reconcilePDB r cf)"
    unfolding reconcilePDB_def
    by (cases "spec_PodDisruptionBudget (cft_Spec cf)"; simp only: option.case) (intro keeps_intros calls)+
qed

lemma workloads_keep:
  assumes "storing_server v key (r_Lib r) (r_Client r)" and "cft_Key cf = key" and "stable v key P"
  shows "keeps (\<lambda>s. at_id v key (cft_TunnelID cf) s \<and> P s) (tunnel_workloads r cf n)"
proof -
  have "stable v key (\<lambda>s. at_id v key (cft_TunnelID cf) s \<and> P s)" by (intro stable_intros assms(3))
  note steps = workload_keeps [OF assms(1,2) this]
  show ?thesis
    unfolding tunnel_workloads_def
    by (intro keeps_handle steps fail_keeps [OF assms] updateStatus_keeps [OF assms] keeps_pure)
qed

lemma get_secret_triple:
  assumes server: "storing_server v key (r_Lib r) (r_Client r)"
  shows "triple (\<lambda>s. at_id v key i s \<and> coherent v key issued s) (Get_Secret r key)
     (\<lambda>x s. at_id v key i s \<and> coherent v key issued s \<and> (\<forall>secret. x = Ok secret \<longrightarrow> i = '''' \<or>
        map_index (secret_Data secret) tunnelTokenKey = '''' \<or>
        token_for v key issued i (map_index (secret_Data secret) tunnelTokenKey) s))"
proof (rule effect_triple [OF get_secret_law [OF server]], goal_cases)
  case (3 x a b)
  then show ?case by (auto simp: view_defs secret_token_def)
next
  case (2 x)
  show ?case by (auto simp: stable_def others_def view_defs)
qed (intro stable_intros)

text \<open>
  \<^verbatim>\<open>reconcileSecret\<close> for a token of the tunnel \<open>j\<close>: whatever its outcome the state is coherent, and
  on success the secret holds that token (it is never found up to date, so it is patched).
\<close>

lemma lift_bind_triple:
  "(\<And>x. r = Ok x \<Longrightarrow> triple P (k x) Q) \<Longrightarrow> (\<And>x w. P w \<Longrightarrow> \<forall>y. x \<noteq> Ok y \<Longrightarrow> Q x w) \<Longrightarrow>
   triple P (bindE (wrapW msg (liftO r)) k) Q"
  by (cases r) (auto simp: wrapW_def bindE_def intro: triple_intros)

lemma secret_never_current:
  "typed_helpers lib \<Longrightarrow> ExtractService lib svc m = Ok current \<Longrightarrow> \<not> DeepEqual lib (AC_Secret x) current"
  unfolding typed_helpers_def by metis

lemma reconcileSecret_triple:
  fixes r :: "'s reconciler"
  assumes server: "storing_server v key (r_Lib r) (r_Client r)" and key: "cft_Key cf = key"
    and lib: "typed_helpers (r_Lib r)" and j: "i = '''' \<or> j = i"
  shows "triple (\<lambda>s. (at_id v key i s \<and> coherent v key issued s) \<and> token_for v key issued j token s)
     (reconcileSecret r cf token)
     (\<lambda>x s. (at_id v key i s \<and> coherent v key issued s) \<and> token_for v key issued j token s \<and>
        (\<forall>n. x = Ok n \<longrightarrow> secret_holds v key token s))"
    (is "triple ?P _ ?Q")
proof -
  have P: "stable v key ?P" by (intro stable_intros)
  have read: "triple ?P (found_or zero_service ''failed to get secret'' (Get_Service r key)) (\<lambda>_. ?P)"
    using found_or_keeps [OF server_keeps(3) [OF server P]] unfolding keeps_def .
  have patch: "triple ?P (wrapW ''failed to apply secret'' (Patch_Apply r tree apply_options)) (\<lambda>x s. ?P s \<and>
      (x = Ok () \<longrightarrow> secret_holds v key token s))"
    if "ToUnstructured (r_Lib r) (AC_Secret (desired_secret cf owner token)) = Ok tree" for owner tree
  proof (rule triple_wrapW, rule effect_triple [OF apply_secret_law [OF server that]], goal_cases)
    case (5 x a b)
    then show ?case
      using j by (auto simp: view_defs desired_secret_def map_index_def map_get_def)
  next
    case (4 x)
    show ?case by (intro stable_intros)
  qed (use P key in \<open>auto simp: desired_secret_def cft_Key_def\<close>)
  show ?thesis
    unfolding reconcileSecret_def Let_def key
  proof (intro lift_bind_triple; (elim conjE; simp; fail)?)
    fix owner tree
    assume tree: "ToUnstructured (r_Lib r) (AC_Secret (desired_secret cf owner token)) = Ok tree"
    show "triple ?P (bindE (found_or zero_service ''failed to get secret'' (Get_Service r key))
      (\<lambda>current. bindE (wrapW ''failed to extract apply configuration from secret''
         (liftO (ExtractService (r_Lib r) current managerName)))
       (\<lambda>currentApplyConfig. if DeepEqual (r_Lib r) (AC_Secret (desired_secret cf owner token)) currentApplyConfig
         then retE key else bindE (wrapW ''failed to apply secret'' (Patch_Apply r tree apply_options)) (\<lambda>_. retE key)))) ?Q"
    proof (rule triple_bindE [OF read], intro lift_bind_triple triple_if, goal_cases)
      case (2 current)
      show ?case by (rule triple_bindE [OF patch [OF tree]]) (auto intro: triple_intros)
    qed (auto dest: secret_never_current [OF lib])
  qed
qed

text \<open>A synchronisation leaves a coherent state; when it returns no error, the tunnel is recorded.\<close>

lemma at_id_recorded: "at_id v key i s \<Longrightarrow> i \<noteq> '''' \<Longrightarrow> recorded v key s"
  by (auto simp: view_defs)

lemma record_triple:
  fixes r :: "'s reconciler"
  assumes server: "storing_server v key (r_Lib r) (r_Client r)" and key: "cft_Key cf = key"
    and j: "i = '''' \<or> cft_tunnel_ID t = i" "cft_tunnel_ID t \<noteq> ''''"
  shows "triple (\<lambda>s. (at_id v key i s \<and> coherent v key issued s) \<and>
       token_for v key issued (cft_tunnel_ID t) token s \<and> secret_holds v key token s)
     (StatusUpdate r (with_tunnel cf t))
     (\<lambda>x s. coherent v key issued s \<and> (i \<noteq> '''' \<longrightarrow> recorded v key s) \<and>
       (\<forall>cf'. x = Ok cf' \<longrightarrow> cft_Key cf' = key \<and> cft_TunnelID cf' = cft_tunnel_ID t \<and> at_id v key (cft_tunnel_ID t) s))"
proof -
  have id: "cft_TunnelID (with_tunnel cf t) = cft_tunnel_ID t" and k: "cft_Key (with_tunnel cf t) = key"
    using key by (simp_all add: with_tunnel_def cft_Key_def)
  show ?thesis
  proof (rule effect_triple [OF status_law [OF server k, unfolded id]], goal_cases)
    case (3 x a b)
    then show ?case using j by (auto simp: view_defs)
  qed (intro stable_intros)+
qed

lemma fail_error: "fst (fail r cf e s) \<noteq> Ok (res, None)"
  by (cases "updateStatus r cf s"; cases "fst (updateStatus r cf s)") (auto simp: fail_def handle_def retE_def)

text \<open>What is known of a resource just read or written, in a state where it is recorded if \<open>R\<close>.\<close>

definition read_as :: "'x cluster_view \<Rightarrow> NamespacedName \<Rightarrow> bool \<Rightarrow> CloudflareTunnel \<Rightarrow> 'x \<Rightarrow> bool" where
  "read_as v key R cf s \<longleftrightarrow> cft_Key cf = key \<and> (deleted_cf cf \<longrightarrow> live_id v key s = None) \<and>
     (\<not> deleted_cf cf \<longrightarrow> at_id v key (cft_TunnelID cf) s \<and> (R \<longrightarrow> cft_TunnelID cf \<noteq> ''''))"

lemma stable_read_as [stable_intros]: "stable v key (read_as v key R cf)"
  unfolding read_as_def by (intro stable_intros)

lemma get_triple:
  assumes "storing_server v key (r_Lib r) (r_Client r)"
  shows "triple (\<lambda>s. coherent v key issued s \<and> (R \<longrightarrow> recorded v key s)) (Get_CloudflareTunnel r key)
     (\<lambda>x s. (coherent v key issued s \<and> (R \<longrightarrow> recorded v key s)) \<and> (\<forall>cf. x = Ok cf \<longrightarrow> read_as v key R cf s) \<and>
       (\<forall>e. x = Err e \<longrightarrow> IsNotFound e \<longrightarrow> live_id v key s = None))"
proof (rule effect_triple [OF get_tunnel_law [OF assms]], goal_cases)
  case (3 x a b)
  then show ?case by (auto simp: read_as_def live_id_def at_id_def recorded_def)
qed (intro stable_intros)+

lemma update_triple:
  assumes "storing_server v key (r_Lib r) (r_Client r)" and "cft_Key obj = key" and "\<not> deleted_cf obj"
  shows "triple (\<lambda>s. coherent v key issued s \<and> (R \<longrightarrow> recorded v key s)) (Update_CloudflareTunnel r obj)
     (\<lambda>x s. (coherent v key issued s \<and> (R \<longrightarrow> recorded v key s)) \<and>
       (\<forall>cf. x = Ok cf \<longrightarrow> read_as v key R cf s \<and> \<not> deleted_cf cf))"
proof (rule effect_triple [OF update_law [OF assms(1,2)]], goal_cases)
  case (3 x a b)
  have "stable v key (\<lambda>s. coherent v key issued s \<and> (R \<longrightarrow> recorded v key s))" by (intro stable_intros)
  from stableD [OF this _ 3(1)] 3(2) have b: "coherent v key issued b \<and> (R \<longrightarrow> recorded v key b)" by blast
  have "read_as v key R cf b \<and> \<not> deleted_cf cf" if "x = Ok cf" for cf
    using 3(2) b that assms(3) by (auto simp: read_as_def live_id_def at_id_def recorded_def)
  with b show ?case by blast
qed (intro stable_intros)+

section \<open>A reconciliation\<close>

lemma finalizer_frame_key:
  assumes "finalizer_frame lib"
  shows "cft_Key (cf\<lparr>cft_Meta := AddFinalizer lib (cft_Meta cf) f\<rparr>) = cft_Key cf"
    and "om_DeletionTimestamp (AddFinalizer lib (cft_Meta cf) f) = om_DeletionTimestamp (cft_Meta cf)"
    and "cft_Key (cf\<lparr>cft_Meta := RemoveFinalizer lib (cft_Meta cf) f\<rparr>) = cft_Key cf"
proof -
  from assms obtain fs gs where "AddFinalizer lib (cft_Meta cf) f = (cft_Meta cf)\<lparr>om_Finalizers := fs\<rparr>"
    and "RemoveFinalizer lib (cft_Meta cf) f = (cft_Meta cf)\<lparr>om_Finalizers := gs\<rparr>"
    unfolding finalizer_frame_def by metis
  then show "cft_Key (cf\<lparr>cft_Meta := AddFinalizer lib (cft_Meta cf) f\<rparr>) = cft_Key cf"
    and "om_DeletionTimestamp (AddFinalizer lib (cft_Meta cf) f) = om_DeletionTimestamp (cft_Meta cf)"
    and "cft_Key (cf\<lparr>cft_Meta := RemoveFinalizer lib (cft_Meta cf) f\<rparr>) = cft_Key cf"
    by (simp_all add: cft_Key_def)
qed

section \<open>The life of a resource\<close>

text \<open>
  The runs of one reconciler on one resource, one after the other (the work queue never runs a
  key twice at a time), with changes by others in between. The history holds the outcome and
  the calls of each run.
\<close>

type_synonym history = "(returned outcome \<times> event list) list"

inductive operated :: "'s reconciler \<Rightarrow> 's cluster_view \<Rightarrow> NamespacedName \<Rightarrow> 's state \<Rightarrow> history \<Rightarrow> 's state \<Rightarrow> bool"
  for r v key s0 where
  start: "operated r v key s0 [] s0"
| run: "operated r v key s0 (hist @ [(x, events_of (tunnel_Reconcile r key) s)]) s'"
    if "operated r v key s0 hist s" "tunnel_Reconcile r key s = (x, s')"
| meanwhile: "operated r v key s0 hist (s\<lparr>world := w\<rparr>)"
    if "operated r v key s0 hist s" "others v key (world s) w"

inductive_cases operated_nilE: "operated r v key s0 [] s"

fun succeeded :: "returned outcome \<Rightarrow> bool" where
  "succeeded (Ok (res, None)) = True"
| "succeeded _ = False"

lemma succeeded_iff: "succeeded x \<longleftrightarrow> (\<exists>res. x = Ok (res, None))"
  by (induction x rule: succeeded.induct) auto

definition creations :: "history \<Rightarrow> event list" where
  "creations hist = filter is_create (concat (map snd hist))"

definition failures :: "history \<Rightarrow> nat" where
  "failures hist = length (filter (\<lambda>run. \<not> succeeded (fst run)) hist)"

lemma history_append [simp]:
  "creations (hist @ hist') = creations hist @ creations hist'"
  "failures (hist @ hist') = failures hist + failures hist'"
  by (simp_all add: creations_def failures_def)

lemma history_nil [simp]: "creations [] = []" "failures [] = 0"
  by (simp_all add: creations_def failures_def)

lemma history_single [simp]:
  "creations [(x, es)] = filter is_create es" "failures [(x, es)] = (if succeeded x then 0 else 1)"
  by (simp_all add: creations_def failures_def)

text \<open>A history with a success splits at the first one.\<close>

fun after_success :: "history \<Rightarrow> history" where
  "after_success [] = []"
| "after_success (run # hist) = (if succeeded (fst run) then hist else after_success hist)"

lemma after_success_snoc:
  "after_success (hist @ [run]) = (if list_ex (\<lambda>run. succeeded (fst run)) hist then after_success hist @ [run] else [])"
  by (induction hist) auto

lemma after_success_split: "succeeded (fst run) \<Longrightarrow> \<exists>mid. after_success (pre @ run # post) = mid @ post"
  by (induction pre) auto

context tunnel_issuer
begin

lemma manager_triples:
  fixes r :: "'s reconciler"
  assumes mgr: "r_Manager r = mgr" and doc: documented and st: "\<forall>a b. step a b \<longrightarrow> others v key a b"
    and P: "stable v key P"
  shows create_triple: "triple P (call_CreateTunnel r n) (\<lambda>x s. P s \<and> (\<forall>t. x = Ok t \<longrightarrow> cft_tunnel_ID t \<noteq> ''''))"
    and token_triple: "triple P (call_GetTunnelToken r i) (\<lambda>x s. P s \<and> (\<forall>token. x = Ok token \<longrightarrow> issued i token) \<and>
      (\<forall>e. x = Err e \<longrightarrow> \<not> errors_Is e ErrTunnelNotFound))"
    and delete_keeps: "keeps P (call_DeleteTunnel r i)"
    and delete_dns_keeps: "keeps P (call_DeleteAllDNS r i)"
proof -
  show "triple P (call_CreateTunnel r n) (\<lambda>x s. P s \<and> (\<forall>t. x = Ok t \<longrightarrow> cft_tunnel_ID t \<noteq> ''''))"
    unfolding mgr
    by (rule triple_logged) (blast intro: stableD [OF P st [rule_format, OF create_step [OF doc]]] dest: created_id [OF doc])
  have "\<not> errors_Is e ErrTunnelNotFound" if "fst (m_GetTunnelToken mgr i w) = Err e" for w e
    using token_error_opaque [of i w e "snd (m_GetTunnelToken mgr i w)"] that by (metis prod.collapse)
  then show "triple P (call_GetTunnelToken r i) (\<lambda>x s. P s \<and> (\<forall>token. x = Ok token \<longrightarrow> issued i token) \<and>
      (\<forall>e. x = Err e \<longrightarrow> \<not> errors_Is e ErrTunnelNotFound))"
    unfolding mgr
    by (intro triple_logged) (blast intro: stableD [OF P st [rule_format, OF token_step [OF doc]]] dest: token_issued [OF doc])
  show "keeps P (call_DeleteTunnel r i)"
    unfolding mgr by (rule keeps_logged) (rule stableD [OF P st [rule_format, OF delete_step [OF doc]]])
  show "keeps P (call_DeleteAllDNS r i)"
    unfolding mgr by (rule keeps_logged) (rule stableD [OF P st [rule_format, OF delete_dns_step [OF doc]]])
qed

text \<open>
  \<^verbatim>\<open>reconcileTunnel\<close> returns a tunnel with an identifier, the recorded one if there is one, and a
  token issued for it: one it was given, or the one in a coherent secret.
\<close>

lemma createTunnel_triple:
  fixes r :: "'s reconciler"
  assumes mgr: "r_Manager r = mgr" and doc: documented and st: "\<forall>a b. step a b \<longrightarrow> others v key a b"
    and P: "stable v key P"
  shows "triple P (createTunnel r n) (\<lambda>x s. P s \<and>
     (\<forall>t token. x = Ok (t, token) \<longrightarrow> cft_tunnel_ID t \<noteq> '''' \<and> issued (cft_tunnel_ID t) token))"
proof -
  note calls = manager_triples [OF mgr doc st P]
  have token: "triple (\<lambda>s. P s \<and> (\<forall>t'. Ok t = Ok t' \<longrightarrow> cft_tunnel_ID t' \<noteq> ''''))
      (wrapW ''failed to get tunnel token'' (call_GetTunnelToken r (cft_tunnel_ID t)))
      (\<lambda>x s. P s \<and> cft_tunnel_ID t \<noteq> '''' \<and> (\<forall>token. x = Ok token \<longrightarrow> issued (cft_tunnel_ID t) token))" for t
    by (rule triple_wrapW, rule triple_pre [OF triple_assume [where c = "cft_tunnel_ID t \<noteq> ''''"]],
        rule triple_post [OF calls(2)]) auto
  have create: "triple P (wrapW ''failed to create tunnel'' (call_CreateTunnel r n))
      (\<lambda>x s. P s \<and> (\<forall>t. x = Ok t \<longrightarrow> cft_tunnel_ID t \<noteq> ''''))"
    by (rule triple_wrapW, rule triple_post [OF calls(1)]) auto
  show ?thesis
    unfolding createTunnel_def
    by (rule triple_bindE [OF create], rule triple_bindE [OF token]) (auto intro: triple_intros)
qed

lemma reconcileTunnel_triple:
  fixes r :: "'s reconciler"
  assumes mgr: "r_Manager r = mgr" and doc: documented and st: "\<forall>a b. step a b \<longrightarrow> others v key a b"
    and server: "storing_server v key (r_Lib r) (r_Client r)" and key: "cft_Key cf = key" and i: "cft_TunnelID cf = i"
  shows "triple (\<lambda>s. at_id v key i s \<and> coherent v key issued s) (reconcileTunnel r cf)
     (\<lambda>x s. (at_id v key i s \<and> coherent v key issued s) \<and> (\<forall>t token. x = Ok (t, token) \<longrightarrow>
        cft_tunnel_ID t \<noteq> '''' \<and> (i \<noteq> '''' \<longrightarrow> cft_tunnel_ID t = i) \<and> token_for v key issued (cft_tunnel_ID t) token s))"
    (is "triple ?J _ ?Q")
proof -
  have J: "stable v key ?J" by (intro stable_intros)
  have create: "triple ?J (createTunnel r n) ?Q" if "i = ''''" for n
    by (rule triple_post [OF createTunnel_triple [OF mgr doc st J]]) (auto simp: that token_for_def)
  have fetch: "triple ?J (handle (call_GetTunnelToken r i)
      (\<lambda>e. if \<not> errors_Is e ErrTunnelNotFound then throwE (Errorf_w ''failed to get tunnel'' e) else createTunnel r n)
      (\<lambda>token. retE (\<lparr>cft_tunnel_ID = i, cft_tunnel_Name = n\<rparr>, token))) ?Q" if "i \<noteq> ''''" for n
  proof (rule triple_handle [OF manager_triples(2) [OF mgr doc st J]], goal_cases)
    case (2 e)
    show ?case
      by (cases "errors_Is e ErrTunnelNotFound") (auto simp: triple_empty intro!: triple_intros)
  qed (use that in \<open>auto simp: token_for_def intro!: triple_intros\<close>)
  have read: "triple ?J (handle (Get_Secret r (cft_Key cf))
       (\<lambda>e. if \<not> IsNotFound e then throwE (Errorf_w ''failed to get secret'' e) else retE zero_secret) retE)
     (\<lambda>x s. ?J s \<and> (\<forall>secret. x = Ok secret \<longrightarrow> i = '''' \<or>
        map_index (secret_Data secret) tunnelTokenKey = '''' \<or>
        token_for v key issued i (map_index (secret_Data secret) tunnelTokenKey) s))"
    unfolding key
    by (rule triple_handle [OF get_secret_triple [OF server]])
      (auto simp: map_index_zero_secret intro!: triple_intros)
  have reuse: "triple (\<lambda>s. ?J s \<and> (\<forall>secret'. Ok secret = Ok secret' \<longrightarrow> i = '''' \<or>
        map_index (secret_Data secret') tunnelTokenKey = '''' \<or>
        token_for v key issued i (map_index (secret_Data secret') tunnelTokenKey) s))
      (retE (\<lparr>cft_tunnel_ID = i, cft_tunnel_Name = n\<rparr>, map_index (secret_Data secret) tunnelTokenKey)) ?Q"
    if "i \<noteq> ''''" "map_index (secret_Data secret) tunnelTokenKey \<noteq> ''''" for secret n
    by (rule triple_retE) (use that in auto)
  show ?thesis
    unfolding reconcileTunnel_def Let_def i
  proof (rule triple_bindE [OF read], goal_cases)
    case (1 secret)
    show ?case
      by (intro triple_if; (rule reuse triple_pre [OF fetch] triple_pre [OF create])?) simp_all
  qed simp_all
qed

lemma sync_triple:
  fixes r :: "'s reconciler"
  assumes mgr: "r_Manager r = mgr" and doc: documented and st: "\<forall>a b. step a b \<longrightarrow> others v key a b"
    and server: "storing_server v key (r_Lib r) (r_Client r)" and key: "cft_Key cf = key"
    and lib: "typed_helpers (r_Lib r)" and i: "cft_TunnelID cf = i"
  shows "triple (\<lambda>s. at_id v key i s \<and> coherent v key issued s) (tunnel_sync r cf)
     (\<lambda>x s. coherent v key issued s \<and> (i \<noteq> '''' \<longrightarrow> recorded v key s) \<and>
       (\<forall>res. x = Ok (res, None) \<longrightarrow> recorded v key s))"
    (is "triple ?J _ ?Q")
proof -
  have error: "triple ?J (fail r cf e) ?Q" for e
  proof -
    have "triple ?J (fail r cf e) (\<lambda>_. ?J)"
      using fail_keeps [OF server key stable_views(2), unfolded keeps_def i] .
    then show ?thesis
      unfolding triple_def using at_id_recorded [of v key i] fail_error [of r cf e] by simp
  qed
  have work: "triple (\<lambda>s. coherent v key issued s \<and> (i \<noteq> '''' \<longrightarrow> recorded v key s) \<and>
       (\<forall>cf''. Ok cf' = Ok cf'' \<longrightarrow> cft_Key cf'' = key \<and> cft_TunnelID cf'' = cft_tunnel_ID t \<and> at_id v key (cft_tunnel_ID t) s))
      (tunnel_workloads r cf' n) ?Q" if "cft_tunnel_ID t \<noteq> ''''" for t cf' n
  proof (cases "cft_Key cf' = key \<and> cft_TunnelID cf' = cft_tunnel_ID t")
    case True
    then have "keeps (\<lambda>s. at_id v key (cft_tunnel_ID t) s \<and> coherent v key issued s) (tunnel_workloads r cf' n)"
      using workloads_keep [OF server _ stable_views(2), of cf' issued n] by simp
    then show ?thesis by (rule triple_keeps) (simp_all add: at_id_recorded [OF _ that])
  next
    case False
    show ?thesis by (rule triple_pre [OF triple_empty]) (use False in blast)
  qed
  have rest: "triple (\<lambda>s. ?J s \<and> token_for v key issued (cft_tunnel_ID t) token s)
      (handle (reconcileSecret r cf token) (fail r cf) (\<lambda>n. handle (StatusUpdate r (with_tunnel cf t))
       (\<lambda>e. retE (zero_Result, Some (Errorf_w ''failed to update CloudflareTunnel status'' e)))
       (\<lambda>cf'. tunnel_workloads r cf' n))) ?Q"
    if j: "i = '''' \<or> cft_tunnel_ID t = i" "cft_tunnel_ID t \<noteq> ''''" for t token
  proof (rule triple_handle [OF reconcileSecret_triple [OF server key lib j(1)]], goal_cases)
    case (1 n)
    show ?case
      by (rule triple_pre [OF triple_handle [OF record_triple [OF server key j] work [OF j(2)]]])
        (auto intro!: triple_intros)
  next
    case (2 e)
    show ?case by (rule triple_pre [OF error]) simp
  qed (auto intro: at_id_recorded)
  show ?thesis
    unfolding tunnel_sync_def
  proof (rule triple_handle [OF reconcileTunnel_triple [OF mgr doc st server key i]], goal_cases)
    case (1 v)
    obtain t token where v: "v = (t, token)" by (cases v)
    show ?case
    proof (cases "cft_tunnel_ID t \<noteq> '''' \<and> (i = '''' \<or> cft_tunnel_ID t = i)")
      case True
      then show ?thesis
        unfolding v prod.case by (intro triple_pre [OF rest [of t token]]) simp_all
    next
      case False
      show ?thesis
        unfolding v by (rule triple_pre [OF triple_empty]) (use False in auto)
    qed
  next
    case (2 e)
    show ?case by (rule triple_pre [OF error]) simp
  qed (auto intro: at_id_recorded)
qed

lemma live_sync_triple:
  fixes r :: "'s reconciler"
  assumes mgr: "r_Manager r = mgr" and doc: documented and st: "\<forall>a b. step a b \<longrightarrow> others v key a b"
    and server: "storing_server v key (r_Lib r) (r_Client r)" and lib: "typed_helpers (r_Lib r)"
    and live: "\<not> deleted_cf cf"
  shows "triple (\<lambda>s. coherent v key issued s \<and> read_as v key R cf s) (tunnel_sync r cf)
     (\<lambda>x s. coherent v key issued s \<and> (R \<longrightarrow> recorded v key s) \<and> (\<forall>res. x = Ok (res, None) \<longrightarrow> recorded v key s))"
proof (cases "cft_Key cf = key \<and> (R \<longrightarrow> cft_TunnelID cf \<noteq> '''')")
  case True
  then have "triple (\<lambda>s. coherent v key issued s \<and> read_as v key R cf s) (tunnel_sync r cf)
     (\<lambda>x s. coherent v key issued s \<and> (cft_TunnelID cf \<noteq> '''' \<longrightarrow> recorded v key s) \<and>
       (\<forall>res. x = Ok (res, None) \<longrightarrow> recorded v key s))"
    by (intro triple_pre [OF sync_triple [OF mgr doc st server _ lib refl]]) (use live in \<open>auto simp: read_as_def\<close>)
  then show ?thesis by (rule triple_post) (use True in blast)
next
  case False
  show ?thesis by (rule triple_pre [OF triple_empty]) (use False live in \<open>auto simp: read_as_def\<close>)
qed

lemma Reconcile_triple:
  fixes r :: "'s reconciler"
  assumes mgr: "r_Manager r = mgr" and doc: documented and st: "\<forall>a b. step a b \<longrightarrow> others v key a b"
    and server: "storing_server v key (r_Lib r) (r_Client r)" and lib: "typed_helpers (r_Lib r)"
    and frame: "finalizer_frame (r_Lib r)"
  shows "triple (\<lambda>s. coherent v key issued s \<and> (R \<longrightarrow> recorded v key s)) (tunnel_Reconcile r key)
     (\<lambda>x s. coherent v key issued s \<and> (R \<longrightarrow> recorded v key s) \<and> (\<forall>res. x = Ok (res, None) \<longrightarrow> recorded v key s))"
    (is "triple _ _ ?Q")
proof -
  note sync = live_sync_triple [OF mgr doc st server lib]
  let ?gone = "\<lambda>s. coherent v key issued s \<and> live_id v key s = None"
  have gone: "stable v key ?gone" by (intro stable_intros)
  have gone_Q: "?Q x s" if "?gone s" for x s using that by (simp add: recorded_def)
  have release: "triple ?gone (tunnel_release r cf) ?Q" if "cft_Key cf = key" for cf
  proof -
    have "keeps ?gone (tunnel_release r cf)"
      unfolding tunnel_release_def
      by (intro keeps_handle keeps_pure manager_triples(3,4) [OF mgr doc st gone] server_keeps(5) [OF server gone])
        (simp add: finalizer_frame_key [OF frame] that)
    then show ?thesis by (rule triple_keeps) (use gone_Q in auto)
  qed
  show ?thesis
    unfolding tunnel_Reconcile_def
  proof (rule triple_handle [OF get_triple [OF server]], goal_cases)
    case (1 cf)
    consider "deleted_cf cf" "cft_Key cf = key" | "\<not> deleted_cf cf" "cft_Key cf = key" | "cft_Key cf \<noteq> key" by blast
    then show ?case
    proof cases
      case 1
      have "triple ?gone (if ContainsFinalizer (r_Lib r) (cft_Meta cf) finalizerName then tunnel_release r cf
          else retE (zero_Result, None)) ?Q"
        by (intro triple_if release [OF 1(2)] triple_retE gone_Q)
      then show ?thesis
        unfolding if_P [OF 1(1)] by (rule triple_pre) (use 1(1) in \<open>auto simp: read_as_def\<close>)
    next
      case 2
      have add: "triple (\<lambda>s. coherent v key issued s \<and> (R \<longrightarrow> recorded v key s))
          (handle (Update_CloudflareTunnel r (cf\<lparr>cft_Meta := AddFinalizer (r_Lib r) (cft_Meta cf) finalizerName\<rparr>))
            (\<lambda>e. retE (zero_Result, Some e)) (tunnel_sync r)) ?Q"
      proof (rule triple_handle [OF update_triple [OF server]], goal_cases)
        case (3 cf')
        show ?case
          by (cases "deleted_cf cf'", rule triple_pre [OF triple_empty], simp, rule triple_pre [OF sync]) simp_all
      qed (use 2 in \<open>auto simp: finalizer_frame_key [OF frame] intro!: triple_retE\<close>)
      show ?thesis
        using 2 by (intro triple_if) (simp, simp, rule triple_pre [OF add], simp, rule triple_pre [OF sync], simp_all)
    next
      case 3
      show ?thesis by (rule triple_pre [OF triple_empty]) (use 3 in \<open>auto simp: read_as_def\<close>)
    qed
  next
    case (2 e)
    show ?case by (auto intro!: triple_intros simp: recorded_def)
  qed simp
qed

text \<open>A recorded tunnel is not created again.\<close>

lemma Reconcile_no_create:
  fixes r :: "'s reconciler"
  assumes mgr: "r_Manager r = mgr" and server: "storing_server v key (r_Lib r) (r_Client r)"
    and frame: "finalizer_frame (r_Lib r)"
  shows "only (\<lambda>s. coherent v key issued s \<and> recorded v key s) (\<lambda>e. \<not> is_create e) (tunnel_Reconcile r key)"
proof -
  have sync: "only (\<lambda>s. coherent v key issued s \<and> read_as v key True cf s) (\<lambda>e. \<not> is_create e) (tunnel_sync r cf)"
    if "\<not> deleted_cf cf" for cf
  proof (cases "cft_TunnelID cf = ''''")
    case True
    show ?thesis by (rule only_pre [OF only_empty]) (use True that in \<open>auto simp: read_as_def\<close>)
  next
    case False
    show ?thesis by (rule only_traces [OF sync_no_create [OF mgr False]])
  qed
  have release: "only P (\<lambda>e. \<not> is_create e) (tunnel_release r cf)" for P cf
    by (rule only_traces) (auto simp: tunnel_release_def intro!: trace_intros)
  have pure: "only P (\<lambda>e. \<not> is_create e) (retE x)" for P and x :: returned
    by (rule only_traces) (auto intro: trace_intros)
  note get = get_triple [OF server, where R = True, simplified]
  note update = update_triple [OF server, where R = True, simplified]
  show ?thesis
    unfolding tunnel_Reconcile_def
  proof (rule only_handle [OF only_logged get], goal_cases)
    case (2 cf)
    consider "deleted_cf cf" | "\<not> deleted_cf cf" "cft_Key cf = key" | "cft_Key cf \<noteq> key" by blast
    then show ?case
    proof cases
      case 1
      then show ?thesis by (simp only: if_True if_False simp_thms) (intro only_if release pure)
    next
      case 2
      have "only (\<lambda>s. coherent v key issued s \<and> recorded v key s) (\<lambda>e. \<not> is_create e)
          (handle (Update_CloudflareTunnel r (cf\<lparr>cft_Meta := AddFinalizer (r_Lib r) (cft_Meta cf) finalizerName\<rparr>))
            (\<lambda>e. retE (zero_Result, Some e)) (tunnel_sync r))"
      proof (rule only_handle [OF only_logged update], goal_cases)
        case (4 cf')
        show ?case
          by (cases "deleted_cf cf'", rule only_pre [OF only_empty], simp, rule only_pre [OF sync]) simp_all
      qed (use 2 in \<open>auto simp: finalizer_frame_key [OF frame] intro: pure\<close>)
      with 2 sync show ?thesis
        by (intro only_if) (simp, simp, erule only_pre, simp, rule only_pre, blast, simp)
    next
      case 3
      show ?thesis by (rule only_pre [OF only_empty]) (use 3 in \<open>auto simp: read_as_def\<close>)
    qed
  qed (auto intro: only_if pure)
qed

text \<open>What a run starting in a coherent state does, in one statement.\<close>

lemma Reconcile_run:
  fixes r :: "'s reconciler"
  assumes mgr: "r_Manager r = mgr" and doc: documented and st: "\<forall>a b. step a b \<longrightarrow> others v key a b"
    and server: "storing_server v key (r_Lib r) (r_Client r)" and lib: "typed_helpers (r_Lib r)"
    and frame: "finalizer_frame (r_Lib r)"
    and run: "tunnel_Reconcile r key s = (x, s')" and coherent: "coherent v key issued (world s)"
  shows "coherent v key issued (world s')"
    and "recorded v key (world s) \<Longrightarrow> recorded v key (world s')"
    and "x = Ok (res, None) \<Longrightarrow> recorded v key (world s')"
    and "recorded v key (world s) \<Longrightarrow> filter is_create (events_of (tunnel_Reconcile r key) s) = []"
proof -
  note triple = Reconcile_triple [OF mgr doc st server lib frame]
  from tripleD [OF triple [where R = False] _ run] coherent
  show "coherent v key issued (world s')" and "x = Ok (res, None) \<Longrightarrow> recorded v key (world s')" by auto
  assume "recorded v key (world s)"
  with tripleD [OF triple [where R = True] _ run] coherent show "recorded v key (world s')" by auto
  from \<open>recorded v key (world s)\<close> coherent
  have "list_all (\<lambda>e. \<not> is_create e) (events_of (tunnel_Reconcile r key) s)"
    by (intro onlyD [OF Reconcile_no_create [OF mgr server frame]]) simp
  then show "filter is_create (events_of (tunnel_Reconcile r key) s) = []"
    by (simp add: filter_empty_conv list_all_iff)
qed

lemma operated_invariant:
  fixes r :: "'s reconciler"
  assumes mgr: "r_Manager r = mgr" and doc: documented and st: "\<forall>a b. step a b \<longrightarrow> others v key a b"
    and server: "storing_server v key (r_Lib r) (r_Client r)" and lib: "typed_helpers (r_Lib r)"
    and frame: "finalizer_frame (r_Lib r)"
    and "operated r v key s0 hist s" and "coherent v key issued (world s0)"
  shows "coherent v key issued (world s)"
    and "list_ex (\<lambda>run. succeeded (fst run)) hist \<Longrightarrow> recorded v key (world s)"
    and "creations (after_success hist) = []"
    and "length (creations hist) \<le> failures hist + (if list_ex (\<lambda>run. succeeded (fst run)) hist then 1 else 0)"
  using assms(7,8)
proof (induction rule: operated.induct)
  case start
  {
    case 1
    then show ?case .
  next
    case 2
    then show ?case by simp
  next
    case 3
    show ?case by simp
  next
    case 4
    show ?case by simp
  }
next
  case (run hist s x s')
  note step = Reconcile_run [OF mgr doc st server lib frame run.hyps(2) run.IH(1)]
  have one: "length (filter is_create (events_of (tunnel_Reconcile r key) s)) \<le> 1"
    using tracesD [OF traces_tunnel_one_create] .
  {
    case 1
    then show ?case by (rule step(1))
  next
    case 2
    from 2(1) show ?case
      using step(2) [OF 2(2) run.IH(2) [OF _ 2(2)]] step(3) [OF 2(2)] by (auto simp: succeeded_iff)
  next
    case 3
    then show ?case
      using run.IH(3) step(4) [OF 3 run.IH(2) [OF _ 3]] by (simp add: after_success_snoc)
  next
    case 4
    then show ?case
      using run.IH(4) step(4) [OF 4 run.IH(2) [OF _ 4]] one by (auto split: if_splits)
  }
next
  case (meanwhile hist s w)
  note keep = stableD [OF stable_views(2) meanwhile.hyps(2)] stableD [OF stable_views(3) meanwhile.hyps(2)]
  {
    case 1
    then show ?case using keep(1) meanwhile.IH(1) by simp
  next
    case 2
    then show ?case using keep(2) meanwhile.IH(2) by simp
  next
    case 3
    then show ?case by (rule meanwhile.IH(3))
  next
    case 4
    then show ?case by (rule meanwhile.IH(4))
  }
qed

end

section \<open>The operator's client\<close>

text \<open>The cluster as the client's state shows it: a view of the world it acts on.\<close>

definition client_cluster :: "'w cluster_view \<Rightarrow> 'w client_state cluster_view" where
  "client_cluster v = \<lparr>stored_tunnel = \<lambda>s. stored_tunnel v (world s), stored_secret = \<lambda>s. stored_secret v (world s)\<rparr>"

lemma client_cluster_views [simp]:
  "live_id (client_cluster v) key s = live_id v key (world s)"
  "secret_token (client_cluster v) key s = secret_token v key (world s)"
  "others (client_cluster v) key s s' = others v key (world s) (world s')"
  by (simp_all add: live_id_def secret_token_def others_def client_cluster_def)

text \<open>The hypotheses on the operator's environment, together.\<close>

definition faithful_environment :: "'w client_state reconciler \<Rightarrow> 'w CloudflareTunnelClient \<Rightarrow> 'w cluster_view \<Rightarrow>
    NamespacedName \<Rightarrow> (string \<Rightarrow> CloudflareTunnelToken \<Rightarrow> bool) \<Rightarrow> bool" where
  "faithful_environment r c v key issued \<longleftrightarrow> r_Manager r = client_manager c \<and>
     issuing_service c issued (others v key) \<and> storing_server (client_cluster v) key (r_Lib r) (r_Client r) \<and>
     typed_helpers (r_Lib r) \<and> finalizer_frame (r_Lib r)"

lemma client_operated:
  assumes "faithful_environment r c v key issued" and "operated r (client_cluster v) key s0 hist s"
    and "coherent (client_cluster v) key issued (world s0)"
  shows "coherent (client_cluster v) key issued (world s)"
    and "creations (after_success hist) = []"
    and "length (creations hist) \<le> Suc (failures hist)"
proof -
  note env = assms(1) [unfolded faithful_environment_def]
  have "\<forall>a b. others v key (world a) (world b) \<longrightarrow> others (client_cluster v) key a b" by simp
  note inv = client_tokens.operated_invariant [OF conjunct1 [OF env] _ this _ _ _ assms(2,3)]
  show "coherent (client_cluster v) key issued (world s)" "creations (after_success hist) = []"
    using env by (auto intro: inv)
  show "length (creations hist) \<le> Suc (failures hist)"
    using inv(4) env by (cases "list_ex (\<lambda>run. succeeded (fst run)) hist") auto
qed

end
