(* ===== verification/StoredExample.thy ===== *)
theory StoredExample
  imports Convergence Example
begin

text \<open>
  An in-memory API server that stores tunnels and secrets, and a Cloudflare account that issues
  tokens: the environment in which the examples of the life of a resource run.
\<close>

record cluster =
  cs_tunnels :: "NamespacedName \<rightharpoonup> CloudflareTunnel"
  cs_secrets :: "NamespacedName \<rightharpoonup> Secret"

text \<open>An object is stored under its key and carries it when it is read.\<close>

definition cluster_tunnel :: "cluster \<Rightarrow> NamespacedName \<Rightarrow> CloudflareTunnel option" where
  "cluster_tunnel w key = map_option (\<lambda>cf. cf\<lparr>cft_Meta := (cft_Meta cf)\<lparr>om_Name := nn_Name key,
     om_Namespace := nn_Namespace key\<rparr>\<rparr>) (cs_tunnels w key)"

definition stored_view :: "cluster cluster_view" where
  "stored_view = \<lparr>stored_tunnel = cluster_tunnel, stored_secret = cs_secrets\<rparr>"

definition token_of :: "string \<Rightarrow> CloudflareTunnelToken" where
  "token_of i = ''token-'' @ i"

definition issues :: "string \<Rightarrow> CloudflareTunnelToken \<Rightarrow> bool" where
  "issues i token \<longleftrightarrow> token = token_of i"

definition cluster_api :: "cluster cf_api" where
  "cluster_api = \<lparr>
     api_CreateTunnel = (\<lambda>rc p w. (Ok \<lparr>cft_tunnel_ID = ''id-'' @ tcp_Name p, cft_tunnel_Name = tcp_Name p\<rparr>, w)),
     api_DeleteTunnel = (\<lambda>rc i w. (Ok (), w)),
     api_GetTunnelToken = (\<lambda>rc i w. (Ok (token_of i), w)),
     api_GetTunnel = (\<lambda>rc i w. (Ok \<lparr>cft_tunnel_ID = i, cft_tunnel_Name = i\<rparr>, w)),
     api_GetTunnelConfiguration = (\<lambda>rc i w. (Ok empty_config, w)),
     api_UpdateTunnelConfiguration = (\<lambda>rc i c w. (Ok (), w)),
     api_CreateDNSRecord = (\<lambda>rc p w. (Ok (), w)),
     api_ListDNSRecords = (\<lambda>rc p w. (Ok [], w)),
     api_UpdateDNSRecord = (\<lambda>rc p w. (Ok (), w)),
     api_DeleteDNSRecord = (\<lambda>rc i w. (Ok (), w))\<rparr>"

definition cluster_client :: "cluster CloudflareTunnelClient" where
  "cluster_client = \<lparr>c_client = cluster_api, c_accountId = ''account'', c_zoneID = ''zone'',
     c_random = dummy_SecureString\<rparr>"

text \<open>\<open>on_world f\<close>: a call of the API server acts on the world the client acts on.\<close>

definition on_world :: "(cluster \<Rightarrow> 'a outcome \<times> cluster) \<Rightarrow> (cluster client_state, 'a) io" where
  "on_world f = (\<lambda>s. (fst (f (world s)), s\<lparr>world := snd (f (world s))\<rparr>))"

definition update_tunnel :: "CloudflareTunnel \<Rightarrow> cluster \<Rightarrow> CloudflareTunnel outcome \<times> cluster" where
  "update_tunnel obj w = (case cluster_tunnel w (cft_Key obj) of
      None \<Rightarrow> (Err (StatusError ''NotFound''), w)
    | Some old \<Rightarrow>
        if om_DeletionTimestamp (cft_Meta obj) \<noteq> om_DeletionTimestamp (cft_Meta old) then (Err (StatusError ''Conflict''), w)
        else if deleted_cf obj \<and> om_Finalizers (cft_Meta obj) = [] then
          (Ok obj, w\<lparr>cs_tunnels := (cs_tunnels w)(cft_Key obj := None)\<rparr>)
        else (Ok (obj\<lparr>cft_Status := cft_Status old\<rparr>),
          w\<lparr>cs_tunnels := (cs_tunnels w)(cft_Key obj \<mapsto> obj\<lparr>cft_Status := cft_Status old\<rparr>)\<rparr>))"

definition update_status :: "CloudflareTunnel \<Rightarrow> cluster \<Rightarrow> CloudflareTunnel outcome \<times> cluster" where
  "update_status obj w = (case cluster_tunnel w (cft_Key obj) of
      None \<Rightarrow> (Err (StatusError ''NotFound''), w)
    | Some old \<Rightarrow> (Ok (old\<lparr>cft_Status := cft_Status obj\<rparr>),
        w\<lparr>cs_tunnels := (cs_tunnels w)(cft_Key obj \<mapsto> old\<lparr>cft_Status := cft_Status obj\<rparr>)\<rparr>))"

definition secret_tree :: "SecretApply \<Rightarrow> json" where
  "secret_tree sa = JList [JString (sa_Namespace sa), JString (sa_Name sa),
     JString (map_index (Some (sa_Data sa)) tunnelTokenKey)]"

fun apply_tree :: "json \<Rightarrow> cluster \<Rightarrow> cluster" where
  "apply_tree (JList [JString ns, JString n, JString token]) w =
     w\<lparr>cs_secrets := (cs_secrets w)(\<lparr>nn_Namespace = ns, nn_Name = n\<rparr> \<mapsto>
       \<lparr>secret_Meta = zero_meta, secret_Data = Some [tunnelTokenKey \<mapsto> token]\<rparr>)\<rparr>"
| "apply_tree _ w = w"

definition not_found :: "'a option \<Rightarrow> 'a outcome" where
  "not_found x = (case x of None \<Rightarrow> Err (StatusError ''NotFound'') | Some v \<Rightarrow> Ok v)"

definition cluster_k8s :: "cluster client_state k8s_client" where
  "cluster_k8s = (mem_k8s (sample_tunnel '''') (sample_ingress None) no_secret)\<lparr>
     k_Get_CloudflareTunnel := (\<lambda>key. on_world (\<lambda>w. (not_found (cluster_tunnel w key), w))),
     k_Get_Secret := (\<lambda>key. on_world (\<lambda>w. (not_found (cs_secrets w key), w))),
     k_Update_CloudflareTunnel := (\<lambda>obj. on_world (update_tunnel obj)),
     k_StatusUpdate_CloudflareTunnel := (\<lambda>obj. on_world (update_status obj)),
     k_Patch_Apply := (\<lambda>tree opts. on_world (\<lambda>w. (Ok (), apply_tree tree w)))\<rparr>"

definition cluster_lib :: k8s_lib where
  "cluster_lib = mem_lib\<lparr>ToUnstructured := (\<lambda>x. case x of AC_Secret sa \<Rightarrow> Ok (secret_tree sa) | _ \<Rightarrow> Ok JNull)\<rparr>"

definition cluster_reconciler :: "cluster client_state reconciler" where
  "cluster_reconciler = \<lparr>r_Client = cluster_k8s, r_Manager = client_manager cluster_client,
     r_Lib = cluster_lib, r_MapValues = (\<lambda>rs. rs)\<rparr>"

section \<open>It fulfils the hypotheses\<close>

lemma cluster_issuing: "issuing_service cluster_client issues (others stored_view key)"
proof -
  have "reflp (others stored_view key)" "transp (others stored_view key)"
    by (auto intro: reflpI transpI others_trans)
  then show ?thesis
    by (simp add: issuing_service_def cluster_client_def cluster_api_def dummy_SecureString_def issues_def retE_def
        split: prod.split)
qed

lemma effect_on_world:
  "(\<And>s. Q (fst (f (world s))) s (s\<lparr>world := snd (f (world s))\<rparr>)) \<Longrightarrow> effect v key (on_world f) Q"
  unfolding effect_def on_world_def by (metis fst_conv snd_conv others_refl)

lemma effect_pure: "(\<And>s. Q x s s) \<Longrightarrow> effect v key (\<lambda>w. (x, w)) Q"
  unfolding effect_def by (metis fst_conv snd_conv others_refl)

lemma cluster_tunnel_key: "cluster_tunnel w key = Some cf \<Longrightarrow> cft_Key cf = key"
  by (auto simp: cluster_tunnel_def cft_Key_def)

lemma cluster_tunnel_update: "cluster_tunnel (w\<lparr>cs_tunnels := (cs_tunnels w)(cft_Key obj \<mapsto> obj)\<rparr>) (cft_Key obj) = Some obj"
  by (simp add: cluster_tunnel_def cft_Key_def)

lemma live_id_at: "live_id (client_cluster stored_view) key s = (case cluster_tunnel (world s) key of
    None \<Rightarrow> None | Some cf \<Rightarrow> if deleted_cf cf then None else Some (cft_TunnelID cf))"
  by (simp add: live_id_def stored_view_def client_cluster_def)

lemma secret_token_at: "secret_token (client_cluster stored_view) key s = (case cs_secrets (world s) key of
    None \<Rightarrow> '''' | Some secret \<Rightarrow> map_index (secret_Data secret) tunnelTokenKey)"
  by (simp add: secret_token_def stored_view_def client_cluster_def)

lemma cluster_reads: "reads_cluster (client_cluster stored_view) key cluster_k8s"
  unfolding reads_cluster_def
  by (simp add: cluster_k8s_def mem_k8s_def, intro conjI effect_on_world effect_pure)
    (auto simp: client_cluster_def stored_view_def not_found_def cluster_tunnel_key split: option.splits)

lemma cluster_writes: "writes_tunnel (client_cluster stored_view) key cluster_k8s"
  unfolding writes_tunnel_def
proof (intro allI impI conjI)
  fix obj assume key: "cft_Key obj = key"
  have stored: "cluster_tunnel (w\<lparr>cs_tunnels := (cs_tunnels w)(key \<mapsto> obj\<lparr>cft_Status := st\<rparr>)\<rparr>) key = Some (obj\<lparr>cft_Status := st\<rparr>)" for w st
    using cluster_tunnel_update [of w "obj\<lparr>cft_Status := st\<rparr>"] key by (simp add: cft_Key_def)
  have removed: "cluster_tunnel (w\<lparr>cs_tunnels := (cs_tunnels w)(key := None)\<rparr>) key = None" for w
    by (simp add: cluster_tunnel_def)
  show "effect (client_cluster stored_view) key (k_Update_CloudflareTunnel cluster_k8s obj)
      (\<lambda>reply a b. others (client_cluster stored_view) key a b \<and>
       (\<forall>cf. reply = Ok cf \<and> \<not> deleted_cf obj \<longrightarrow>
          stored_tunnel (client_cluster stored_view) b key = Some cf \<and> cft_Key cf = key \<and> \<not> deleted_cf cf))"
    unfolding others_def live_id_at secret_token_at
  proof (simp add: cluster_k8s_def, rule effect_on_world, goal_cases)
    case (1 s)
    show ?case
    proof (cases "cluster_tunnel (world s) key")
      case (Some old)
      have "cft_Key (obj\<lparr>cft_Status := cft_Status old\<rparr>) = key" using key by (simp add: cft_Key_def)
      with stored [of "world s" "cft_Status old"] removed [of "world s"] Some show ?thesis
        by (auto simp: update_tunnel_def key client_cluster_def stored_view_def)
    qed (simp add: update_tunnel_def key)
  qed
  show "effect (client_cluster stored_view) key (k_StatusUpdate_CloudflareTunnel cluster_k8s obj) (\<lambda>reply a b.
       secret_token (client_cluster stored_view) key b = secret_token (client_cluster stored_view) key a \<and>
       (live_id (client_cluster stored_view) key b = live_id (client_cluster stored_view) key a \<or>
        live_id (client_cluster stored_view) key a \<noteq> None \<and> live_id (client_cluster stored_view) key b = Some (cft_TunnelID obj)) \<and>
       (\<forall>cf. reply = Ok cf \<longrightarrow> cft_Key cf = key \<and> cft_TunnelID cf = cft_TunnelID obj \<and>
          (live_id (client_cluster stored_view) key b = None \<or> live_id (client_cluster stored_view) key b = Some (cft_TunnelID obj))))"
    unfolding live_id_at secret_token_at
  proof (simp add: cluster_k8s_def, rule effect_on_world, goal_cases)
    case (1 s)
    show ?case
    proof (cases "cluster_tunnel (world s) key")
      case (Some old)
      then have "cft_Key (old\<lparr>cft_Status := cft_Status obj\<rparr>) = key"
        using cluster_tunnel_key [OF Some] by (simp add: cft_Key_def)
      with cluster_tunnel_update [of "world s" "old\<lparr>cft_Status := cft_Status obj\<rparr>"] Some show ?thesis
        by (auto simp: update_status_def key)
    qed (simp add: update_status_def key)
  qed
qed

lemma cluster_applies: "applies_objects (client_cluster stored_view) key cluster_lib cluster_k8s"
proof -
  have same: "others (client_cluster stored_view) key s (s\<lparr>world := apply_tree JNull (world s)\<rparr>)" for s
    by simp
  show ?thesis
    unfolding applies_objects_def
  proof (intro conjI allI impI, goal_cases)
    case (1 sa tree)
    then have "tree = secret_tree sa" by (simp add: cluster_lib_def)
    with 1 show ?case
      unfolding live_id_at secret_token_at
      by (simp add: cluster_k8s_def, intro effect_on_world)
        (auto simp: secret_tree_def cluster_tunnel_def map_index_def map_get_def)
  next
    case (2 x tree)
    then have "tree = JNull" by (auto simp: cluster_lib_def split: ApplyConfig.splits)
    then show ?case by (simp add: cluster_k8s_def, intro effect_on_world) simp
  qed (simp_all add: cluster_k8s_def mem_k8s_def effect_pure)
qed

lemma cluster_server: "storing_server (client_cluster stored_view) key cluster_lib cluster_k8s"
  by (simp add: storing_server_def cluster_reads cluster_writes cluster_applies)

lemma cluster_environment: "faithful_environment cluster_reconciler cluster_client stored_view key issues"
proof -
  have "typed_helpers cluster_lib"
    using mem_lib_typed by (simp add: typed_helpers_def cluster_lib_def)
  moreover have "finalizer_frame cluster_lib"
    by (auto simp: finalizer_frame_def cluster_lib_def mem_lib_def)
  ultimately show ?thesis
    by (simp add: faithful_environment_def cluster_reconciler_def cluster_issuing cluster_server)
qed


section \<open>Runs in the cluster\<close>

definition cluster_start :: "cluster client_state state" where
  "cluster_start = \<lparr>world = \<lparr>world = \<lparr>cs_tunnels = [sample_key \<mapsto> sample_tunnel ''''], cs_secrets = Map.empty\<rparr>,
     trace = []\<rparr>, trace = []\<rparr>"

lemmas cluster_defs = cluster_reconciler_def cluster_k8s_def mem_k8s_def cluster_client_def cluster_api_def
  client_manager_def on_world_def

lemma sample_meta_keyed: "(sample_meta fs d)\<lparr>om_Name := ''sample'', om_Namespace := ''default''\<rparr> = sample_meta fs d"
  by (simp add: sample_meta_def zero_meta_def)

lemma sample_tunnel_key: "cft_Key (sample_tunnel i) = sample_key"
  by (simp add: sample_tunnel_def cft_Key_def sample_meta_def sample_key_def zero_meta_def)

lemma sample_stored: "cluster_tunnel \<lparr>cs_tunnels = [sample_key \<mapsto> sample_tunnel i], cs_secrets = m\<rparr> sample_key = Some (sample_tunnel i)"
  by (simp add: cluster_tunnel_def sample_tunnel_def sample_meta_keyed sample_key_def)

text \<open>In this cluster every call succeeds while the resource is stored.\<close>

definition is_sample :: "CloudflareTunnel \<Rightarrow> bool" where
  "is_sample cf \<longleftrightarrow> cft_Key cf = sample_key \<and> cft_Spec cf = sample_spec"

definition has_sample :: "cluster client_state \<Rightarrow> bool" where
  "has_sample s \<longleftrightarrow> (\<exists>cf. cluster_tunnel (world s) sample_key = Some cf \<and> is_sample cf)"

abbreviation fine :: "(cluster client_state state, 'a) io \<Rightarrow> ('a \<Rightarrow> bool) \<Rightarrow> bool" where
  "fine m Q \<equiv> triple has_sample m (\<lambda>x s. (\<exists>v. x = Ok v \<and> Q v) \<and> has_sample s)"

lemma fine_handle: "fine m Q \<Longrightarrow> (\<And>x. Q x \<Longrightarrow> fine (k x) R) \<Longrightarrow> fine (handle m h k) R"
  unfolding triple_def handle_def by (fastforce split: prod.splits)

lemma fine_retE: "Q x \<Longrightarrow> fine (retE x) Q"
  by (auto intro: triple_intros)

lemma fine_logged: "(\<And>w. has_sample w \<Longrightarrow> (\<exists>v. fst (m w) = Ok v \<and> Q v) \<and> has_sample (snd (m w))) \<Longrightarrow> fine (logged ev m) Q"
  by (rule triple_logged)

lemma fine_found_or: "fine (found_or z msg m) (\<lambda>_. True)"
  if "\<And>w. has_sample (world w) \<Longrightarrow> ((\<exists>v. fst (m w) = Ok v) \<or> fst (m w) = Err (StatusError ''NotFound'')) \<and> has_sample (world (snd (m w)))"
  using that unfolding triple_def found_or_def handle_def retE_def
  by (fastforce split: prod.split outcome.split)

lemma fine_status: "is_sample cf \<Longrightarrow> fine (StatusUpdate cluster_reconciler cf) is_sample"
proof (rule fine_logged)
  fix w assume cf: "is_sample cf" and "has_sample w"
  then obtain old where old: "cluster_tunnel (world w) sample_key = Some old" "is_sample old"
    unfolding has_sample_def by blast
  let ?new = "old\<lparr>cft_Status := cft_Status cf\<rparr>"
  have new: "is_sample ?new" "cft_Key ?new = sample_key" using old(2) by (simp_all add: is_sample_def cft_Key_def)
  with cluster_tunnel_update [of "world w" ?new] cf old
  show "(\<exists>v. fst (k_StatusUpdate_CloudflareTunnel (r_Client cluster_reconciler) cf w) = Ok v \<and> is_sample v) \<and>
     has_sample (snd (k_StatusUpdate_CloudflareTunnel (r_Client cluster_reconciler) cf w))"
    by (auto simp: cluster_reconciler_def cluster_k8s_def on_world_def update_status_def has_sample_def is_sample_def)
qed

lemma has_sample_tree: "has_sample w \<Longrightarrow> has_sample (w\<lparr>world := apply_tree tree (world w)\<rparr>)"
  by (induction tree "world w" rule: apply_tree.induct) (simp_all add: has_sample_def cluster_tunnel_def)

lemma fine_calls:
  "fine (Patch_Apply cluster_reconciler tree opts) (\<lambda>_. True)"
  "fine (Get_Deployment cluster_reconciler key) (\<lambda>d. dep_AvailableReplicas d = 1)"
  "fine (call_CreateTunnel cluster_reconciler n) (\<lambda>_. True)"
  "fine (call_GetTunnelToken cluster_reconciler n) (\<lambda>_. True)"
  by (rule fine_logged;
      simp add: cluster_defs has_sample_tree; simp add: has_sample_def zero_deployment_def
        client_CreateTunnel_def client_GetTunnelToken_def dummy_SecureString_def run_defs)+
lemma fine_bindE: "fine m Q \<Longrightarrow> (\<And>x. Q x \<Longrightarrow> fine (k x) R) \<Longrightarrow> fine (bindE m k) R"
  unfolding bindE_def by (rule fine_handle)

lemma fine_wrapW: "fine m Q \<Longrightarrow> fine (wrapW msg m) Q"
  unfolding wrapW_def by (erule fine_handle) (rule fine_retE)

lemma fine_liftO: "x = Ok v \<Longrightarrow> Q v \<Longrightarrow> fine (liftO x) Q"
  by (auto intro: triple_intros)

lemma cluster_pure:
  "ToUnstructured cluster_lib (AC_Secret sa) = Ok (secret_tree sa)" "ToUnstructured cluster_lib (AC_Service svc) = Ok JNull"
  "ToUnstructured cluster_lib (AC_Deployment dep) = Ok JNull" "r_Lib cluster_reconciler = cluster_lib"
  "ExtractService cluster_lib s m = Ok (AC_Service empty_service_apply)"
  "ExtractDeployment cluster_lib d m = Ok (AC_Service empty_service_apply)"
  by (simp_all add: cluster_lib_def mem_lib_def cluster_reconciler_def)

lemma cluster_owner: "\<exists>owner. controllerReference cluster_lib cf = Ok owner"
  by (simp add: controllerReference_def cluster_lib_def mem_lib_def)

lemma world_of_traced [simp]: "world (s\<lparr>trace := es\<rparr>) = world s"
  by (cases s) simp

lemma fine_reads:
  "fine (found_or z msg (Get_Service cluster_reconciler key)) (\<lambda>_. True)"
  "fine (found_or z' msg (Get_Deployment cluster_reconciler key)) (\<lambda>_. True)"
  by (rule fine_found_or; simp add: cluster_defs logged_def has_sample_def)+

lemma fine_checks:
  "fine (check lib msg z (Get_Secret cluster_reconciler key) cs) (\<lambda>_. True)"
  "fine (check lib msg z1 (Get_Service cluster_reconciler key) cs) (\<lambda>_. True)"
  "fine (check lib msg z2 (Get_Deployment cluster_reconciler key) cs) (\<lambda>x. dep_AvailableReplicas (fst x) = 1)"
  by (auto simp: check_def triple_def handle_def logged_def retE_def cluster_defs has_sample_def not_found_def
      zero_deployment_def split: option.split)

lemma fine_updateStatus: "is_sample cf \<Longrightarrow> fine (updateStatus cluster_reconciler cf) (\<lambda>res. res = zero_Result)"
proof -
  assume cf: "is_sample cf"
  then have "is_sample (with_conditions cf cs)" for cs
    by (simp add: is_sample_def with_conditions_def cft_Key_def)
  then show ?thesis
    unfolding updateStatus_def Let_def case_prod_beta
    by (intro triple_if fine_retE fine_bindE [OF fine_checks(1)] fine_bindE [OF fine_checks(2)]
        fine_bindE [OF fine_checks(3)] fine_bindE [OF fine_status]) simp_all
qed

lemma fine_workloads: "is_sample cf \<Longrightarrow> fine (tunnel_workloads cluster_reconciler cf n) (\<lambda>res. res = (zero_Result, None))"
proof -
  assume cf: "is_sample cf"
  obtain owner where owner: "controllerReference cluster_lib cf = Ok owner" using cluster_owner by blast
  have "fine (reconcileDeployment cluster_reconciler cf n) (\<lambda>_. True)" "fine (reconcileService cluster_reconciler cf) (\<lambda>_. True)"
    unfolding reconcileDeployment_def reconcileService_def Let_def cluster_pure owner
    by (intro triple_if fine_retE fine_bindE [OF fine_wrapW [OF fine_liftO [OF refl, where Q = "\<lambda>_. True"]]]
        fine_bindE [OF fine_reads(1)] fine_bindE [OF fine_reads(2)] fine_wrapW fine_calls TrueI)+
  moreover have "fine (reconcileServiceMonitor cluster_reconciler cf) (\<lambda>_. True)" "fine (reconcilePDB cluster_reconciler cf) (\<lambda>_. True)"
    using cf by (simp_all add: reconcileServiceMonitor_def reconcilePDB_def is_sample_def sample_spec_def triple_def retE_def)
  ultimately show ?thesis
    unfolding tunnel_workloads_def
    by (elim fine_handle) (intro fine_handle [OF fine_updateStatus [OF cf]] fine_retE, simp)
qed
lemma fine_reconcileTunnel: "fine (reconcileTunnel cluster_reconciler cf) (\<lambda>_. True)"
proof -
  have create: "fine (createTunnel cluster_reconciler n) (\<lambda>_. True)" for n
    unfolding createTunnel_def
    by (intro fine_bindE [OF fine_wrapW [OF fine_calls(3)]] fine_bindE [OF fine_wrapW [OF fine_calls(4)]] fine_retE TrueI)
  have secret: "fine (handle (Get_Secret cluster_reconciler key)
       (\<lambda>e. if \<not> IsNotFound e then throwE (Errorf_w ''failed to get secret'' e) else retE zero_secret) retE) (\<lambda>_. True)" for key
    by (auto simp: triple_def handle_def logged_def retE_def cluster_defs has_sample_def not_found_def split: option.split)
  show ?thesis
    unfolding reconcileTunnel_def Let_def
    by (intro fine_bindE [OF secret] triple_if create fine_handle [OF fine_calls(4)] fine_retE TrueI)
qed

lemma fine_reconcileSecret: "fine (reconcileSecret cluster_reconciler cf token) (\<lambda>_. True)"
proof -
  obtain owner where owner: "controllerReference cluster_lib cf = Ok owner" using cluster_owner by blast
  show ?thesis
    unfolding reconcileSecret_def Let_def cluster_pure owner
    by (intro triple_if fine_retE fine_bindE [OF fine_wrapW [OF fine_liftO [OF refl, where Q = "\<lambda>_. True"]]]
        fine_bindE [OF fine_reads(1)] fine_bindE [OF fine_wrapW [OF fine_calls(1)]] TrueI)+
qed

lemma fine_sync: "is_sample cf \<Longrightarrow> fine (tunnel_sync cluster_reconciler cf) (\<lambda>res. res = (zero_Result, None))"
proof -
  assume cf: "is_sample cf"
  then have "is_sample (with_tunnel cf t)" for t by (simp add: is_sample_def with_tunnel_def cft_Key_def)
  then show ?thesis
    unfolding tunnel_sync_def case_prod_beta
    by (intro fine_handle [OF fine_reconcileTunnel] fine_handle [OF fine_reconcileSecret] fine_handle [OF fine_status]
        fine_workloads)
qed

lemma cluster_helpers: "typed_helpers cluster_lib" "condition_helper cluster_lib"
  using mem_lib_typed mem_lib_conditions by (simp_all add: cluster_lib_def typed_helpers_def condition_helper_def)

text \<open>The first run, on a resource that was never reconciled but holds the finalizer, succeeds.\<close>

lemma first_run: "\<exists>s'. tunnel_Reconcile cluster_reconciler sample_key cluster_start = (Ok (zero_Result, None), s')"
proof -
  let ?s = "cluster_start\<lparr>trace := [K_GetCloudflareTunnel sample_key (Ok (sample_tunnel ''''))]\<rparr>"
  have stored: "cluster_tunnel (world (world cluster_start)) sample_key = Some (sample_tunnel '''')"
    by (simp add: cluster_start_def sample_stored)
  have sample: "is_sample (sample_tunnel '''')"
    by (simp add: is_sample_def sample_tunnel_key) (simp add: sample_tunnel_def)
  with stored have "has_sample (world ?s)" by (auto simp: has_sample_def)
  with fine_sync [OF sample] obtain s' where "tunnel_sync cluster_reconciler (sample_tunnel '''') ?s = (Ok (zero_Result, None), s')"
    unfolding triple_def by (metis prod.collapse)
  moreover have "Get_CloudflareTunnel cluster_reconciler sample_key cluster_start = (Ok (sample_tunnel ''''), ?s)"
    using stored by (simp add: cluster_defs logged_def not_found_def) (simp add: cluster_start_def)
  moreover have "om_DeletionTimestamp (cft_Meta (sample_tunnel '''')) = None"
    "ContainsFinalizer cluster_lib (cft_Meta (sample_tunnel '''')) finalizerName"
    by (simp_all add: sample_tunnel_def sample_meta_def zero_meta_def cluster_lib_def mem_lib_def)
  ultimately show ?thesis by (simp add: tunnel_Reconcile_def handle_def cluster_pure)
qed

text \<open>A life of two runs of which the first succeeds.\<close>

lemma two_runs: "\<exists>es x s. operated cluster_reconciler (client_cluster stored_view) sample_key cluster_start
    [(Ok (zero_Result, None), es), (x, events_of (tunnel_Reconcile cluster_reconciler sample_key) s)]
    (snd (tunnel_Reconcile cluster_reconciler sample_key s))"
proof -
  obtain s where s: "tunnel_Reconcile cluster_reconciler sample_key cluster_start = (Ok (zero_Result, None), s)"
    using first_run by blast
  have "operated cluster_reconciler (client_cluster stored_view) sample_key cluster_start
      [(Ok (zero_Result, None), events_of (tunnel_Reconcile cluster_reconciler sample_key) cluster_start)] s"
    using operated.run [OF operated.start s] by simp
  from operated.run [OF this surjective_pairing] show ?thesis by auto
qed

lemma start_coherent: "coherent (client_cluster stored_view) sample_key issues (world cluster_start)"
  by (simp add: coherent_def secret_token_def stored_view_def cluster_start_def client_cluster_def)

text \<open>A cluster after a success: the identifier is recorded and the secret holds its token.\<close>

definition recorded_cluster :: "cluster client_state state" where
  "recorded_cluster = \<lparr>world = \<lparr>world = \<lparr>cs_tunnels = [sample_key \<mapsto> sample_tunnel ''t''],
     cs_secrets = [sample_key \<mapsto> \<lparr>secret_Meta = zero_meta, secret_Data = Some [tunnelTokenKey \<mapsto> token_of ''t'']\<rparr>]\<rparr>,
     trace = []\<rparr>, trace = []\<rparr>"

end
