(* ===== verification/Failures.thy ===== *)
theory Failures
  imports Convergence IngressEffects
begin

text \<open>
  No failure is swallowed. The work queue retries a reconciliation exactly when it returns an
  error, so an error reply that does not surface leaves the cluster as it is until something
  else changes. Here the replies of a run are compared with the error it returns.
\<close>

section \<open>Replies\<close>

definition shape :: "'a outcome \<Rightarrow> unit outcome" where
  "shape r = (case r of Ok _ \<Rightarrow> Ok () | Err e \<Rightarrow> Err e | Panic p \<Rightarrow> Panic p)"

lemma shape_simps [simp]: "shape (Ok x) = Ok ()" "shape (Err e) = Err e" "shape (Panic p) = Panic p"
  by (simp_all add: shape_def)

fun reply_of :: "event \<Rightarrow> unit outcome" where
  "reply_of Lock = Ok ()"
| "reply_of Unlock = Ok ()"
| "reply_of (K_GetCloudflareTunnel _ r) = shape r"
| "reply_of (K_GetIngress _ r) = shape r"
| "reply_of (K_GetSecret _ r) = shape r"
| "reply_of (K_GetService _ r) = shape r"
| "reply_of (K_GetDeployment _ r) = shape r"
| "reply_of (K_ListCloudflareTunnels _ _ r) = shape r"
| "reply_of (K_UpdateCloudflareTunnel _ r) = shape r"
| "reply_of (K_UpdateIngress _ r) = shape r"
| "reply_of (K_StatusUpdate _ r) = shape r"
| "reply_of (K_Patch _ _ r) = shape r"
| "reply_of (K_CreateOrUpdateServiceMonitor _ r) = shape r"
| "reply_of (K_CreateOrUpdatePDB _ r) = shape r"
| "reply_of (M_CreateTunnel _ r) = shape r"
| "reply_of (M_DeleteTunnel _ r) = shape r"
| "reply_of (M_GetTunnelToken _ r) = shape r"
| "reply_of (M_GetTunnelConfiguration _ r) = shape r"
| "reply_of (M_UpdateTunnelConfiguration _ _ r) = shape r"
| "reply_of (M_AddDNS _ _ r) = shape r"
| "reply_of (M_GetDNS _ _ r) = shape r"
| "reply_of (M_UpdateDNS _ _ _ r) = shape r"
| "reply_of (M_DeleteDNS _ _ r) = shape r"
| "reply_of (M_DeleteAllDNS _ r) = shape r"

text \<open>
  The error replies that are part of normal operation: an object that is not found when it is
  read.
\<close>

fun expected_error :: "event \<Rightarrow> go_error \<Rightarrow> bool" where
  "expected_error (K_GetCloudflareTunnel _ _) e = IsNotFound e"
| "expected_error (K_GetSecret _ _) e = IsNotFound e"
| "expected_error (K_GetService _ _) e = IsNotFound e"
| "expected_error (K_GetDeployment _ _) e = IsNotFound e"
| "expected_error _ e = False"

definition tolerated :: "event \<Rightarrow> bool" where
  "tolerated ev \<longleftrightarrow> (case reply_of ev of Ok _ \<Rightarrow> True | Err e \<Rightarrow> expected_error ev e | Panic _ \<Rightarrow> False)"

section \<open>Runs that fail exactly when a call did\<close>

definition exact :: "('w state, 'a) io \<Rightarrow> bool" where
  "exact m \<longleftrightarrow> traces (\<lambda>es r. (\<exists>v. r = Ok v) \<longleftrightarrow> list_all tolerated es) m"

lemma exact_retE: "exact (retE x)"
  by (simp add: exact_def traces_retE)

lemma exact_logged: "(\<And>r. tolerated (ev r) \<longleftrightarrow> (\<exists>v. r = Ok v)) \<Longrightarrow> exact (logged ev m)"
  by (auto simp: exact_def intro!: traces_logged)

lemma exact_bindE:
  assumes "exact m" and "\<And>x. exact (k x)"
  shows "exact (bindE m k)"
  unfolding exact_def bindE_def
  by (rule traces_handle [OF assms(1) [unfolded exact_def]])
    (auto intro!: traces_throwE traces_mono [OF assms(2) [unfolded exact_def]])

lemma exact_wrapW: "exact m \<Longrightarrow> exact (wrapW msg m)"
  unfolding exact_def wrapW_def
  by (erule traces_handle) (auto intro!: traces_throwE traces_retE)

lemma exact_lift: "\<exists>v. r = Ok v \<Longrightarrow> exact (wrapW msg (liftO r))"
  by (rule exact_wrapW) (auto simp: exact_def intro!: traces_retE)

lemma exact_if: "exact m \<Longrightarrow> exact n \<Longrightarrow> exact (if b then m else n)"
  by simp

lemmas exact_intros = exact_retE exact_bindE exact_wrapW exact_if

lemma exact_found_or:
  assumes "\<And>r. tolerated (ev r) \<longleftrightarrow> (\<exists>v. r = Ok v) \<or> (\<exists>e. r = Err e \<and> IsNotFound e)"
  shows "exact (found_or z msg (logged ev m))" and "exact (check lib msg z (logged ev m) cs)"
  unfolding exact_def found_or_def check_def by (auto simp: assms intro!: trace_intros)

lemma tolerated_simps:
  "tolerated (K_GetSecret k r) \<longleftrightarrow> (\<exists>v. r = Ok v) \<or> (\<exists>e. r = Err e \<and> IsNotFound e)"
  "tolerated (K_GetService k r2) \<longleftrightarrow> (\<exists>v. r2 = Ok v) \<or> (\<exists>e. r2 = Err e \<and> IsNotFound e)"
  "tolerated (K_GetDeployment k r3) \<longleftrightarrow> (\<exists>v. r3 = Ok v) \<or> (\<exists>e. r3 = Err e \<and> IsNotFound e)"
  "tolerated (K_GetCloudflareTunnel k r4) \<longleftrightarrow> (\<exists>v. r4 = Ok v) \<or> (\<exists>e. r4 = Err e \<and> IsNotFound e)"
  "tolerated (M_GetTunnelToken i r5) \<longleftrightarrow> (\<exists>v. r5 = Ok v)"
  "tolerated (K_UpdateCloudflareTunnel cf r4) \<longleftrightarrow> (\<exists>v. r4 = Ok v)"
  "tolerated (K_StatusUpdate cf r4) \<longleftrightarrow> (\<exists>v. r4 = Ok v)"
  "tolerated (K_Patch tree opts r6) \<longleftrightarrow> (\<exists>v. r6 = Ok v)"
  "tolerated (K_CreateOrUpdateServiceMonitor sm r7) \<longleftrightarrow> (\<exists>v. r7 = Ok v)"
  "tolerated (K_CreateOrUpdatePDB pdb r7) \<longleftrightarrow> (\<exists>v. r7 = Ok v)"
  "tolerated (M_CreateTunnel n r8) \<longleftrightarrow> (\<exists>v. r8 = Ok v)"
  "tolerated (M_DeleteTunnel i r6) \<longleftrightarrow> (\<exists>v. r6 = Ok v)"
  "tolerated (M_DeleteAllDNS i r6) \<longleftrightarrow> (\<exists>v. r6 = Ok v)"
  by (simp_all add: tolerated_def shape_def split: outcome.splits)

section \<open>The tunnel reconciler\<close>

text \<open>The pure helpers do not fail: the type is registered and the objects can be converted.\<close>

definition total_helpers :: "k8s_lib \<Rightarrow> bool" where
  "total_helpers lib \<longleftrightarrow> (\<forall>cf. \<exists>v. GVKForObject lib cf = Ok v) \<and> (\<forall>x. \<exists>v. ToUnstructured lib x = Ok v) \<and>
     (\<forall>svc m. \<exists>v. ExtractService lib svc m = Ok v) \<and> (\<forall>dep m. \<exists>v. ExtractDeployment lib dep m = Ok v)"

lemma total_controllerReference: "total_helpers lib \<Longrightarrow> \<exists>v. controllerReference lib cf = Ok v"
  unfolding total_helpers_def controllerReference_def by (metis (no_types, lifting) outcome.simps(10) prod.case prod.collapse)

lemma exact_steps:
  assumes lib: "total_helpers (r_Lib r)"
  shows "exact (reconcileSecret r cf token)" and "exact (reconcileDeployment r cf n)"
    and "exact (reconcileService r cf)" and "exact (reconcileServiceMonitor r cf)"
    and "exact (reconcilePDB r cf)" and "exact (updateStatus r cf)"
proof -
  note total = total_controllerReference [OF lib] lib [unfolded total_helpers_def]
  note steps = exact_lift exact_found_or(1) exact_logged exact_retE exact_bindE exact_if exact_wrapW
  show "exact (reconcileSecret r cf token)" "exact (reconcileDeployment r cf n)" "exact (reconcileService r cf)"
    unfolding reconcileSecret_def reconcileDeployment_def reconcileService_def Let_def
    by (intro steps; simp add: tolerated_simps total)+
  show "exact (reconcileServiceMonitor r cf)"
    unfolding reconcileServiceMonitor_def by (intro exact_if exact_bindE exact_retE exact_logged) (simp add: tolerated_simps)
  show "exact (reconcilePDB r cf)"
    unfolding reconcilePDB_def
    by (cases "spec_PodDisruptionBudget (cft_Spec cf)"; simp only: option.case)
      (intro exact_bindE exact_wrapW exact_retE exact_logged; simp add: tolerated_simps)+
  show "exact (updateStatus r cf)"
    unfolding updateStatus_def Let_def case_prod_beta
    by (intro exact_if exact_bindE exact_retE exact_found_or(2) exact_logged; simp add: tolerated_simps)
qed

lemma exact_createTunnel: "exact (createTunnel r n)"
  unfolding createTunnel_def by (intro exact_intros exact_logged; simp add: tolerated_simps)

text \<open>\<^verbatim>\<open>Reconcile\<close> returns a result beside its error.\<close>

definition reported :: "('w state, returned) io \<Rightarrow> bool" where
  "reported m \<longleftrightarrow> traces (\<lambda>es x. (\<exists>res. x = Ok (res, None)) \<longleftrightarrow> list_all tolerated es) m"

lemma reported_handle:
  assumes m: "exact m" and k: "\<And>x. reported (k x)"
    and h: "\<And>e. traces (\<lambda>es x. \<forall>res. x \<noteq> Ok (res, None)) (h e)"
  shows "reported (handle m h k)"
  unfolding reported_def
proof (rule traces_handle [OF m [unfolded exact_def]], goal_cases)
  case (1 x es0)
  then show ?case by (auto intro!: traces_mono [OF k [unfolded reported_def]])
next
  case (2 e es0)
  then show ?case by (auto intro!: traces_mono [OF h])
qed auto

lemma reported_retE: "reported (retE (res, None))"
  by (auto simp: reported_def intro!: traces_retE)

lemma fail_reports: "traces (\<lambda>es x. \<forall>res. x \<noteq> Ok (res, None)) (fail r cf e)"
  using always_fail [OF kube_parts_True, of r cf e] fail_error [of r cf e] unfolding traces_def by metis

lemma error_reports: "traces (\<lambda>es x. \<forall>res. x \<noteq> Ok (res, None)) (retE (res', Some e))"
  by (auto intro!: traces_retE)

lemma reported_release: "reported (tunnel_release r cf)"
  unfolding tunnel_release_def
  by (intro reported_handle reported_retE error_reports exact_logged; simp add: tolerated_simps)

lemma reported_if: "reported m \<Longrightarrow> reported n \<Longrightarrow> reported (if b then m else n)"
  by simp

text \<open>
  With a manager whose token errors never are \<^verbatim>\<open>ErrTunnelNotFound\<close>, as the shipped client's are,
  the branch that would answer such an error by a new tunnel is not taken.
\<close>

context opaque_manager
begin

lemma exact_reconcileTunnel:
  fixes r :: "'s reconciler"
  assumes mgr: "r_Manager r = mgr"
  shows "exact (reconcileTunnel r cf)"
proof -
  have secret: "exact (handle (Get_Secret r (cft_Key cf))
       (\<lambda>e. if \<not> IsNotFound e then throwE (Errorf_w ''failed to get secret'' e) else retE zero_secret) retE)"
    unfolding exact_def by (auto simp: tolerated_simps intro!: trace_intros)
  have opaque: "case fst (m_GetTunnelToken (r_Manager r) i w) of Err e \<Rightarrow> \<not> errors_Is e ErrTunnelNotFound | _ \<Rightarrow> True" for i w
    using token_error_opaque [of i w] mgr
    by (cases "m_GetTunnelToken (r_Manager r) i w") (auto split: outcome.split)
  have token: "exact (handle (call_GetTunnelToken r i)
       (\<lambda>e. if \<not> errors_Is e ErrTunnelNotFound then throwE (Errorf_w ''failed to get tunnel'' e) else createTunnel r n)
       (\<lambda>token. retE (known, token)))" for i n known
    unfolding exact_def
    by (rule traces_handle_reply [where P = "\<lambda>r. case r of Err e \<Rightarrow> \<not> errors_Is e ErrTunnelNotFound | _ \<Rightarrow> True",
          OF opaque]) (auto simp: tolerated_simps intro!: traces_retE traces_throwE)
  show ?thesis
    unfolding reconcileTunnel_def Let_def
    by (intro exact_bindE secret exact_if token exact_retE exact_createTunnel)
qed

lemma reported_sync:
  fixes r :: "'s reconciler"
  assumes mgr: "r_Manager r = mgr" and lib: "total_helpers (r_Lib r)"
  shows "reported (tunnel_sync r cf)"
proof -
  have last: "reported (handle (updateStatus r cf) (\<lambda>e. retE (zero_Result, Some e)) (\<lambda>result. retE (result, None)))" for cf
    by (intro reported_handle exact_steps [OF lib] reported_retE error_reports)
  show ?thesis
    unfolding tunnel_sync_def tunnel_workloads_def case_prod_beta
    by (intro reported_handle exact_reconcileTunnel [OF mgr] exact_steps [OF lib] fail_reports error_reports last exact_logged)
      (simp add: tolerated_simps)
qed

lemma reported_Reconcile:
  fixes r :: "'s reconciler"
  assumes "r_Manager r = mgr" and "total_helpers (r_Lib r)"
  shows "reported (tunnel_Reconcile r key)"
proof -
  have update: "exact (Update_CloudflareTunnel r obj)" for obj
    by (rule exact_logged) (simp add: tolerated_simps)
  have found: "reported (if deleted_cf cf then
        if ContainsFinalizer (r_Lib r) (cft_Meta cf) finalizerName then tunnel_release r cf else retE (zero_Result, None)
      else if \<not> ContainsFinalizer (r_Lib r) (cft_Meta cf) finalizerName then
        handle (Update_CloudflareTunnel r (cf\<lparr>cft_Meta := AddFinalizer (r_Lib r) (cft_Meta cf) finalizerName\<rparr>))
          (\<lambda>e. retE (zero_Result, Some e)) (tunnel_sync r)
      else tunnel_sync r cf)" for cf
    by (intro reported_if reported_release reported_retE reported_handle update reported_sync [OF assms] error_reports)
  show ?thesis
    unfolding reported_def tunnel_Reconcile_def
  proof (rule traces_handle_logged, goal_cases)
    case (1 cf)
    show ?case by (rule traces_mono [OF found [unfolded reported_def]]) (simp add: tolerated_simps)
  qed (auto simp: tolerated_simps intro!: traces_if traces_retE)
qed

end

section \<open>The ingress reconciler\<close>

text \<open>
  An ingress run also fails for reasons of its own (no tunnel name, no address, no identifier),
  so only one direction holds. A default tunnel that does not exist ends a run without an error;
  the operator recognizes it by its own sentinel, which no API server returns.
\<close>

fun expected_ingress_error :: "event \<Rightarrow> go_error \<Rightarrow> bool" where
  "expected_ingress_error (K_GetIngress _ _) e = IsNotFound e"
| "expected_ingress_error (K_GetCloudflareTunnel _ _) e = errors_Is e ErrDefaultCloudflareTunnelNotExists"
| "expected_ingress_error (K_ListCloudflareTunnels _ _ _) e = errors_Is e ErrDefaultCloudflareTunnelNotExists"
| "expected_ingress_error _ e = False"

definition ingress_tolerated :: "event \<Rightarrow> bool" where
  "ingress_tolerated ev \<longleftrightarrow> (case reply_of ev of Ok _ \<Rightarrow> True | Err e \<Rightarrow> expected_ingress_error ev e | Panic _ \<Rightarrow> False)"

definition surfaces :: "('w state, 'a) io \<Rightarrow> bool" where
  "surfaces m \<longleftrightarrow> traces (\<lambda>es r. (\<exists>v. r = Ok v) \<longrightarrow> list_all ingress_tolerated es) m"

lemma surfaces_retE: "surfaces (retE x)"
  by (simp add: surfaces_def traces_retE)

lemma surfaces_throwE: "surfaces (throwE e)"
  by (simp add: surfaces_def traces_throwE)

lemma surfaces_logged: "(\<And>v. ingress_tolerated (ev (Ok v))) \<Longrightarrow> surfaces (logged ev m)"
  by (auto simp: surfaces_def intro!: traces_logged)

lemma surfaces_liftO: "surfaces (liftO r)"
  by (simp add: surfaces_def traces_liftO)

lemma surfaces_bindE:
  assumes "surfaces m" and "\<And>x. surfaces (k x)"
  shows "surfaces (bindE m k)"
  unfolding surfaces_def bindE_def
  by (rule traces_handle [OF assms(1) [unfolded surfaces_def]])
    (auto intro!: traces_throwE traces_mono [OF assms(2) [unfolded surfaces_def]])

lemma surfaces_wrap: "surfaces m \<Longrightarrow> surfaces (wrapW msg m)" "surfaces m \<Longrightarrow> surfaces (wrapV msg m)"
  unfolding surfaces_def wrapW_def wrapV_def
  by (erule traces_handle; auto intro!: traces_throwE traces_retE)+

lemma surfaces_if: "surfaces m \<Longrightarrow> surfaces n \<Longrightarrow> surfaces (if b then m else n)"
  by simp

lemma surfaces_forE: "(\<And>x. surfaces (body x)) \<Longrightarrow> surfaces (forE xs body)"
  by (induction xs) (auto intro!: surfaces_retE surfaces_bindE)

lemma surfaces_with_lock: "surfaces m \<Longrightarrow> surfaces (with_lock m)"
  unfolding surfaces_def by (erule traces_with_lock) (auto simp: ingress_tolerated_def)

lemmas surfaces_intros = surfaces_retE surfaces_throwE surfaces_liftO surfaces_bindE surfaces_wrap surfaces_if
  surfaces_forE surfaces_with_lock surfaces_logged

lemma surfaces_operations:
  "surfaces (appendCloudflareTunnelConfig r t hosts ip ts)" "surfaces (removeCloudflareTunnelConfig r t hosts ts)"
  "surfaces (appendDNSRecord r t h)" "surfaces (removeDNSRecord r t h)"
  unfolding appendCloudflareTunnelConfig_def removeCloudflareTunnelConfig_def appendDNSRecord_def removeDNSRecord_def
  by (intro surfaces_intros; simp add: ingress_tolerated_def)+

text \<open>A lookup that fails with the sentinel read an empty list.\<close>

lemma lookup_tolerated:
  "traces (\<lambda>es r. (\<exists>v. r = Ok v) \<or> (\<exists>e. r = Err e \<and> errors_Is e ErrDefaultCloudflareTunnelNotExists) \<longrightarrow>
     list_all ingress_tolerated es) (getCloudflareTunnel r n)"
  unfolding getCloudflareTunnel_def
  by (auto simp: go_simps bindE_def ingress_tolerated_def intro!: trace_intros split: list.split)

lemma surfaces_lookup:
  assumes "\<And>x. surfaces (k x)"
  shows "surfaces (handle (getCloudflareTunnel r n)
    (\<lambda>e. if errors_Is e ErrDefaultCloudflareTunnelNotExists then retE d else throwE (Errorf_w msg e)) k)"
  unfolding surfaces_def
proof (rule traces_handle [OF lookup_tolerated], goal_cases)
  case (1 x es0)
  then show ?case by (auto intro!: traces_mono [OF assms [unfolded surfaces_def]])
qed (auto intro!: traces_if traces_retE traces_throwE)

lemma surfaces_parts: "surfaces (finalizeIngress r ing)" "surfaces (ingress_sync r ing)"
  unfolding finalizeIngress_def ingress_sync_def Let_def
  by (intro surfaces_bindE surfaces_wrap surfaces_liftO surfaces_lookup surfaces_if surfaces_retE surfaces_throwE
      surfaces_forE surfaces_operations)+

lemma surfaces_Reconcile: "surfaces (ingress_Reconcile r key)"
proof -
  have found: "surfaces (if om_DeletionTimestamp (ing_Meta ing) \<noteq> None then
         (if ContainsFinalizer (r_Lib r) (ing_Meta ing) finalizerName then ingress_release r ing else retE zero_Result)
       else if \<not> ContainsFinalizer (r_Lib r) (ing_Meta ing) finalizerName then
         bindE (ingress_claim r ing) (ingress_sync r)
       else ingress_sync r ing)" for ing
    unfolding ingress_release_def ingress_claim_def
    by (intro surfaces_if surfaces_bindE surfaces_wrap surfaces_parts surfaces_retE surfaces_logged;
        simp add: ingress_tolerated_def)
  show ?thesis
    unfolding surfaces_def ingress_Reconcile_def
  proof (rule traces_handle_logged, goal_cases)
    case (1 ing)
    show ?case by (rule traces_mono [OF found [unfolded surfaces_def]]) (simp add: ingress_tolerated_def)
  qed (auto simp: ingress_tolerated_def intro!: traces_if traces_retE traces_throwE)
qed

end
