(* ===== verification/SyncScript.thy ===== *)
theory SyncScript
  imports Convergence
begin

text \<open>
  What a successful synchronisation of a tunnel resource has done, step by step: the abstract
  script of \<^verbatim>\<open>Reconcile\<close> that the code implements. Nothing of it may be missing when the run
  returns without an error, since then the work queue does not come back.
\<close>

section \<open>The script\<close>

text \<open>
  An object is in place when what the operator owns of the stored one, read first, equals the
  desired configuration, or else when the desired configuration was applied.
\<close>

definition in_place :: "k8s_lib \<Rightarrow> (event \<Rightarrow> ApplyConfig \<Rightarrow> bool) \<Rightarrow> ApplyConfig \<Rightarrow> event list \<Rightarrow> bool" where
  "in_place lib extracted x es \<longleftrightarrow> (\<exists>get current. extracted get current \<and>
     (if DeepEqual lib x current then es = [get]
      else \<exists>tree. ToUnstructured lib x = Ok tree \<and> es = [get, K_Patch tree apply_options (Ok ())]))"

text \<open>The secret is applied whatever is stored.\<close>

definition patched :: "k8s_lib \<Rightarrow> (event \<Rightarrow> ApplyConfig \<Rightarrow> bool) \<Rightarrow> ApplyConfig \<Rightarrow> event list \<Rightarrow> bool" where
  "patched lib extracted x es \<longleftrightarrow> (\<exists>get current tree. extracted get current \<and> ToUnstructured lib x = Ok tree \<and>
     es = [get, K_Patch tree apply_options (Ok ())])"

definition monitor_in_place :: "CloudflareTunnel \<Rightarrow> event list \<Rightarrow> bool" where
  "monitor_in_place cf es \<longleftrightarrow> (if spec_EnableServiceMonitor (cft_Spec cf)
     then \<exists>result. es = [K_CreateOrUpdateServiceMonitor (new_service_monitor cf) (Ok result)] else es = [])"

definition budget_in_place :: "CloudflareTunnel \<Rightarrow> event list \<Rightarrow> bool" where
  "budget_in_place cf es \<longleftrightarrow> (case spec_PodDisruptionBudget (cft_Spec cf) of
       None \<Rightarrow> es = []
     | Some _ \<Rightarrow> \<exists>result. es = [K_CreateOrUpdatePDB (new_pdb cf) (Ok result)])"

text \<open>
  The tunnel is known or created and its token had, the secret holds the token, the status has
  the tunnel, and from the resource as it was stored then: the deployment, the service, the
  service monitor if asked for, the disruption budget if asked for, and a report of the status, which decides
  whether the run is to be repeated.
\<close>

definition sync_script :: "k8s_lib \<Rightarrow> CloudflareTunnel \<Rightarrow> event list \<Rightarrow> Result \<Rightarrow> bool" where
  "sync_script lib cf es result \<longleftrightarrow> (\<exists>tunnel token cf' owner owner' a b c d e f g.
     es = a @ b @ [K_StatusUpdate (with_tunnel cf tunnel) (Ok cf')] @ c @ d @ e @ f @ g \<and>
     tunnel_run cf a (Ok (tunnel, token)) \<and>
     controllerReference lib cf = Ok owner \<and> patched lib (service_extracted lib cf) (AC_Secret (desired_secret cf owner token)) b \<and>
     controllerReference lib cf' = Ok owner' \<and>
     in_place lib (deployment_extracted lib cf')
       (AC_Deployment (desired_deployment cf' owner' (cft_Key cf))) c \<and>
     in_place lib (service_extracted lib cf')
       (AC_Service (desired_service cf' owner')) d \<and>
     monitor_in_place cf' e \<and> budget_in_place cf' f \<and>
     (if cft_TunnelID cf' = '''' then g = [] \<and> result = zero_Result else status_run cf' g (Ok result)))"

section \<open>Successful runs follow it\<close>

lemma traces_run: "traces A m \<Longrightarrow> m s = (x, s') \<Longrightarrow> \<exists>es. trace s' = trace s @ es \<and> A es x"
  unfolding traces_def by (metis fst_conv snd_conv)

lemma handle_success:
  assumes "handle m h k s = (Ok (res, None), s')" and "\<And>e s1. fst (h e s1) \<noteq> Ok (res, None)"
  obtains x s1 where "m s = (Ok x, s1)" "k x s1 = (Ok (res, None), s')"
  using assms by (auto simp: handle_Ok) (metis fst_conv)

lemma applies_Ok:
  assumes "applies lib extracted (map_outcome f (controllerReference lib cf)) es (Ok v)"
  shows "\<exists>owner. controllerReference lib cf = Ok owner \<and> in_place lib extracted (f owner) es"
  using assms unfolding applies_def in_place_def
  by (auto simp: map_outcome_def split: outcome.splits)

lemma traces_monitor: "traces (\<lambda>es r. \<forall>v. r = Ok v \<longrightarrow> monitor_in_place cf es) (reconcileServiceMonitor r cf)"
  unfolding reconcileServiceMonitor_def bindE_def by (auto simp: monitor_in_place_def intro!: trace_intros)

lemma traces_budget: "traces (\<lambda>es r. \<forall>v. r = Ok v \<longrightarrow> budget_in_place cf es) (reconcilePDB r cf)"
  unfolding reconcilePDB_def
  by (cases "spec_PodDisruptionBudget (cft_Spec cf)") (auto simp: budget_in_place_def go_simps bindE_def intro!: trace_intros)

lemma error_no_success: "fst (retE (res', Some e) s) \<noteq> Ok (res, None)"
  by (simp add: retE_def)

lemma workloads_script:
  assumes helpers: "condition_helper (r_Lib r)" and run: "tunnel_workloads r cf n s = (Ok (res, None), s')"
  shows "\<exists>owner c d e f g. trace s' = trace s @ c @ d @ e @ f @ g \<and> controllerReference (r_Lib r) cf = Ok owner \<and>
     in_place (r_Lib r) (deployment_extracted (r_Lib r) cf)
       (AC_Deployment (desired_deployment cf owner n)) c \<and>
     in_place (r_Lib r) (service_extracted (r_Lib r) cf)
       (AC_Service (desired_service cf owner)) d \<and>
     monitor_in_place cf e \<and> budget_in_place cf f \<and>
     (if cft_TunnelID cf = '''' then g = [] \<and> res = zero_Result else status_run cf g (Ok res))"
proof -
  note next_step = handle_success [OF _ fail_error]
  from run obtain u1 s1 where 1: "reconcileDeployment r cf n s = (Ok u1, s1)"
    and r1: "handle (reconcileService r cf) (fail r cf) (\<lambda>_. handle (reconcileServiceMonitor r cf) (fail r cf)
      (\<lambda>_. handle (reconcilePDB r cf) (fail r cf) (\<lambda>_. handle (updateStatus r cf) (\<lambda>e. retE (zero_Result, Some e))
      (\<lambda>result. retE (result, None))))) s1 = (Ok (res, None), s')"
    unfolding tunnel_workloads_def by (rule next_step)
  from r1 obtain u2 s2 where 2: "reconcileService r cf s1 = (Ok u2, s2)"
    and r2: "handle (reconcileServiceMonitor r cf) (fail r cf)
      (\<lambda>_. handle (reconcilePDB r cf) (fail r cf) (\<lambda>_. handle (updateStatus r cf) (\<lambda>e. retE (zero_Result, Some e))
      (\<lambda>result. retE (result, None)))) s2 = (Ok (res, None), s')"
    by (rule next_step)
  from r2 obtain u3 s3 where 3: "reconcileServiceMonitor r cf s2 = (Ok u3, s3)"
    and r3: "handle (reconcilePDB r cf) (fail r cf) (\<lambda>_. handle (updateStatus r cf) (\<lambda>e. retE (zero_Result, Some e))
      (\<lambda>result. retE (result, None))) s3 = (Ok (res, None), s')"
    by (rule next_step)
  from r3 obtain u4 s4 where 4: "reconcilePDB r cf s3 = (Ok u4, s4)"
    and r4: "handle (updateStatus r cf) (\<lambda>e. retE (zero_Result, Some e)) (\<lambda>result. retE (result, None)) s4 = (Ok (res, None), s')"
    by (rule next_step)
  from r4 have 5: "updateStatus r cf s4 = (Ok res, s')"
    by (rule handle_success [OF _ error_no_success]) (auto simp: retE_def)
  from traces_run [OF deployment.run_applies 1] obtain c owner where
    c: "trace s1 = trace s @ c" "controllerReference (r_Lib r) cf = Ok owner"
    "in_place (r_Lib r) (deployment_extracted (r_Lib r) cf)
       (AC_Deployment (desired_deployment cf owner n)) c"
    by (auto dest!: applies_Ok)
  from traces_run [OF service.run_applies 2] obtain d owner' where
    d: "trace s2 = trace s1 @ d" "controllerReference (r_Lib r) cf = Ok owner'"
    "in_place (r_Lib r) (service_extracted (r_Lib r) cf)
       (AC_Service (desired_service cf owner')) d"
    by (auto dest!: applies_Ok)
  from c(2) d(2) have owner: "owner' = owner" by simp
  from traces_run [OF traces_monitor 3] obtain e where e: "trace s3 = trace s2 @ e" "monitor_in_place cf e" by auto
  from traces_run [OF traces_budget 4] obtain f where f: "trace s4 = trace s3 @ f" "budget_in_place cf f" by auto
  have "\<exists>g. trace s' = trace s4 @ g \<and> (if cft_TunnelID cf = '''' then g = [] \<and> res = zero_Result else status_run cf g (Ok res))"
  proof (cases "cft_TunnelID cf = ''''")
    case True
    with 5 show ?thesis by (simp add: updateStatus_no_id retE_def)
  next
    case False
    with traces_run [OF traces_updateStatus [OF helpers False] 5] show ?thesis by simp
  qed
  then obtain g where g: "trace s' = trace s4 @ g" "if cft_TunnelID cf = '''' then g = [] \<and> res = zero_Result else status_run cf g (Ok res)"
    by blast
  have "trace s' = trace s @ c @ d @ e @ f @ g" using c(1) d(1) e(1) f(1) g(1) by simp
  with c(2,3) d(3) [unfolded owner] e(2) f(2) g(2) show ?thesis by blast
qed


text \<open>The secret is never found up to date, so it is always patched.\<close>

lemma secret_patched:
  assumes "typed_helpers (r_Lib r)" and "reconcileSecret r cf token s = (Ok n, s')"
  obtains owner es where "trace s' = trace s @ es" "controllerReference (r_Lib r) cf = Ok owner"
    "patched (r_Lib r) (service_extracted (r_Lib r) cf) (AC_Secret (desired_secret cf owner token)) es" "n = cft_Key cf"
  using traces_run [OF traces_reconcileSecret_patches [OF assms(1)] assms(2)] traces_run [OF reconcileSecret_name assms(2)]
  unfolding patched_def by auto

lemma run_logged: "logged ev m s = (x, s') \<Longrightarrow> trace s' = trace s @ [ev x]"
  by (auto simp: logged_eq)

lemma follows_sync:
  assumes lib: "typed_helpers (r_Lib r)" "condition_helper (r_Lib r)"
    and run: "tunnel_sync r cf s = (Ok (res, None), s')"
  shows "\<exists>es. trace s' = trace s @ es \<and> sync_script (r_Lib r) cf es res"
proof -
  note next_step = handle_success [OF _ fail_error]
  from run obtain p s1 where 1: "reconcileTunnel r cf s = (Ok p, s1)"
    and r1: "(case p of (tunnel, token) \<Rightarrow> handle (reconcileSecret r cf token) (fail r cf)
     (\<lambda>secretName. handle (StatusUpdate r (with_tunnel cf tunnel))
       (\<lambda>e. retE (zero_Result, Some (Errorf_w ''failed to update CloudflareTunnel status'' e)))
     (\<lambda>cf'. tunnel_workloads r cf' secretName))) s1 = (Ok (res, None), s')"
    unfolding tunnel_sync_def by (rule next_step)
  obtain tunnel token where p: "p = (tunnel, token)" by (cases p)
  from r1 obtain n s2 where 2: "reconcileSecret r cf token s1 = (Ok n, s2)"
    and r2: "handle (StatusUpdate r (with_tunnel cf tunnel))
       (\<lambda>e. retE (zero_Result, Some (Errorf_w ''failed to update CloudflareTunnel status'' e)))
     (\<lambda>cf'. tunnel_workloads r cf' n) s2 = (Ok (res, None), s')"
    unfolding p prod.case by (rule next_step)
  from r2 obtain cf' s3 where 3: "StatusUpdate r (with_tunnel cf tunnel) s2 = (Ok cf', s3)"
    and r3: "tunnel_workloads r cf' n s3 = (Ok (res, None), s')"
    by (rule handle_success [OF _ error_no_success])
  from traces_run [OF traces_reconcileTunnel 1] obtain a where
    a: "trace s1 = trace s @ a" "tunnel_run cf a (Ok (tunnel, token))" unfolding p by blast
  from lib(1) 2 obtain owner b where
    b: "trace s2 = trace s1 @ b" "controllerReference (r_Lib r) cf = Ok owner"
      "patched (r_Lib r) (service_extracted (r_Lib r) cf) (AC_Secret (desired_secret cf owner token)) b" "n = cft_Key cf"
    by (rule secret_patched)
  from workloads_script [OF lib(2) r3] obtain owner' c d e f g where
    w: "trace s' = trace s3 @ c @ d @ e @ f @ g" and rest: "controllerReference (r_Lib r) cf' = Ok owner'"
     "in_place (r_Lib r) (deployment_extracted (r_Lib r) cf')
       (AC_Deployment (desired_deployment cf' owner' n)) c"
     "in_place (r_Lib r) (service_extracted (r_Lib r) cf')
       (AC_Service (desired_service cf' owner')) d"
     "monitor_in_place cf' e" "budget_in_place cf' f"
     "if cft_TunnelID cf' = '''' then g = [] \<and> res = zero_Result else status_run cf' g (Ok res)"
    by blast
  have "trace s' = trace s @ a @ b @ [K_StatusUpdate (with_tunnel cf tunnel) (Ok cf')] @ c @ d @ e @ f @ g"
    using a(1) b(1) run_logged [OF 3] w by simp
  with a(2) b(2,3) rest [unfolded b(4)] show ?thesis unfolding sync_script_def by blast
qed

section \<open>The whole reconciliation\<close>

text \<open>The five ways in which a reconciliation succeeds.\<close>

inductive reconcile_script :: "k8s_lib \<Rightarrow> NamespacedName \<Rightarrow> event list \<Rightarrow> Result \<Rightarrow> bool" for lib key where
  gone: "reconcile_script lib key [K_GetCloudflareTunnel key (Err e)] zero_Result" if "IsNotFound e"
| left: "reconcile_script lib key [K_GetCloudflareTunnel key (Ok cf)] zero_Result"
    if "om_DeletionTimestamp (cft_Meta cf) \<noteq> None" "\<not> ContainsFinalizer lib (cft_Meta cf) finalizerName"
| released: "reconcile_script lib key [K_GetCloudflareTunnel key (Ok cf), M_DeleteAllDNS (cft_TunnelID cf) (Ok ()),
      M_DeleteTunnel (cft_TunnelID cf) (Ok ()),
      K_UpdateCloudflareTunnel (cf\<lparr>cft_Meta := RemoveFinalizer lib (cft_Meta cf) finalizerName\<rparr>) (Ok cf')] zero_Result"
    if "om_DeletionTimestamp (cft_Meta cf) \<noteq> None" "ContainsFinalizer lib (cft_Meta cf) finalizerName"
| synced: "reconcile_script lib key (K_GetCloudflareTunnel key (Ok cf) # es) result"
    if "om_DeletionTimestamp (cft_Meta cf) = None" "ContainsFinalizer lib (cft_Meta cf) finalizerName"
      "sync_script lib cf es result"
| adopted: "reconcile_script lib key (K_GetCloudflareTunnel key (Ok cf) #
      K_UpdateCloudflareTunnel (cf\<lparr>cft_Meta := AddFinalizer lib (cft_Meta cf) finalizerName\<rparr>) (Ok cf') # es) result"
    if "om_DeletionTimestamp (cft_Meta cf) = None" "\<not> ContainsFinalizer lib (cft_Meta cf) finalizerName"
      "sync_script lib cf' es result"

lemma follows_release:
  assumes "tunnel_release r cf s = (Ok (res, None), s')"
  shows "\<exists>cf'. res = zero_Result \<and> trace s' = trace s @ [M_DeleteAllDNS (cft_TunnelID cf) (Ok ()), M_DeleteTunnel (cft_TunnelID cf) (Ok ()),
      K_UpdateCloudflareTunnel (cf\<lparr>cft_Meta := RemoveFinalizer (r_Lib r) (cft_Meta cf) finalizerName\<rparr>) (Ok cf')]"
  using assms by (auto simp: tunnel_release_def handle_Ok retE_def dest!: run_logged)

lemma follows_script:
  assumes lib: "typed_helpers (r_Lib r)" "condition_helper (r_Lib r)"
    and run: "tunnel_Reconcile r key s = (Ok (res, None), s')"
  shows "\<exists>es. trace s' = trace s @ es \<and> reconcile_script (r_Lib r) key es res"
proof (cases "fst (Get_CloudflareTunnel r key s)")
  case (Err e)
  then obtain s1 where get: "Get_CloudflareTunnel r key s = (Err e, s1)" by (metis prod.collapse)
  with run have "s' = s1" "IsNotFound e" "res = zero_Result" by (auto simp: tunnel_Reconcile_def handle_def retE_def split: if_splits)
  with run_logged [OF get] show ?thesis by (auto intro: reconcile_script.gone)
next
  case (Panic p)
  then obtain s1 where "Get_CloudflareTunnel r key s = (Panic p, s1)" by (metis prod.collapse)
  with run show ?thesis by (simp add: tunnel_Reconcile_def handle_def)
next
  case (Ok cf)
  then obtain s1 where get: "Get_CloudflareTunnel r key s = (Ok cf, s1)" by (metis prod.collapse)
  note known = run_logged [OF get]
  show ?thesis
  proof (cases "om_DeletionTimestamp (cft_Meta cf) = None")
    case False
    show ?thesis
    proof (cases "ContainsFinalizer (r_Lib r) (cft_Meta cf) finalizerName")
      case True
      with run get False have "tunnel_release r cf s1 = (Ok (res, None), s')" by (simp add: tunnel_Reconcile_def handle_def)
      from follows_release [OF this] known reconcile_script.released [OF False True] show ?thesis by auto
    next
      case no_finalizer: False
      with run get False have "s' = s1" "res = zero_Result" by (auto simp: tunnel_Reconcile_def handle_def retE_def)
      with known show ?thesis by (auto intro: reconcile_script.left [OF False no_finalizer])
    qed
  next
    case live: True
    show ?thesis
    proof (cases "ContainsFinalizer (r_Lib r) (cft_Meta cf) finalizerName")
      case True
      with run get live have "tunnel_sync r cf s1 = (Ok (res, None), s')" by (simp add: tunnel_Reconcile_def handle_def)
      from follows_sync [OF lib this] known show ?thesis by (auto intro: reconcile_script.synced [OF live True])
    next
      case False
      let ?obj = "cf\<lparr>cft_Meta := AddFinalizer (r_Lib r) (cft_Meta cf) finalizerName\<rparr>"
      from run get live False obtain cf' s2 where 2: "Update_CloudflareTunnel r ?obj s1 = (Ok cf', s2)"
        and "tunnel_sync r cf' s2 = (Ok (res, None), s')"
        by (auto simp: tunnel_Reconcile_def handle_def [of "Get_CloudflareTunnel r key"] handle_Ok retE_def)
      from follows_sync [OF lib this(2)] known run_logged [OF 2] show ?thesis
        by (auto intro: reconcile_script.adopted [OF live False])
    qed
  qed
qed

end
