(* ===== verification/Matcher.thy ===== *)
theory Matcher
  imports Prelude
begin

text \<open>
  \<^verbatim>\<open>pkg/gomega/have_fields.go\<close>: the matcher \<^verbatim>\<open>HaveFields\<close>, which compares an object with the fields
  an expected object sets. \<^verbatim>\<open>mergo.Merge\<close>, \<^verbatim>\<open>gomega.Equal\<close>, \<^verbatim>\<open>cmp.Diff\<close> and the type assertion on a
  value of type \<^verbatim>\<open>any\<close> are parameters; a \<^verbatim>\<open>metav1.Time\<close> is a timestamp or zero.
\<close>

section \<open>The matcher\<close>

type_synonym go_time = "string option"

definition time_IsZero :: "go_time \<Rightarrow> bool" where
  "time_IsZero t \<longleftrightarrow> t = None"

text \<open>
  A transformer gives, for some types, the function that merges a source value into a
  destination (which may not be settable); it returns the new destination.
\<close>

type_synonym transformer = "string \<Rightarrow> (bool \<Rightarrow> go_time \<Rightarrow> go_time \<Rightarrow> go_time outcome) option"

definition timeTransformer :: transformer where
  "timeTransformer typ =
     (if typ = ''metav1.Time'' then
        Some (\<lambda>CanSet dst src. if CanSet then (if time_IsZero dst then Ok src else Ok dst) else Ok dst)
      else None)"

record 'v HaveFieldsGomegaMatcher =
  expected :: 'v

definition HaveFields :: "'v \<Rightarrow> 'v HaveFieldsGomegaMatcher" where
  "HaveFields v = \<lparr>expected = v\<rparr>"

text \<open>The libraries, at a type \<open>'v\<close> of objects and a type \<open>'a\<close> of values to be matched.\<close>

record ('v, 'a) matcher_lib =
  mergo_Merge :: "transformer \<Rightarrow> 'v \<Rightarrow> 'v \<Rightarrow> 'v outcome"
  gomega_Equal :: "'v \<Rightarrow> 'a \<Rightarrow> bool outcome"
  cmp_Diff :: "'a \<Rightarrow> 'v \<Rightarrow> string"
  type_assert :: "'a \<Rightarrow> 'v option"

definition merged :: "('v, 'a) matcher_lib \<Rightarrow> 'v HaveFieldsGomegaMatcher \<Rightarrow> 'v \<Rightarrow> 'v outcome" where
  "merged lib a actual = (case mergo_Merge lib timeTransformer (expected a) actual of
      Err e \<Rightarrow> Panic ''error'' | r \<Rightarrow> r)"

definition Match :: "('v, 'a) matcher_lib \<Rightarrow> 'v HaveFieldsGomegaMatcher \<Rightarrow> 'a \<Rightarrow> bool outcome" where
  "Match lib a actual = (case type_assert lib actual of
      None \<Rightarrow> Ok False
    | Some t \<Rightarrow> (case merged lib a t of
        Ok m \<Rightarrow> gomega_Equal lib m actual | Err e \<Rightarrow> Err e | Panic p \<Rightarrow> Panic p))"

text \<open>The format of the message names its fixed part and the difference.\<close>

definition FailureMessage :: "('v, 'a) matcher_lib \<Rightarrow> 'v HaveFieldsGomegaMatcher \<Rightarrow> 'a \<Rightarrow> string outcome" where
  "FailureMessage lib a actual = (case type_assert lib actual of
      None \<Rightarrow> Ok ''Type assertion failed''
    | Some t \<Rightarrow> (case merged lib a t of
        Ok m \<Rightarrow> Ok (''diff: '' @ [CHR 0x0A] @ cmp_Diff lib actual m) | Err e \<Rightarrow> Err e | Panic p \<Rightarrow> Panic p))"

definition NegatedFailureMessage :: "('v, 'a) matcher_lib \<Rightarrow> 'v HaveFieldsGomegaMatcher \<Rightarrow> 'a \<Rightarrow> string outcome" where
  "NegatedFailureMessage lib a actual = FailureMessage lib a actual"

lemma merged_no_error: "merged lib a t \<noteq> Err e"
  by (auto simp: merged_def split: outcome.split)

text \<open>A value of another type does not match, and is no error.\<close>

lemma Match_other_type: "type_assert lib actual = None \<Longrightarrow> Match lib a actual = Ok False"
  by (simp add: Match_def)

section \<open>What it matches\<close>

text \<open>
  What \<^verbatim>\<open>mergo\<close> documents of \<^verbatim>\<open>Merge\<close>: fields of the destination that have their zero value are
  filled from the source, and the transformer decides for the types it knows. An object is
  seen through its leaf fields, which determine it.
\<close>

datatype 'x field = TimeField go_time | PlainField 'x

fun fills :: "transformer \<Rightarrow> 'x \<Rightarrow> 'x field \<Rightarrow> 'x field \<Rightarrow> 'x field \<Rightarrow> bool" where
  "fills tr zero (TimeField d) (TimeField s) m =
     (case tr ''metav1.Time'' of
        Some merge \<Rightarrow> (case merge True d s of Ok v \<Rightarrow> m = TimeField v | _ \<Rightarrow> False)
      | None \<Rightarrow> m = TimeField d)"
| "fills tr zero (PlainField d) (PlainField s) m = (m = PlainField (if d = zero then s else d))"
| "fills tr zero d s m = False"

definition documented_merge :: "('v, 'a) matcher_lib \<Rightarrow> 'x \<Rightarrow> ('v \<Rightarrow> 'f \<Rightarrow> 'x field) \<Rightarrow> bool" where
  "documented_merge lib zero view \<longleftrightarrow> inj view \<and>
     (\<forall>tr d s m. mergo_Merge lib tr d s = Ok m \<longrightarrow> (\<forall>f. fills tr zero (view d f) (view s f) (view m f)))"

definition documented_equal :: "('v, 'a) matcher_lib \<Rightarrow> bool" where
  "documented_equal lib \<longleftrightarrow> (\<forall>x y t. type_assert lib y = Some t \<longrightarrow> gomega_Equal lib x y = Ok (x = t))"

fun is_set :: "'x \<Rightarrow> 'x field \<Rightarrow> bool" where
  "is_set zero (TimeField t) = (\<not> time_IsZero t)"
| "is_set zero (PlainField x) = (x \<noteq> zero)"

lemma fills_equal: "fills timeTransformer zero d s m \<Longrightarrow> m = s \<longleftrightarrow> (is_set zero d \<longrightarrow> d = s)"
  by (induction timeTransformer zero d s m rule: fills.induct)
    (auto simp: timeTransformer_def time_IsZero_def split: if_splits)

lemma Match_iff:
  assumes merge: "documented_merge lib zero view" and equal: "documented_equal lib"
    and t: "type_assert lib actual = Some t" and run: "Match lib (HaveFields v) actual = Ok b"
  shows "b \<longleftrightarrow> (\<forall>f. is_set zero (view v f) \<longrightarrow> view v f = view t f)"
proof -
  from run t obtain m where m: "mergo_Merge lib timeTransformer v t = Ok m" and "gomega_Equal lib m actual = Ok b"
    by (auto simp: Match_def merged_def HaveFields_def split: outcome.splits)
  moreover have "gomega_Equal lib m actual = Ok (m = t)"
    using equal t by (simp add: documented_equal_def)
  ultimately have "b \<longleftrightarrow> m = t" by simp
  also have "\<dots> \<longleftrightarrow> view m = view t"
    using merge unfolding documented_merge_def by (simp add: inj_eq)
  also have "\<dots> \<longleftrightarrow> (\<forall>f. is_set zero (view v f) \<longrightarrow> view v f = view t f)"
  proof -
    have "view m f = view t f \<longleftrightarrow> (is_set zero (view v f) \<longrightarrow> view v f = view t f)" for f
      by (rule fills_equal) (use merge m in \<open>auto simp: documented_merge_def\<close>)
    then show ?thesis by (simp add: fun_eq_iff)
  qed
  finally show ?thesis .
qed

section \<open>A library of two fields\<close>

text \<open>Objects with a name and a creation time, for the example.\<close>

fun pair_merge :: "transformer \<Rightarrow> string \<times> go_time \<Rightarrow> string \<times> go_time \<Rightarrow> (string \<times> go_time) outcome" where
  "pair_merge tr (n, d) (n', s) = (let name = (if n = '''' then n' else n) in
     case tr ''metav1.Time'' of
       None \<Rightarrow> Ok (name, d)
     | Some merge \<Rightarrow> (case merge True d s of Ok v \<Rightarrow> Ok (name, v) | Err e \<Rightarrow> Err e | Panic p \<Rightarrow> Panic p))"

definition pair_lib :: "(string \<times> go_time, string \<times> go_time) matcher_lib" where
  "pair_lib = \<lparr>mergo_Merge = pair_merge, gomega_Equal = (\<lambda>x y. Ok (x = y)), cmp_Diff = (\<lambda>x y. ''''), type_assert = Some\<rparr>"

definition pair_view :: "string \<times> go_time \<Rightarrow> bool \<Rightarrow> string field" where
  "pair_view v f = (if f then TimeField (snd v) else PlainField (fst v))"

lemma pair_documented: "documented_merge pair_lib '''' pair_view" "documented_equal pair_lib"
proof -
  have "inj pair_view"
  proof (rule injI)
    fix v w assume "pair_view v = pair_view w"
    from fun_cong [OF this, of True] fun_cong [OF this, of False] show "v = w"
      by (simp add: pair_view_def prod_eq_iff)
  qed
  moreover have "fills tr '''' (pair_view d f) (pair_view s f) (pair_view m f)"
    if "pair_merge tr d s = Ok m" for tr d s m f
    using that by (cases d; cases s; cases f) (auto simp: pair_view_def Let_def split: option.splits outcome.splits)
  ultimately show "documented_merge pair_lib '''' pair_view"
    by (simp add: documented_merge_def pair_lib_def)
  show "documented_equal pair_lib"
    by (simp add: documented_equal_def pair_lib_def)
qed

end
