(* ===== verification/SchemeRegistration.thy ===== *)
theory SchemeRegistration
  imports Desired
begin

text \<open>
  The registration of the resource types: \<^verbatim>\<open>groupversion_info.go\<close> and the \<^verbatim>\<open>init\<close> of
  \<^verbatim>\<open>cloudflaretunnel_types.go\<close>. The methods of \<^verbatim>\<open>scheme.Builder\<close> are parameters.
\<close>

record GroupVersion =
  gv_Group :: string
  gv_Version :: string

definition v1beta1_GroupVersion :: GroupVersion where
  "v1beta1_GroupVersion = \<lparr>gv_Group = ''cf-tunnel-operator.walnuts.dev'', gv_Version = ''v1beta1''\<rparr>"

record scheme_Builder =
  sb_GroupVersion :: GroupVersion
  sb_Types :: "string list"

definition SchemeBuilder :: scheme_Builder where
  "SchemeBuilder = \<lparr>sb_GroupVersion = v1beta1_GroupVersion, sb_Types = []\<rparr>"

text \<open>\<^verbatim>\<open>init\<close> of the package, and \<^verbatim>\<open>AddToScheme\<close> on the builder it leaves.\<close>

definition init_types :: "(scheme_Builder \<Rightarrow> string list \<Rightarrow> scheme_Builder) \<Rightarrow> scheme_Builder" where
  "init_types Register = Register SchemeBuilder [''CloudflareTunnel'', ''CloudflareTunnelList'']"

definition v1beta1_AddToScheme :: "(scheme_Builder \<Rightarrow> 'scheme \<Rightarrow> 'scheme outcome) \<Rightarrow>
    (scheme_Builder \<Rightarrow> string list \<Rightarrow> scheme_Builder) \<Rightarrow> 'scheme \<Rightarrow> 'scheme outcome" where
  "v1beta1_AddToScheme AddToScheme Register scheme = AddToScheme (init_types Register) scheme"

section \<open>The owner of the wanted objects\<close>

text \<open>
  \<^verbatim>\<open>Register\<close> adds types to the builder; a scheme they were added to answers
  \<^verbatim>\<open>apiutil.GVKForObject\<close> with the builder's group and version.
\<close>

definition documented_Register :: "(scheme_Builder \<Rightarrow> string list \<Rightarrow> scheme_Builder) \<Rightarrow> bool" where
  "documented_Register Register \<longleftrightarrow> (\<forall>b ts. Register b ts = b\<lparr>sb_Types := sb_Types b @ ts\<rparr>)"

definition gv_String :: "GroupVersion \<Rightarrow> string" where
  "gv_String gv = gv_Group gv @ ''/'' @ gv_Version gv"

definition scheme_answers :: "k8s_lib \<Rightarrow> scheme_Builder \<Rightarrow> bool" where
  "scheme_answers lib b \<longleftrightarrow> (''CloudflareTunnel'' \<in> set (sb_Types b) \<longrightarrow>
     (\<forall>cf. GVKForObject lib cf = Ok (gv_String (sb_GroupVersion b), ''CloudflareTunnel'')))"

lemma owner_of_registered_type:
  assumes "documented_Register Register" and "scheme_answers lib (init_types Register)"
  shows "controllerReference lib cf = Ok \<lparr>or_APIVersion = ''cf-tunnel-operator.walnuts.dev/v1beta1'',
     or_Kind = ''CloudflareTunnel'', or_Name = cft_Name cf, or_UID = om_UID (cft_Meta cf),
     or_BlockOwnerDeletion = True, or_Controller = True\<rparr>"
  using assms by (simp add: documented_Register_def scheme_answers_def init_types_def SchemeBuilder_def
      v1beta1_GroupVersion_def gv_String_def controllerReference_def)

end
