(* ===== verification/Spec2Isabelle.thy ===== *)
theory Spec2Isabelle
  imports Schedules EntryPoint Webhook DeepCopy StoredExample Failures SyncScript Matcher SchemeRegistration
begin

text \<open>
  \<^bold>\<open>A verification of cloudflare-tunnel-operator.\<close>

  The operator keeps two controllers in one process. \<^verbatim>\<open>CloudflareTunnelReconciler\<close>
  (\<^verbatim>\<open>internal/controller/cloudflaretunnel_controller.go\<close>) gives each \<^verbatim>\<open>CloudflareTunnel\<close>
  resource a Cloudflare tunnel, a secret with its token and a \<^verbatim>\<open>cloudflared\<close> deployment, service,
  service monitor and disruption budget, and reports conditions. \<^verbatim>\<open>IngressReconciler\<close>
  (\<^verbatim>\<open>internal/controller/ingress_watcher.go\<close>) publishes the hosts of ingresses: a rule in the
  tunnel's configuration and a DNS record per host. Both reach Cloudflare through the interface
  \<^verbatim>\<open>CloudflareTunnelManager\<close> (\<^verbatim>\<open>external.go\<close>), implemented by \<^verbatim>\<open>pkg/external/cloudflare.go\<close> over
  \<^verbatim>\<open>cloudflare-go\<close>. A webhook (\<^verbatim>\<open>internal/webhook/v1beta1\<close>) labels and checks default tunnels.

  \<^bold>\<open>Theories.\<close> In dependency order:
  \<^item> \<^verbatim>\<open>Prelude\<close>: Go errors with \<^verbatim>\<open>errors.Is\<close>, outcomes (value, error, panic), state passing, the
    history of external calls with backward rules (\<open>traces\<close>, collection \<open>trace_intros\<close>; \<open>ok_simps\<close>
    unfolds successful runs), \<^verbatim>\<open>strings\<close>, \<^verbatim>\<open>slices.SortedFunc\<close> and the locale \<open>key_order\<close>.
  \<^item> \<^verbatim>\<open>Triples\<close>: assertions on the world before and after a run (\<open>triple\<close>, \<open>keeps\<close>) and on the calls
    made from such a world (\<open>only\<close>), with one rule per combinator.
  \<^item> \<^verbatim>\<open>ApiTypes\<close>, \<^verbatim>\<open>Domain\<close>: \<^verbatim>\<open>api/v1beta1\<close> and \<^verbatim>\<open>pkg/domain\<close>. \<^verbatim>\<open>RandomString\<close>: \<^verbatim>\<open>pkg/utils/random\<close>.
  \<^item> \<^verbatim>\<open>Manager\<close>: the manager interface and its contracts \<open>dns_manager\<close>, \<open>cloudflare_view\<close>,
    \<open>record_owner\<close>, \<open>opaque_manager\<close> and \<open>tunnel_issuer\<close>; \<^verbatim>\<open>CloudflareClient\<close>: the client, which interprets them all.
  \<^item> \<^verbatim>\<open>Netip\<close>: \<^verbatim>\<open>ParseAddr\<close> and \<^verbatim>\<open>Addr.String\<close>. \<^verbatim>\<open>IngressRules\<close>: hosts, annotations and the rule
    list, refined to a map from host names to rules.
  \<^item> \<^verbatim>\<open>Kubernetes\<close>: API client, apply configurations and events; \<^verbatim>\<open>Events\<close>: \<open>always\<close>, the
    composition of properties closed under concatenation.
  \<^item> \<^verbatim>\<open>IngressReconciler\<close> (operations and order of calls), \<^verbatim>\<open>IngressEffects\<close> (what runs leave in
    Cloudflare, proved inside the contracts).
  \<^item> \<^verbatim>\<open>Desired\<close> (the wanted objects), \<^verbatim>\<open>TunnelReconciler\<close> (operations), \<^verbatim>\<open>TunnelEvents\<close> (order of
    calls; the locale \<open>applier\<close> for the three server-side-apply steps; the inductive relation
    \<open>tunnel_run\<close> for \<^verbatim>\<open>reconcileTunnel\<close>).
  \<^item> \<^verbatim>\<open>Convergence\<close>: the life of a tunnel resource, as an inductive relation of successive runs with
    changes by others in between (\<open>operated\<close>), against an API server that stores the objects;
    \<^verbatim>\<open>StoredExample\<close> is such a server, in memory, with a life of two runs.
  \<^item> \<^verbatim>\<open>Failures\<close>: the replies of a run against the error it returns, in both controllers.
  \<^item> \<^verbatim>\<open>SyncScript\<close>: what a successful tunnel reconciliation has done, as a script of its calls.
  \<^item> \<^verbatim>\<open>Concurrent\<close>: ingress reconciliations that run at the same time. The four locked functions
    are cut into the steps between which other goroutines run; a pool of threads takes such steps
    in any order (\<open>pool_reach\<close>). \<^verbatim>\<open>Lifecycle\<close>: these runs followed by the deletion of a tunnel, in the
    contract \<open>record_owner\<close> (a manager that marks its records). \<^verbatim>\<open>Schedules\<close> has sample runs.
  \<^item> \<^verbatim>\<open>Memory\<close>: a memory of cells and the locale \<open>deep_copier\<close>, the contract of a \<^verbatim>\<open>DeepCopyInto\<close>,
    with one lemma per way the generator copies a field. \<^verbatim>\<open>DeepCopy\<close>: \<^verbatim>\<open>zz_generated.deepcopy.go\<close>
    and \<^verbatim>\<open>apply_configuration.go\<close> on it.
  \<^item> \<^verbatim>\<open>SchemeRegistration\<close>: \<^verbatim>\<open>groupversion_info.go\<close>. \<^verbatim>\<open>Matcher\<close>: \<^verbatim>\<open>pkg/gomega/have_fields.go\<close>.
  \<^item> \<^verbatim>\<open>Webhook\<close>; \<^verbatim>\<open>Logger\<close> and \<^verbatim>\<open>EntryPoint\<close> (\<^verbatim>\<open>cmd/main.go\<close>); \<^verbatim>\<open>Example\<close> (a concrete environment
    that meets every assumption, for the examples).

  \<^bold>\<open>How the code is modelled.\<close> A function that calls out is a state transformer on a world of
  an arbitrary type: the calls of the API server and of \<^verbatim>\<open>cloudflare-go\<close> are arbitrary functions
  on it, so they also stand for everything other clients do meanwhile. An error return is \<open>Err\<close>,
  a panic \<open>Panic\<close>; \<^verbatim>\<open>fmt.Errorf\<close> keeps its cause with \<^verbatim>\<open>%w\<close> and only its text with \<^verbatim>\<open>%v\<close> (formatted
  texts name the fixed part of the message). Each call is recorded with its arguments and
  reply in a history that no definition reads; \<^verbatim>\<open>events_of\<close> gives the events of one run, and a
  theorem about them holds for every world and every reply. Integers keep their width. A Go map
  that the code enumerates (\<^verbatim>\<open>maps.Values\<close>) is an association list with the runtime's order as a
  parameter (\<open>r_MapValues\<close>); other maps are functions with finite support. All recursion is
  structural or by \<^verbatim>\<open>fun\<close>, so every operation is total; no fuel is used. The copies are the one
  place where sharing matters: there a pointer, slice or map is an address of an explicit memory.
  Concurrency is an interleaving of steps that act on the shared world, between lock and unlock.

  \<^bold>\<open>Assumptions.\<close> Named hypotheses state documented behaviour of code outside the repository:
  \<open>documented_service\<close> (the DNS and configuration calls of Cloudflare act on a zone and on
  configurations as their documentation says, one call at a time), \<open>finalizer_helpers\<close>,
  \<open>condition_helper\<close>, \<open>typed_helpers\<close> and \<open>total_helpers\<close> (the Kubernetes helper functions), \<open>enumerates\<close> (the
  runtime lists each map entry once), \<open>kubernetes_copies\<close> (the \<^verbatim>\<open>DeepCopyInto\<close> methods of the
  Kubernetes structs are deep), \<open>calm\<close> (the calls that finish a deletion leave the zone alone).
  \<open>storing_server\<close> (reads return the stored object, a status is stored by a status update only, a
  forced apply stores the secret's data; a failed write may have happened), \<open>issuing_service\<close> (a
  created tunnel has an identifier, a token is one issued for the tunnel asked for) and
  \<open>finalizer_frame\<close>, together \<open>faithful_environment\<close>; in it others may delete the resource, lose the
  secret and change anything else but the recorded identifier and token (\<open>others\<close>).
  \<open>documented_merge\<close> and \<open>documented_equal\<close> are the libraries of the matcher.
  \<open>zone_ok\<close> says that record identifiers are distinct and not
  empty. \<^verbatim>\<open>encoding/json\<close> and \<^verbatim>\<open>strings.ToLower\<close> are modelled on ASCII text. Pointers inside list
  elements of a resource are assumed not nil.

  \<^bold>\<open>What the theorems show.\<close> The ingress reconciler publishes and withdraws hosts, keeps its
  finalizer until the clean-up is done, holds its mutex around every Cloudflare call and respects
  the ignore annotation. Reconciliations that run at the same time have the effect of their
  locked sections one after the other, so hosts of different ingresses are all published; they
  cannot deadlock and every schedule ends; without the mutex an update is lost. Deleting a tunnel
  afterwards leaves no record that points to it. The edits of the
  rule list refine map updates that are independent of enumeration order, idempotent, commuting
  and undone by removal. The tunnel reconciler: order of finalizer, creation, token, secret and
  status, and its conditions; the desired objects fit together. Over the life of a resource a
  success ends the creation of tunnels, every creation but one is paid for by a failed run, and
  the token in the secret is always one of the tunnel in the status. A successful run has done every
  step of a fixed script and nothing else, and neither controller swallows a failed call. The client deletes the records
  of one tunnel and no others. Deep copies are equal and share nothing. \<^verbatim>\<open>main\<close> sets up in a fixed
  order and stops at the first failure.

  \<^bold>\<open>Behaviour to know about\<close>, each with its theorem: the branch that recreates a tunnel after
  \<^verbatim>\<open>ErrTunnelNotFound\<close> is unreachable with the shipped client (\<open>tunnel_created_for_no_id\<close>); a
  tunnel whose token or secret fails is not recorded and is created again (\<open>tunnel_orphaned\<close>);
  failures on a resource without an ID are not reported (\<open>failure_unreported\<close>); the secret is
  compared with a service and patched every time (\<open>secret_always_patched\<close>); a disruption budget
  keeps the field that was unset (\<open>budget_keeps_unset_field\<close>); other resources than cpu and memory
  are dropped and missing ones set to zero (\<open>resources_cpu_memory\<close>); a rule without a host takes
  over a foreign record (\<open>empty_host_takes_record\<close>); a reconciliation that looked its tunnel up
  before the deletion writes records for it afterwards (\<open>stale_lookup_leaves_alias\<close>); the webhook only warns of a second default
  tunnel and can panic (\<open>webhook_only_warns\<close>); a copy through JSON panics where marshalling fails
  (\<open>tunnel_copy_panics\<close>), and \<^verbatim>\<open>Ref\<close> shares the elements of its list (\<open>env_ref_aliases\<close>).

  \<^bold>\<open>Not modelled.\<close> Log output; the generated mock and the command runners of the end-to-end tests. The apply configurations inside
  a copied resource are cells without inner pointers. Concurrency is modelled for the ingress
  reconciler, whose mutex is the code's only lock; runs of the tunnel reconciler on one resource
  follow each other, as the work queue has it, over a world that others change.
\<close>

section \<open>The ingress reconciler\<close>






text \<open>
  C3. The finalizer of an ingress is dropped last: an update that lacks it ends the run, and
  between the read of the deleted ingress and that update the clean-up ran to its end (the
  rules of all hosts removed in one locked update, then each host's record looked up and
  deleted under the lock), or there was no default tunnel or the tunnel was being deleted.
\<close>

theorem ingress_release_last:
  "finalizer_helpers (r_Lib r) \<Longrightarrow> release_order r key (events_of (ingress_Reconcile r key) s)"
  using tracesD [OF traces_Reconcile_release] by blast

theorem ingress_release_last_witness:
  "release_order (mem_reconciler (sample_tunnel ''t'') (sample_ingress (Some ''now'')) no_secret) sample_key
    (events_of (ingress_Reconcile (mem_reconciler (sample_tunnel ''t'') (sample_ingress (Some ''now'')) no_secret)
      sample_key) sample_state)"
  by (rule ingress_release_last) (simp add: mem_lib_finalizers)

text \<open>
  C4. Before the first write to Cloudflare the ingress holds the finalizer: it had it when it
  was read, or an update that adds it succeeded.
\<close>

theorem ingress_claims_first:
  "finalizer_helpers (r_Lib r) \<Longrightarrow>
   preceded (holds_finalizer (r_Lib r)) is_cloudflare_write (events_of (ingress_Reconcile r key) s)"
  using tracesD [OF traces_Reconcile_finalizer_first] by blast

theorem ingress_claims_first_witness:
  "preceded (holds_finalizer mem_lib) is_cloudflare_write
    (events_of (ingress_Reconcile (mem_reconciler (sample_tunnel ''t'') (sample_ingress None) no_secret) sample_key)
      sample_state)"
  using ingress_claims_first [of "mem_reconciler (sample_tunnel ''t'') (sample_ingress None) no_secret"
      sample_key sample_state] mem_lib_finalizers by simp

text \<open>
  C5. Every call of the tunnel manager in a reconciliation of an ingress is made while the
  mutex is held; the mutex is never taken twice and always released, also when a call fails
  or panics.
\<close>

theorem ingress_lock_discipline:
  "lock_run False (events_of (ingress_Reconcile r key) s) = Some False"
  using tracesD [OF traces_Reconcile_lock] by blast

text \<open>
  C7. No DNS record is added or changed for an ingress unless a reply of the API server before
  it (the read, or the update that added the finalizer) showed the ingress without an
  effective ignore annotation.
\<close>

theorem ingress_ignore_respected:
  "preceded shows_unignored is_publish (events_of (ingress_Reconcile r key) s)"
  using tracesD [OF traces_Reconcile_ignore] by blast

text \<open>
  C17. Adding hosts implements a map update: whatever order the runtime enumerates the map in,
  the written rule list is the canonical list (sorted by host name, catch-all last) of the
  table in which the hosts are overwritten, the other rules keep path and service, and the
  empty name is the catch-all rule.
\<close>

theorem append_refines_table:
  "enumerates mv \<Longrightarrow>
   rule_table (tc_Ingress (appended_config mv ts ip hosts config)) = spec_append ts ip hosts (rule_table (tc_Ingress config)) \<and>
   canonical ts (tc_Ingress (appended_config mv ts ip hosts config))"
  by (simp add: config_laws)

theorem append_refines_table_witness:
  "canonical sample_settings (tc_Ingress (appended_config rev sample_settings (Addr4 10 0 0 1)
     [\<lparr>h_Host = ''b'', h_TLS = True\<rparr>, \<lparr>h_Host = ''a'', h_TLS = False\<rparr>] empty_config))"
  using append_refines_table [of rev sample_settings "Addr4 10 0 0 1"
      "[\<lparr>h_Host = ''b'', h_TLS = True\<rparr>, \<lparr>h_Host = ''a'', h_TLS = False\<rparr>]" empty_config]
  by (simp add: enumerates_def)

text \<open>
  C18. Removing hosts implements a map restriction, with the same canonical form.
\<close>

theorem remove_refines_table:
  "enumerates mv \<Longrightarrow>
   rule_table (tc_Ingress (removed_config mv ts hosts config)) = spec_remove ts hosts (rule_table (tc_Ingress config)) \<and>
   canonical ts (tc_Ingress (removed_config mv ts hosts config))"
  by (simp add: config_laws)

theorem remove_refines_table_witness:
  "canonical sample_settings (tc_Ingress (removed_config rev sample_settings
     [\<lparr>h_Host = ''b'', h_TLS = True\<rparr>] empty_config))"
  using remove_refines_table [of rev sample_settings "[\<lparr>h_Host = ''b'', h_TLS = True\<rparr>]" empty_config]
  by (simp add: enumerates_def)


text \<open>
  C20. The enumeration order of the map does not matter: two runtimes that enumerate each
  entry once write the same configuration, whether hosts are added or removed.
\<close>

theorem config_order_irrelevant:
  assumes "enumerates mv" and "enumerates mv'"
  shows "appended_config mv ts ip hosts config = appended_config mv' ts ip hosts config \<and>
    removed_config mv ts hosts config = removed_config mv' ts hosts config"
  by (intro conjI config_eqI [where ts = ts]) (simp_all add: config_laws assms)

theorem config_order_irrelevant_witness:
  "appended_config rev sample_settings (Addr4 10 0 0 1) [\<lparr>h_Host = ''b'', h_TLS = True\<rparr>] empty_config =
   appended_config (\<lambda>rs. rs) sample_settings (Addr4 10 0 0 1) [\<lparr>h_Host = ''b'', h_TLS = True\<rparr>] empty_config"
  using config_order_irrelevant [of rev "\<lambda>rs. rs" sample_settings "Addr4 10 0 0 1"
      "[\<lparr>h_Host = ''b'', h_TLS = True\<rparr>]" empty_config]
  by (simp add: enumerates_def)



text \<open>
  Ingresses with different hosts on one tunnel may be reconciled in either order.
\<close>

theorem append_commutes:
  assumes "enumerates mv" and "h_Host ` set hosts \<inter> h_Host ` set hosts' = {}"
  shows "appended_config mv ts ip hosts (appended_config mv ts ip' hosts' config) =
     appended_config mv ts ip' hosts' (appended_config mv ts ip hosts config)"
  by (intro config_eqI [where ts = ts]) (simp_all add: config_laws assms(1)
    spec_append_commute [OF assms(2)])

theorem append_commutes_witness:
  "appended_config rev sample_settings (Addr4 10 0 0 1) [\<lparr>h_Host = ''b'', h_TLS = True\<rparr>]
     (appended_config rev sample_settings (Addr4 10 0 0 2) [\<lparr>h_Host = ''a'', h_TLS = True\<rparr>] empty_config) =
   appended_config rev sample_settings (Addr4 10 0 0 2) [\<lparr>h_Host = ''a'', h_TLS = True\<rparr>]
     (appended_config rev sample_settings (Addr4 10 0 0 1) [\<lparr>h_Host = ''b'', h_TLS = True\<rparr>] empty_config)"
  by (rule append_commutes) (simp_all add: enumerates_def)

text \<open>
  C21. Removing hosts undoes adding them: the result is the one of removing them from the
  configuration as it was before.
\<close>

theorem remove_undoes_append:
  "enumerates mv \<Longrightarrow> removed_config mv ts hosts (appended_config mv ts ip hosts config) =
     removed_config mv ts hosts config"
  by (intro config_eqI [where ts = ts]) (simp_all add: config_laws spec_remove_append)

theorem remove_undoes_append_witness:
  "removed_config rev sample_settings [\<lparr>h_Host = ''b'', h_TLS = True\<rparr>]
     (appended_config rev sample_settings (Addr4 10 0 0 1) [\<lparr>h_Host = ''b'', h_TLS = True\<rparr>] empty_config) =
   removed_config rev sample_settings [\<lparr>h_Host = ''b'', h_TLS = True\<rparr>] empty_config"
  by (rule remove_undoes_append) (simp add: enumerates_def)

text \<open>
  C6. No failed call of an ingress reconciliation is swallowed: when a run returns no error, every
  call succeeded, but for an ingress that is gone when it is read (and an error that is the
  operator's own sentinel for a missing default tunnel, which an API server does not return).
\<close>

theorem ingress_failures_surface:
  assumes "fst (ingress_Reconcile r key s) = Ok res"
  shows "list_all ingress_tolerated (events_of (ingress_Reconcile r key) s)"
  using tracesD [OF surfaces_Reconcile [unfolded surfaces_def], of r key s] assms by auto

theorem ingress_failures_surface_witness:
  "\<exists>s'. ingress_Reconcile (mem_reconciler (sample_tunnel ''t'') (sample_ingress None) no_secret) sample_key sample_state
      = (Ok zero_Result, s') \<and>
    list_all ingress_tolerated (events_of (ingress_Reconcile (mem_reconciler (sample_tunnel ''t'') (sample_ingress None) no_secret)
      sample_key) sample_state)"
proof -
  let ?r = "mem_reconciler (sample_tunnel ''t'') (sample_ingress None) no_secret"
  obtain s' where run: "ingress_Reconcile ?r sample_key sample_state = (Ok zero_Result, s')"
    using sample_publish_run by blast
  then have "fst (ingress_Reconcile ?r sample_key sample_state) = Ok zero_Result" by simp
  from ingress_failures_surface [OF this] run show ?thesis by blast
qed

section \<open>The tunnel reconciler\<close>

text \<open>
  C25. The finalizer of a tunnel is dropped last, by an update that ends the run; before it
  the run is exactly: the read of the deleted resource, a successful deletion of the DNS
  records and a successful deletion of the tunnel with the ID of its status.
\<close>

theorem tunnel_released_last:
  "finalizer_helpers (r_Lib r) \<Longrightarrow>
   tunnel_release_order (r_Lib r) key (events_of (tunnel_Reconcile r key) s)"
  using tracesD [OF traces_tunnel_release_order] by blast

theorem tunnel_released_last_witness:
  "tunnel_release_order mem_lib sample_key (events_of (tunnel_Reconcile
     (mem_reconciler ((sample_tunnel ''t'')\<lparr>cft_Meta := sample_meta [finalizerName] (Some ''now'')\<rparr>)
       (sample_ingress None) no_secret) sample_key) sample_state)"
  using tunnel_released_last [of "mem_reconciler ((sample_tunnel ''t'')\<lparr>cft_Meta :=
      sample_meta [finalizerName] (Some ''now'')\<rparr>) (sample_ingress None) no_secret" sample_key sample_state]
    mem_lib_finalizers by simp

text \<open>
  C26. A tunnel resource holds the finalizer before the first write to Cloudflare.
\<close>

theorem tunnel_claimed_first:
  "finalizer_helpers (r_Lib r) \<Longrightarrow>
   preceded (holds_tunnel_finalizer (r_Lib r)) is_cloudflare_write (events_of (tunnel_Reconcile r key) s)"
  using tracesD [OF traces_tunnel_finalizer_first] by blast

theorem tunnel_claimed_first_witness:
  "preceded (holds_tunnel_finalizer mem_lib) is_cloudflare_write (events_of (tunnel_Reconcile
     (mem_reconciler (sample_tunnel '''') (sample_ingress None) no_secret) sample_key) sample_state)"
  using tunnel_claimed_first [of "mem_reconciler (sample_tunnel '''') (sample_ingress None) no_secret"
      sample_key sample_state] mem_lib_finalizers by simp

text \<open>
  C27. Over the client of \<^verbatim>\<open>pkg/external\<close>, a tunnel is created only when a reply of the API
  server showed the resource without a tunnel ID: the client reports a failed token call with
  \<^verbatim>\<open>%v\<close>, so the error never is \<^verbatim>\<open>ErrTunnelNotFound\<close> and the branch that creates a tunnel
  anew after that error is not reached.
\<close>

theorem tunnel_created_for_no_id:
  "r_Manager r = client_manager c \<Longrightarrow>
   preceded shows_no_id is_create (events_of (tunnel_Reconcile r key) s)"
  using tracesD [OF client.Reconcile_creates_for_no_id] by blast

theorem tunnel_created_for_no_id_witness:
  "preceded shows_no_id is_create (events_of (tunnel_Reconcile
     (mem_reconciler (sample_tunnel ''gone'') (sample_ingress None) no_secret) sample_key) sample_state)"
  by (rule tunnel_created_for_no_id [of _ mem_client]) simp

text \<open>A reconciliation creates at most one tunnel, whatever the manager replies.\<close>

theorem tunnel_created_once:
  "length (filter is_create (events_of (tunnel_Reconcile r key) s)) \<le> 1"
  using tracesD [OF traces_tunnel_one_create] by blast


text \<open>
  For a resource without a tunnel ID, no status is written before a server-side apply
  (the secret with the token of the tunnel) succeeded, so a recorded ID always comes with its
  secret.
\<close>

theorem tunnel_id_after_secret:
  "cft_TunnelID cf = '''' \<Longrightarrow> typed_helpers (r_Lib r) \<Longrightarrow>
   preceded is_applied is_status_update (events_of (tunnel_sync r cf) s)"
  using tracesD [OF traces_status_after_secret] by blast

theorem tunnel_id_after_secret_witness:
  "preceded is_applied is_status_update (events_of (tunnel_sync
     (mem_reconciler (sample_tunnel '''') (sample_ingress None) no_secret) (sample_tunnel '''')) sample_state)"
  by (rule tunnel_id_after_secret) (simp_all add: mem_lib_typed sample_tunnel_def)

text \<open>
  Every run of \<^verbatim>\<open>reconcileTunnel\<close> has one of the shapes of \<open>tunnel_run\<close>: a known tunnel
  whose token is stored is reused without a Cloudflare call; a known tunnel without a stored
  token asks for the token; a tunnel is created (under the override name, else the name of the
  resource) when there is no ID or the token call failed with the sentinel; every other error
  ends the run.
\<close>

theorem reconcileTunnel_shape:
  "tunnel_run cf (events_of (reconcileTunnel r cf) s) (fst (reconcileTunnel r cf s))"
  by (rule tracesD [OF traces_reconcileTunnel])

text \<open>
  C28. When the token of a tunnel just created for a resource without an ID cannot be had, the
  synchronisation ends there: no secret and no status records the new tunnel, so the next run
  creates another one.
\<close>

theorem tunnel_orphaned:
  assumes "cft_TunnelID cf = ''''"
    and "events_of (tunnel_sync r cf) s = pre @ M_CreateTunnel n (Ok t) # M_GetTunnelToken i reply # post"
    and "\<forall>v. reply \<noteq> Ok v"
  shows "post = []"
  using sync_run_orphan [OF tracesD [OF traces_tunnel_sync] assms] .

theorem tunnel_orphaned_witness:
  "\<exists>post. events_of (tunnel_sync (mem_reconciler orphan_tunnel (sample_ingress None) no_secret) orphan_tunnel) sample_state =
     [K_GetSecret (cft_Key orphan_tunnel) no_secret] @
     M_CreateTunnel ''gone'' (Ok \<lparr>cft_tunnel_ID = ''gone'', cft_tunnel_Name = ''gone''\<rparr>) #
     M_GetTunnelToken ''gone'' (Err (Errorf_v ''failed to get tunnel token'' (ForeignError ''not found''))) # post
     \<and> post = []"
  using tunnel_orphaned [OF orphan_id orphan_run] orphan_run by simp

text \<open>
  C29. The status a run reports on a tunnel with an ID: a run that does not stop at a failed
  read writes one status, in which \<open>Available\<close> and \<open>Degraded\<close> are the specified functions
  of the three replies, every other condition is kept, and a requeue is asked for exactly when
  no replica is available.
\<close>

theorem status_reported:
  "condition_helper (r_Lib r) \<Longrightarrow> cft_TunnelID cf \<noteq> '''' \<Longrightarrow>
   status_run cf (events_of (updateStatus r cf) s) (fst (updateStatus r cf s))"
  by (rule tracesD [OF traces_updateStatus])

theorem status_reported_witness:
  "status_run (sample_tunnel ''t'')
     (events_of (updateStatus (mem_reconciler (sample_tunnel ''t'') (sample_ingress None) no_secret) (sample_tunnel ''t'')) sample_state)
     (fst (updateStatus (mem_reconciler (sample_tunnel ''t'') (sample_ingress None) no_secret) (sample_tunnel ''t'') sample_state))"
  by (rule status_reported) (simp_all add: mem_lib_conditions sample_tunnel_def)



text \<open>
  \<^verbatim>\<open>reconcileSecret\<close> never finds the secret up to date: it compares the desired secret with
  what it extracts from a service of the same name, so every successful run is one read and
  one successful patch of the desired secret with the token.
\<close>

theorem secret_always_patched:
  assumes "typed_helpers (r_Lib r)" and "fst (reconcileSecret r cf token s) = Ok name"
  shows "\<exists>get owner current tree. controllerReference (r_Lib r) cf = Ok owner \<and>
     ToUnstructured (r_Lib r) (AC_Secret (desired_secret cf owner token)) = Ok tree \<and>
     service_extracted (r_Lib r) cf get current \<and>
     events_of (reconcileSecret r cf token) s = [get, K_Patch tree apply_options (Ok ())]"
  using tracesD [OF traces_reconcileSecret_patches [OF assms(1)], of cf token s] assms(2) by blast

theorem secret_always_patched_witness:
  "\<exists>get tree. events_of (reconcileSecret (mem_reconciler (sample_tunnel ''t'') (sample_ingress None) no_secret)
     (sample_tunnel ''t'') ''token'') sample_state = [get, K_Patch tree apply_options (Ok ())]"
proof -
  let ?r = "mem_reconciler (sample_tunnel ''t'') (sample_ingress None) no_secret"
  have "fst (reconcileSecret ?r (sample_tunnel ''t'') ''token'' sample_state) = Ok (cft_Key (sample_tunnel ''t''))"
    by (simp add: reconcileSecret_def controllerReference_def found_or_def run_defs mem_defs mem_lib_def)
  with secret_always_patched [of ?r "sample_tunnel ''t''" "''token''" sample_state] mem_lib_typed
  show ?thesis by auto
qed

text \<open>
  C23. What a successful reconciliation has done, completely and in order. Either the resource is
  gone, or is being deleted and no longer held, and nothing is done; or it is being deleted and
  the records, the tunnel and the finalizer are removed; or (after adding the finalizer where it
  was missing) a tunnel is known or created and its token had, the secret with that token is
  applied, the tunnel is stored in the status, and then, from the resource as stored, the
  deployment and the service are found up to date or applied, the service monitor and the
  disruption budget are created or updated exactly when asked for, and the status is reported
  when an identifier is stored, and the report decides whether the run asks to be repeated. No step of the script is skipped and nothing else is done.
\<close>

theorem tunnel_success_script:
  assumes "typed_helpers (r_Lib r)" and "condition_helper (r_Lib r)"
    and "fst (tunnel_Reconcile r key s) = Ok (res, None)"
  shows "reconcile_script (r_Lib r) key (events_of (tunnel_Reconcile r key) s) res"
  using follows_script [OF assms(1,2), of key s res] assms(3) by (auto simp: events_of_def prod_eq_iff)

theorem tunnel_success_script_witness:
  "reconcile_script cluster_lib sample_key (events_of (tunnel_Reconcile cluster_reconciler sample_key) cluster_start) zero_Result"
proof -
  have "fst (tunnel_Reconcile cluster_reconciler sample_key cluster_start) = Ok (zero_Result, None)"
    using first_run by auto
  with tunnel_success_script [of cluster_reconciler sample_key cluster_start] cluster_helpers show ?thesis
    by (simp add: cluster_pure)
qed

text \<open>
  A successful \<^verbatim>\<open>reconcileDeployment\<close> leaves the desired deployment in place: it read the
  deployment and either found the desired configuration equal to what it extracts of it or
  patched it, once, by force and as the operator's field manager.
\<close>

theorem deployment_applied:
  "applies (r_Lib r) (deployment_extracted (r_Lib r) cf)
     (map_outcome (\<lambda>owner. AC_Deployment (desired_deployment cf owner secretName)) (controllerReference (r_Lib r) cf))
     (events_of (reconcileDeployment r cf secretName) s) (fst (reconcileDeployment r cf secretName s))"
  by (rule tracesD [OF deployment.run_applies])


text \<open>
  C24. No failure of a tunnel reconciliation is swallowed and none is invented: a run that returns
  returns an error exactly when one of its calls failed, other than a read of an object that is
  not found. So the work queue tries again whenever something went wrong, and only then.
\<close>

theorem tunnel_failures_surface:
  assumes "r_Manager r = client_manager c" and "total_helpers (r_Lib r)"
    and "fst (tunnel_Reconcile r key s) = Ok (res, err)"
  shows "err = None \<longleftrightarrow> list_all tolerated (events_of (tunnel_Reconcile r key) s)"
  using tracesD [OF client.reported_Reconcile [OF assms(1,2), unfolded reported_def], of key s] assms(3) by auto

theorem tunnel_failures_surface_witness:
  "\<exists>s'. tunnel_Reconcile (mem_reconciler deleted_tunnel (sample_ingress None) no_secret) sample_key sample_state
      = (Ok (zero_Result, None), s') \<and>
    list_all tolerated (events_of (tunnel_Reconcile (mem_reconciler deleted_tunnel (sample_ingress None) no_secret) sample_key)
      sample_state)"
proof -
  let ?r = "mem_reconciler deleted_tunnel (sample_ingress None) no_secret"
  obtain s' where run: "tunnel_Reconcile ?r sample_key sample_state = (Ok (zero_Result, None), s')"
    using deletion_run by blast
  then have "fst (tunnel_Reconcile ?r sample_key sample_state) = Ok (zero_Result, None)" by simp
  moreover have "total_helpers (r_Lib ?r)" by (simp add: total_helpers_def mem_lib_def)
  ultimately show ?thesis using tunnel_failures_surface [OF mem_reconciler_parts(1)] run by blast
qed

section \<open>The life of a tunnel\<close>







section \<open>The desired objects\<close>

text \<open>
  C31. The objects of one tunnel fit together: the deployment selects its own pods, the
  service selects them and its target ports are the named ports of the container, the probe
  asks a port of the container, and the container takes its token from the key of the secret
  that holds it, all in one namespace.
\<close>

theorem workloads_wired:
  "\<exists>c. pt_Containers (da_Template (desired_deployment cf owner (cft_Key cf))) = [c] \<and>
    da_MatchLabels (desired_deployment cf owner (cft_Key cf)) =
      pt_Labels (da_Template (desired_deployment cf owner (cft_Key cf))) \<and>
    selects (sva_Selector (desired_service cf owner))
      (pt_Labels (da_Template (desired_deployment cf owner (cft_Key cf)))) \<and>
    map sp_TargetPort (sva_Ports (desired_service cf owner)) = map (\<lambda>p. StrVal (cp_Name p)) (ca_Ports c) \<and>
    map sp_Port (sva_Ports (desired_service cf owner)) = map cp_ContainerPort (ca_Ports c) \<and>
    pr_HTTPGetPort (ca_LivenessProbe c) \<in> (\<lambda>p. StrVal (cp_Name p)) ` set (ca_Ports c) \<and>
    (\<exists>e \<in> set (ca_Env c). \<exists>k. env_Name e = Some ''TUNNEL_TOKEN'' \<and>
      env_SecretKeyRef e = Some \<lparr>sks_Name = sa_Name (desired_secret cf owner token), sks_Key = k\<rparr> \<and>
      sa_Data (desired_secret cf owner token) k = Some token) \<and>
    sa_Namespace (desired_secret cf owner token) = da_Namespace (desired_deployment cf owner (cft_Key cf)) \<and>
    sva_Namespace (desired_service cf owner) = da_Namespace (desired_deployment cf owner (cft_Key cf))"
  by (simp add: desired_deployment_def desired_service_def desired_secret_def
      desired_container_def deployment_envs_def token_env_def cft_Key_def selects_appLabels Let_def)

text \<open>
  The service of a tunnel selects the pods of a tunnel exactly when both resources have
  the same name.
\<close>

theorem service_selects_own_pods:
  "selects (sva_Selector (desired_service a owner))
     (pt_Labels (da_Template (desired_deployment b owner' secretName))) \<longleftrightarrow> cft_Name a = cft_Name b"
  by (simp add: desired_service_def desired_deployment_def selects_appLabels Let_def)

text \<open>
  A field of the disruption budget that the resource does not set keeps the value it has
  in the cluster: changing a resource from \<^verbatim>\<open>minAvailable\<close> to \<^verbatim>\<open>maxUnavailable\<close> leaves a
  budget with both, which the API server rejects.
\<close>

theorem budget_keeps_unset_field:
  assumes "mutate_pdb lib cf \<lparr>pdbs_MinAvailable = None, pdbs_MaxUnavailable = Some v\<rparr> pdb = Ok pdb'"
    and "om_DeletionTimestamp (pdb_Meta pdb) = None"
  shows "pdb_MinAvailable pdb' = pdb_MinAvailable pdb \<and> pdb_MaxUnavailable pdb' = Some v \<and>
    pdb_Selector pdb' = Some (appLabels cf)"
  using mutate_pdb_Ok [OF assms] by (simp add: override_def)

theorem budget_keeps_unset_field_witness:
  "\<exists>pdb'. mutate_pdb mem_lib (sample_tunnel ''t'') \<lparr>pdbs_MinAvailable = None, pdbs_MaxUnavailable = Some (IntVal 1)\<rparr>
      ((new_pdb (sample_tunnel ''t''))\<lparr>pdb_MinAvailable := Some (IntVal 2)\<rparr>) = Ok pdb' \<and>
    pdb_MinAvailable pdb' = Some (IntVal 2) \<and> pdb_MaxUnavailable pdb' = Some (IntVal 1)"
proof -
  let ?pdb = "(new_pdb (sample_tunnel ''t''))\<lparr>pdb_MinAvailable := Some (IntVal 2)\<rparr>"
  have live: "om_DeletionTimestamp (pdb_Meta ?pdb) = None"
    by (simp add: new_pdb_def new_meta_def zero_meta_def)
  have "\<exists>pdb'. mutate_pdb mem_lib (sample_tunnel ''t'')
      \<lparr>pdbs_MinAvailable = None, pdbs_MaxUnavailable = Some (IntVal 1)\<rparr> ?pdb = Ok pdb'"
    by (simp add: mutate_pdb_def own_if_new_def mem_lib_def Let_def new_pdb_def new_meta_def zero_meta_def)
  then obtain pdb' where "mutate_pdb mem_lib (sample_tunnel ''t'')
      \<lparr>pdbs_MinAvailable = None, pdbs_MaxUnavailable = Some (IntVal 1)\<rparr> ?pdb = Ok pdb'" ..
  from budget_keeps_unset_field [OF this live] this show ?thesis by auto
qed

text \<open>
  A service monitor that the operator wrote selects the service of the tunnel exactly
  when the monitor carried no label selector of its own beside the operator's three labels.
\<close>

theorem monitor_selects_service:
  assumes "mutate_service_monitor lib cf sm = Ok sm'" and "om_DeletionTimestamp (sm_Meta sm) = None"
  shows "\<exists>selector. sm_MatchLabels sm' = Some selector \<and> sm_MatchNames sm' = Some [sva_Namespace (desired_service cf owner)] \<and>
    (selects selector (sva_Labels (desired_service cf owner)) \<longleftrightarrow>
      (case sm_MatchLabels sm of None \<Rightarrow> True | Some f \<Rightarrow> dom f \<subseteq> dom (appLabels cf)))"
proof -
  have "selects (f ++ appLabels cf) (appLabels cf) \<longleftrightarrow> dom f \<subseteq> dom (appLabels cf)" for f
  proof
    assume "selects (f ++ appLabels cf) (appLabels cf)"
    then have "dom (f ++ appLabels cf) \<subseteq> dom (appLabels cf)"
      unfolding selects_def by (rule map_le_implies_dom_le)
    then show "dom f \<subseteq> dom (appLabels cf)" by simp
  next
    assume "dom f \<subseteq> dom (appLabels cf)"
    then show "selects (f ++ appLabels cf) (appLabels cf)"
      unfolding selects_def map_le_def by (auto simp: map_add_dom_app_simps)
  qed
  with mutate_service_monitor_Ok [OF assms] show ?thesis
    by (auto simp: map_set_all_def desired_service_def selects_def Let_def split: option.split)
qed

theorem monitor_selects_service_witness:
  "\<exists>sm' selector. mutate_service_monitor mem_lib (sample_tunnel ''t'') (new_service_monitor (sample_tunnel ''t'')) = Ok sm' \<and>
    sm_MatchLabels sm' = Some selector \<and> selects selector (appLabels (sample_tunnel ''t''))"
proof -
  let ?sm = "new_service_monitor (sample_tunnel ''t'')"
  have live: "om_DeletionTimestamp (sm_Meta ?sm) = None" and none: "sm_MatchLabels ?sm = None"
    by (simp_all add: new_service_monitor_def new_meta_def zero_meta_def)
  have "\<exists>sm'. mutate_service_monitor mem_lib (sample_tunnel ''t'') ?sm = Ok sm'"
    by (simp add: mutate_service_monitor_def own_if_new_def mem_lib_def Let_def new_service_monitor_def
        new_meta_def zero_meta_def)
  then obtain sm' where sm': "mutate_service_monitor mem_lib (sample_tunnel ''t'') ?sm = Ok sm'" ..
  from monitor_selects_service [OF sm' live] none sm' show ?thesis
    by (auto simp: desired_service_def Let_def)
qed

text \<open>
  Of the resource limits and requests only cpu and memory reach the pod: a given one is
  kept, a missing one becomes the zero quantity, and every other resource is dropped.
\<close>

theorem resources_cpu_memory:
  "rr_Limits (deployment_resources cf) = map_option cpu_and_memory (rr_Limits (spec_Resources (cft_Spec cf))) \<and>
   rr_Requests (deployment_resources cf) = map_option cpu_and_memory (rr_Requests (spec_Resources (cft_Spec cf))) \<and>
   cpu_and_memory rl = (\<lambda>name. if name \<in> {''cpu'', ''memory''}
     then Some (case rl name of Some q \<Rightarrow> q | None \<Rightarrow> QuantityZero) else None)"
  by (auto simp: deployment_resources_def Let_def cpu_and_memory_def quantity_or_zero_def fun_eq_iff
      split: option.split)


section \<open>The Cloudflare client\<close>

text \<open>
  C32. A successful \<^verbatim>\<open>DeleteAllDNS\<close> removes exactly the CNAME records that carry the comment
  of the tunnel, over a DNS service that behaves as documented.
\<close>

theorem delete_all_removes_own:
  assumes "dns_service (c_client c) (c_zoneID c) zone" and "zone_ok (zone (world s))"
    and "client_DeleteAllDNS c t s = (Ok (), s')"
  shows "zone (world s') = filter (\<lambda>r. \<not> (rec_Type r = ''CNAME'' \<and> rec_Comment r = own_comment t)) (zone (world s))"
proof -
  have "own_comment t \<noteq> ''''"
    by (simp add: own_comment_def json_Marshal_DNSComment_def)
  then have "listed (own_listing t) r \<longleftrightarrow> rec_Type r = ''CNAME'' \<and> rec_Comment r = own_comment t" for r
    by (auto simp: listed_def own_listing_def)
  with client_DeleteAllDNS_zone [OF assms] show ?thesis by simp
qed

theorem delete_all_removes_own_witness:
  "cl_zone (world (snd (client_DeleteAllDNS mem_client ''t'' (world sample_state)))) = [sample_record]"
proof -
  have rest: "filter (\<lambda>r. \<not> (rec_Type r = ''CNAME'' \<and> rec_Comment r = own_comment ''t'')) [sample_record] = [sample_record]"
    by (simp add: sample_record_def own_comment_def json_Marshal_DNSComment_def)
  have service: "dns_service (c_client mem_client) (c_zoneID mem_client) cl_zone"
    using mem_client_documented by (simp add: documented_service_def)
  have zone: "zone_ok (cl_zone (world (world sample_state)))"
    by (simp add: sample_state_def zone_ok_def sample_record_def)
  have run: "fst (client_DeleteAllDNS mem_client ''t'' (world sample_state)) = Ok ()"
    by (simp add: client_DeleteAllDNS_def run_defs mem_defs json_Marshal_DNSComment_def sample_state_def
        sample_record_def listed_def)
  show ?thesis
    using delete_all_removes_own [OF service zone, of "''t''" "snd (client_DeleteAllDNS mem_client ''t'' (world sample_state))"]
      run rest by (simp add: prod_eq_iff sample_state_def)
qed

text \<open>
  C33. The records of another tunnel survive it: the comment of a record determines the tunnel
  it was made for.
\<close>

theorem delete_all_keeps_others:
  assumes "dns_service (c_client c) (c_zoneID c) zone" and "zone_ok (zone (world s))"
    and "client_DeleteAllDNS c t s = (Ok (), s')"
    and "rec \<in> set (zone (world s))" and "rec_Comment rec = own_comment t'" and "t' \<noteq> t"
  shows "rec \<in> set (zone (world s'))"
  using client_DeleteAllDNS_zone [OF assms(1-3)] assms(4-6) own_comment_inj [of t' t]
  by (auto simp: listed_def own_listing_def own_comment_def json_Marshal_DNSComment_def)


theorem delete_all_keeps_others_witness:
  "sample_record\<lparr>rec_Comment := own_comment ''u''\<rparr> \<in> set (cl_zone (world (snd (client_DeleteAllDNS mem_client ''t''
     \<lparr>world = \<lparr>cl_zone = [sample_record\<lparr>rec_Comment := own_comment ''u''\<rparr>], cl_config = (\<lambda>_. empty_config)\<rparr>, trace = []\<rparr>))))"
proof -
  let ?rec = "sample_record\<lparr>rec_Comment := own_comment ''u''\<rparr>"
  let ?s = "\<lparr>world = \<lparr>cl_zone = [?rec], cl_config = (\<lambda>_. empty_config)\<rparr>, trace = []\<rparr> :: cloud client_state"
  have comment: "json_Marshal_DNSComment \<lparr>dc_ManagedBy = managedBy, dc_TunnelID = ''t''\<rparr> = Ok (own_comment ''t'')"
    by (simp add: own_comment_def json_Marshal_DNSComment_def)
  have "own_comment ''t'' \<noteq> ''''" by (simp add: own_comment_def json_Marshal_DNSComment_def)
  then have "fst (client_DeleteAllDNS mem_client ''t'' ?s) = Ok ()"
    by (simp add: client_DeleteAllDNS_def comment run_defs mem_defs listed_def own_comment_inj)
  then have run: "client_DeleteAllDNS mem_client ''t'' ?s = (Ok (), snd (client_DeleteAllDNS mem_client ''t'' ?s))"
    by (metis prod.collapse)
  have service: "dns_service (c_client mem_client) (c_zoneID mem_client) cl_zone"
    using mem_client_documented by (simp add: documented_service_def)
  have zone: "zone_ok (cl_zone (world ?s))" by (simp add: zone_ok_def sample_record_def)
  have "?rec \<in> set (cl_zone (world ?s))" "rec_Comment ?rec = own_comment ''u''" "''u'' \<noteq> ''t''" by simp_all
  from delete_all_keeps_others [OF service zone run this] show ?thesis .
qed

text \<open>
  A host whose first CNAME record already is a proxied alias of the tunnel costs one
  lookup under the lock and no write.
\<close>

theorem published_host_untouched:
  assumes "documented_service c zone config" and "r_Manager r = client_manager c"
    and "points_to (first_cname (h_Host h) (zone (world (world s)))) t"
  shows "\<exists>reply. events_of (appendDNSRecord r t h) s = [Lock, M_GetDNS t (h_Host h) reply, Unlock]"
  using client_view.appendDNS_settled [OF assms(1,2)] assms(3) by (simp add: client_view.lookup_def)

theorem published_host_untouched_witness:
  "\<exists>reply. events_of (appendDNSRecord (mem_reconciler (sample_tunnel ''t'') (sample_ingress None) no_secret) ''t''
     \<lparr>h_Host = ''a.example.com'', h_TLS = True\<rparr>)
     (sample_state\<lparr>world := \<lparr>world = \<lparr>cl_zone = [sample_record\<lparr>rec_Content := ''t.cfargotunnel.com''\<rparr>],
       cl_config = (\<lambda>_. empty_config)\<rparr>, trace = []\<rparr>\<rparr>) = [Lock, M_GetDNS ''t'' ''a.example.com'' reply, Unlock]"
  using published_host_untouched [OF mem_client_documented mem_reconciler_parts(1),
      where h = "\<lparr>h_Host = ''a.example.com'', h_TLS = True\<rparr>" and t = "''t''"
      and s = "sample_state\<lparr>world := \<lparr>world = \<lparr>cl_zone = [sample_record\<lparr>rec_Content := ''t.cfargotunnel.com''\<rparr>],
        cl_config = (\<lambda>_. empty_config)\<rparr>, trace = []\<rparr>\<rparr>"]
  by (simp add: first_cname_def cname_matches_def points_to_def tunnel_target_def sample_record_def)



text \<open>
  C35. The secret a new tunnel is created with has 32 characters, all of them letters and
  digits, whatever bytes the system's random source delivers.
\<close>

theorem tunnel_secret_alphanumeric:
  assumes "c_random c = random_SecureString rand_Read"
    and "A_CreateTunnel rc params reply \<in> set (events_of (client_CreateTunnel c name) s)"
  shows "length (tcp_Secret params) = 32 \<and> set (tcp_Secret params) \<subseteq> set Alphanumeric \<and>
    tcp_Name params = name \<and> rc = AccountIdentifier (c_accountId c)"
proof -
  have "secret_source (c_random c)"
    unfolding assms(1) by (rule secure.secret_source_axioms)
  from tracesD [OF traces_client_CreateTunnel [OF this], of name s] assms(2) show ?thesis by blast
qed

theorem tunnel_secret_alphanumeric_witness:
  "\<exists>rc params reply. A_CreateTunnel rc params reply \<in> set (events_of (client_CreateTunnel
      (mem_client\<lparr>c_random := random_SecureString (\<lambda>n w. (Ok [7], w))\<rparr>) ''name'') (world sample_state)) \<and>
    length (tcp_Secret params) = 32"
proof -
  let ?c = "mem_client\<lparr>c_random := random_SecureString (\<lambda>n w. (Ok [7], w))\<rparr>"
  have secret: "random_SecureString (\<lambda>n w. (Ok [7], w)) 32 Alphanumeric w =
      (Ok (map (\<lambda>v. Alphanumeric ! (v mod 62)) (fill_slice 32 [7])), w)" for w :: cloud
    by (simp add: random_SecureString_def run_defs secure_loop_ascii)
  have "\<exists>rc params reply. A_CreateTunnel rc params reply \<in> set (events_of (client_CreateTunnel ?c ''name'') (world sample_state))"
    by (simp add: events_of_def client_CreateTunnel_def secret run_defs mem_client_def mem_api_def sample_state_def)
  then obtain rc params reply where
    "A_CreateTunnel rc params reply \<in> set (events_of (client_CreateTunnel ?c ''name'') (world sample_state))" by blast
  moreover from tunnel_secret_alphanumeric [OF _ this, of "\<lambda>n w. (Ok [7], w)"] have "length (tcp_Secret params) = 32"
    by simp
  ultimately show ?thesis by blast
qed


text \<open>
  The secret's characters are not equally likely: of the 256 values of a random byte,
  five give each of the first eight characters of the alphabet and four each of the others.
\<close>

theorem secret_char_frequency:
  assumes "i < length Alphanumeric"
  shows "card {b. b < 256 \<and> secure_loop Alphanumeric [b] '''' = Ok [Alphanumeric ! i]} = (if i < 8 then 5 else 4)"
proof -
  have "secure_loop Alphanumeric [b] '''' = Ok [Alphanumeric ! i] \<longleftrightarrow> b mod 62 = i" for b
    using assms nth_eq_iff_index_eq [OF distinct_Alphanumeric, of "b mod 62" i]
    by (simp add: secure_loop_ascii del: secure_loop.simps)
  with assms show ?thesis by (simp add: card_bytes_hitting del: secure_loop.simps)
qed

theorem secret_char_frequency_witness:
  "card {b. b < 256 \<and> secure_loop Alphanumeric [b] '''' = Ok [Alphanumeric ! 0]} = 5"
  using secret_char_frequency [of 0] by (simp del: secure_loop.simps)

section \<open>Concurrent ingress reconciliations\<close>

text \<open>
  C8. Ingress reconciliations that run at the same time are serializable: when all threads of a
  pool have finished, in whatever order their calls were interleaved, the state of the world
  and the history of calls are those of running the locked functions of the code one after
  the other, in the order in which they took the mutex, each thread's in its program order up
  to its first failure.
\<close>

theorem concurrent_serializable:
  assumes "pool_reach True r (start_pool s progs) es p" and "finished p"
  shows "p_Sys p = snd (serial r es s) \<and> outs_ok (p_Threads p) (fst (serial r es s)) \<and>
    (\<forall>i < length progs. (\<exists>rest. progs ! i = taken i es @ rest) \<and>
      (th_Result (p_Threads p ! i) = Ok () \<longrightarrow> progs ! i = taken i es))"
  using pool_serializable [OF assms] by blast

theorem concurrent_serializable_witness:
  "\<exists>es p. pool_reach True (mem_reconciler (sample_tunnel ''t'') (sample_ingress None) no_secret)
      (start_pool sample_state two_programs) es p \<and> finished p \<and>
    p_Sys p = snd (serial (mem_reconciler (sample_tunnel ''t'') (sample_ingress None) no_secret) es sample_state)"
  using sample_pool concurrent_serializable by blast

text \<open>
  C11. A pool cannot get stuck: in every reachable state an unfinished pool has a thread that can
  step, and some continuation finishes all threads.
\<close>

theorem concurrent_progress:
  assumes "pool_reach True r (start_pool s progs) es p"
  shows "(\<exists>es' p'. pool_reach True r (start_pool s progs) (es @ es') p' \<and> finished p') \<and>
    (finished p \<or> (\<exists>i step. pool_step True r i p = Some step))"
  using pool_reach_finishes [OF assms] pool_no_deadlock [OF pool_inv_reach [OF assms]] by blast

theorem concurrent_progress_witness:
  "\<exists>es' p'. pool_reach True (mem_reconciler (sample_tunnel ''t'') (sample_ingress None) no_secret)
     (start_pool sample_state two_appends) es' p' \<and> finished p'"
  using concurrent_progress [OF pool_reach.start, of "mem_reconciler (sample_tunnel ''t'') (sample_ingress None) no_secret"
      sample_state two_appends] by auto


text \<open>
  C9. Ingresses of one tunnel that name different hosts may be reconciled at the same time: when
  all reconciliations succeeded over a service that behaves as documented, the rule and the
  record of every host of every ingress that is not ignored are in place, whatever the
  interleaving. No update of the shared configuration is lost.
\<close>

theorem concurrent_publishes:
  fixes r :: "'w client_state reconciler"
  assumes "documented_service c zone config" and "r_Manager r = client_manager c" and "enumerates (r_MapValues r)"
    and "zone_ok (zone (world (world s)))"
    and "\<And>j. j < length jobs \<Longrightarrow> '''' \<notin> set (ing_Rules (fst (jobs ! j)))"
    and "\<And>i j. i < length jobs \<Longrightarrow> j < length jobs \<Longrightarrow> i \<noteq> j \<Longrightarrow>
      set (ing_Rules (fst (jobs ! i))) \<inter> set (ing_Rules (fst (jobs ! j))) = {}"
    and "pool_reach True r (start_pool s (map (\<lambda>(ing, ip). sync_operations t ts ip ing) jobs)) es p"
    and "finished p" and "\<forall>th \<in> set (p_Threads p). th_Result th = Ok ()"
    and "i < length jobs" and "jobs ! i = (ing, ip)" and "\<not> checkToBeIgnored (om_Annotations (ing_Meta ing))"
  shows "published ts ip t (getHosts ing) (config (world (world (p_Sys p))) t) (zone (world (world (p_Sys p))))"
  using client_view.pool_publishes [OF assms] by simp

theorem concurrent_publishes_witness:
  "\<exists>es p. pool_reach True (mem_reconciler (sample_tunnel ''t'') (sample_ingress None) no_secret)
      (start_pool sample_state two_programs) es p \<and> finished p \<and>
    published sample_settings (Addr4 10 0 0 1) ''t'' [\<lparr>h_Host = ''a.example.com'', h_TLS = True\<rparr>]
      (cl_config (world (world (p_Sys p))) ''t'') (cl_zone (world (world (p_Sys p))))"
proof -
  obtain es p where pool: "pool_reach True (mem_reconciler (sample_tunnel ''t'') (sample_ingress None) no_secret)
      (start_pool sample_state two_programs) es p" "finished p" "\<forall>th \<in> set (p_Threads p). th_Result th = Ok ()"
    using sample_pool by blast
  have "zone_ok (cl_zone (world (world sample_state)))"
    by (simp add: sample_state_def zone_ok_def sample_record_def)
  from concurrent_publishes [OF mem_client_documented mem_reconciler_parts(1,3) this two_jobs_named two_jobs_disjoint
      pool(1) [unfolded two_programs_def] pool(2,3) two_jobs_first sample_shown] pool
  show ?thesis by (auto simp: sample_hosts)
qed


section \<open>The controllers together\<close>

text \<open>
  C10. Deleting a tunnel leaves no record behind: start from a zone where every alias of a tunnel
  carries the comment of that tunnel, let any number of ingress reconciliations for any tunnels
  run in any interleaving, all successful, then reconcile a deleted tunnel resource successfully.
  No record of the zone points to the deleted tunnel any more, and the aliases of every other
  tunnel are still there.
\<close>

theorem deletion_leaves_no_alias:
  fixes r :: "'w client_state reconciler"
  assumes "documented_service c zone config" and "r_Manager r = client_manager c"
    and "tidy own_mark (zone (world (world s)))" and "calm r (\<lambda>w. zone (world w))"
    and "pool_reach True r (start_pool s progs) es p" and "finished p" and "\<forall>th \<in> set (p_Threads p). th_Result th = Ok ()"
    and "k_Get_CloudflareTunnel (r_Client r) key (world (p_Sys p)) = (Ok cf, w)"
    and "zone (world w) = zone (world (world (p_Sys p)))"
    and "om_DeletionTimestamp (cft_Meta cf) \<noteq> None" and "ContainsFinalizer (r_Lib r) (cft_Meta cf) finalizerName"
    and "tunnel_Reconcile r key (p_Sys p) = (Ok (res, None), s')"
  shows "(\<forall>rec \<in> set (zone (world (world s'))). \<not> alias_of (cft_TunnelID cf) rec) \<and>
    (\<forall>t rec. rec \<in> set (zone (world (world (p_Sys p)))) \<and> alias_of t rec \<and> t \<noteq> cft_TunnelID cf \<longrightarrow>
      rec \<in> set (zone (world (world s'))))"
  by (rule client_owner.deletion_aliases [OF assms])

theorem deletion_leaves_no_alias_witness:
  "\<exists>es p s'. pool_reach True (mem_reconciler deleted_tunnel (sample_ingress None) no_secret)
      (start_pool sample_state two_programs) es p \<and>
    tunnel_Reconcile (mem_reconciler deleted_tunnel (sample_ingress None) no_secret) sample_key (p_Sys p)
      = (Ok (zero_Result, None), s') \<and>
    (\<forall>rec \<in> set (cl_zone (world (world s'))). \<not> alias_of ''t'' rec)"
proof -
  let ?r = "mem_reconciler deleted_tunnel (sample_ingress None) no_secret"
  obtain es p where pool: "pool_reach True ?r (start_pool sample_state two_programs) es p" "finished p"
      "\<forall>th \<in> set (p_Threads p). th_Result th = Ok ()"
    using sample_pool by blast
  obtain s' where run: "tunnel_Reconcile ?r sample_key (p_Sys p) = (Ok (zero_Result, None), s')" using deletion_run by blast
  have get: "k_Get_CloudflareTunnel (r_Client ?r) sample_key (world (p_Sys p)) = (Ok deleted_tunnel, world (p_Sys p))"
    by (simp add: mem_defs)
  from deletion_leaves_no_alias [OF mem_client_documented mem_reconciler_parts(1) sample_tidy mem_calm pool get refl _ _ run]
  have "\<forall>rec \<in> set (cl_zone (world (world s'))). \<not> alias_of ''t'' rec" by (simp add: deleted_tunnel_parts)
  with pool(1) run show ?thesis by blast
qed


section \<open>The entry point\<close>

text \<open>
  C36. \<^verbatim>\<open>main\<close> sets the process up in a fixed order and stops at the first failing step: the calls
  of a run follow the plan (the logger in three libraries, environment, kubeconfig, manager,
  client, the tunnel and the ingress controller, the webhook exactly when it is enabled, the two
  checks, start), all but the last succeeded, and the process exits with the message of the
  failing step or returns from a manager that stopped cleanly. The loggers and the manager get the
  options the flags say, and both controllers run on the one Cloudflare client that is made of
  the parsed configuration.
\<close>

theorem main_setup_order: "main_events b f (events_of (main_run b f) s) (fst (main_run b f s))"
  by (rule tracesD [OF traces_main])

text \<open>
  Unless HTTP/2 is asked for, the webhook and the metrics server offer HTTP/1.1 alone,
  whatever they offered before; the metrics are behind authentication exactly when they are
  served securely, and both are the default.
\<close>

theorem servers_protected:
  "(let opts = manager_options_of f; proto = (if enableHTTP2 f then tls_NextProtos c else [''http/1.1'']) in
     tls_NextProtos (apply_tls (mg_WebhookTLSOpts opts) c) = proto \<and>
     tls_NextProtos (apply_tls (mo_TLSOpts (mg_Metrics opts)) c) = proto \<and>
     mo_Authenticated (mg_Metrics opts) = mo_SecureServing (mg_Metrics opts) \<and>
     mo_SecureServing (mg_Metrics opts) = secureMetrics f) \<and>
   \<not> enableHTTP2 default_flags \<and> secureMetrics default_flags"
  by (simp add: manager_options_of_def metrics_server_options_def apply_tls_options default_flags_def Let_def)

section \<open>Inputs\<close>

text \<open>
  A tunnel annotation that is present names the tunnel \<open>n\<close> exactly when it is the
  namespace, a slash and the name, with no slash in either; anything else is an error.
\<close>

theorem annotation_names_tunnel:
  assumes "map_index annotations cfTunnelAnnotation \<noteq> ''''"
  shows "(detectCloudflareTunnelName annotations = Ok n \<longleftrightarrow>
      map_index annotations cfTunnelAnnotation = nn_Namespace n @ ''/'' @ nn_Name n \<and>
      CHR ''/'' \<notin> set (nn_Namespace n) \<and> CHR ''/'' \<notin> set (nn_Name n)) \<and>
    ((\<exists>e. detectCloudflareTunnelName annotations = Err e) \<longleftrightarrow>
      count_list (map_index annotations cfTunnelAnnotation) (CHR ''/'') \<noteq> 1)"
  using detect_iff [OF assms] detect_error_iff assms by blast

theorem annotation_names_tunnel_witness:
  "detectCloudflareTunnelName (Some [cfTunnelAnnotation \<mapsto> ''default/sample'']) = Ok sample_key"
  using annotation_names_tunnel [of "Some [cfTunnelAnnotation \<mapsto> ''default/sample'']" sample_key]
  by (simp add: map_index_def sample_key_def)

text \<open>
  The service endpoint of a load balancer determines it: between the scheme and the port
  stands a text that \<^verbatim>\<open>netip\<close> reads back as the IPv4 address, so two endpoints are equal exactly
  when the addresses and the TLS flags are.
\<close>

theorem endpoint_roundtrip:
  "(\<exists>text. createEndpoint (Addr4 a b c d) tls =
      (if tls then ''https://'' @ text @ '':443'' else ''http://'' @ text @ '':80'') \<and>
    ParseAddr text = Ok (Addr4 a b c d)) \<and>
   (createEndpoint (Addr4 a b c d) tls = createEndpoint (Addr4 a' b' c' d') tls' \<longleftrightarrow>
    Addr4 a b c d = Addr4 a' b' c' d' \<and> tls = tls')"
  by (intro conjI exI [of _ "String (Addr4 a b c d)"] createEndpoint_text ParseAddr_String4 createEndpoint_eq_iff)

text \<open>
  The durations of the settings never overflow: every 32-bit number of seconds becomes
  exactly that many nanoseconds in 64 bits; the connection count keeps its value and the host
  name is used for the host header and the server name.
\<close>

theorem origin_durations_exact:
  "map_option sint (orc_TLSTimeout (ToOriginRequestConfig ts h)) = Some (sint (TLSTimeoutSeconds ts) * 1000000000) \<and>
   map_option sint (orc_ConnectTimeout (ToOriginRequestConfig ts h)) = Some (sint (ConnectTimeoutSeconds ts) * 1000000000) \<and>
   map_option sint (orc_KeepAliveTimeout (ToOriginRequestConfig ts h)) = Some (sint (KeepAliveTimeoutSeconds ts) * 1000000000) \<and>
   map_option sint (orc_KeepAliveConnections (ToOriginRequestConfig ts h)) = Some (sint (KeepAliveConnections ts)) \<and>
   orc_HTTPHostHeader (ToOriginRequestConfig ts h) = Some h \<and> orc_OriginServerName (ToOriginRequestConfig ts h) = Some h"
  by (simp add: ToOriginRequestConfig_def seconds_duration_exact sint_scast_int32)

section \<open>The webhook\<close>


text \<open>
  The defaulter sets one label and changes nothing else; the label reads \<^verbatim>\<open>true\<close>, the value
  the operator selects default tunnels by, exactly for a default tunnel.
\<close>

theorem default_label:
  "\<exists>cf'. Default (RO_CloudflareTunnel cf) = Ok cf' \<and> cft_Spec cf' = cft_Spec cf \<and> cft_Status cf' = cft_Status cf \<and>
     (map_index (om_Labels (cft_Meta cf')) DefaultLabelKey = ''true'' \<longleftrightarrow> spec_Default (cft_Spec cf)) \<and>
     map_get (om_Labels (cft_Meta cf')) =
       (map_get (om_Labels (cft_Meta cf)))(DefaultLabelKey \<mapsto> strconv_FormatBool (spec_Default (cft_Spec cf)))"
  by (auto simp: map_get_set_all map_index_def strconv_FormatBool_def fun_eq_iff)

section \<open>Deep copies\<close>

text \<open>
  C37. A deep copy of a cached tunnel is the same value in memory of its own: whatever the memory,
  provided the apply configurations of the tunnel survive JSON and the library's copies are deep,
  \<^verbatim>\<open>DeepCopyObject\<close> returns a pointer to an equal tunnel, the original keeps its value, the two
  reach no common address, and no write through one is seen through the other.
\<close>

theorem tunnel_copy_isolated:
  assumes "kubernetes_copies lib xview xowned" and "mem_ok m"
    and "tunnel_at xview m (Some a) = Some (Some v)" and "tunnel_faithful js v"
  shows "\<exists>b m'. Tunnel_DeepCopyObject lib js (Some a) m = (Ok (Some b), m') \<and>
    tunnel_at xview m' (Some b) = Some (Some v) \<and> tunnel_at xview m' (Some a) = Some (Some v) \<and>
    tunnel_reach xowned m' (Some a) \<inter> tunnel_reach xowned m' (Some b) = {} \<and>
    (\<forall>e \<in> tunnel_reach xowned m' (Some b). \<forall>c. tunnel_at xview (write_cell e c m') (Some a) = Some (Some v)) \<and>
    (\<forall>e \<in> tunnel_reach xowned m' (Some a). \<forall>c. tunnel_at xview (write_cell e c m') (Some b) = Some (Some v))"
  using kubernetes_copies.tunnel_object_isolated [OF assms] .

theorem tunnel_copy_isolated_witness:
  "\<exists>b m' v. Tunnel_DeepCopyObject kube_library sample_codecs (Some 0) sample_memory = (Ok (Some b), m') \<and>
    tunnel_at kube_view m' (Some b) = Some (Some v) \<and> fst v = \<lparr>tm_Kind = ''CloudflareTunnel'', tm_APIVersion = ''v1beta1''\<rparr>"
  using tunnel_copy_isolated [OF kube.kubernetes_copies_axioms sample_memory_ok sample_tunnel_at sample_faithful]
  by (auto simp: sample_value_def)



text \<open>
  \<^verbatim>\<open>Ref\<close> protects the slice of the resource, not its elements: the returned slice denotes the
  same list and no write to its array is seen by the original, but the elements are shared.
\<close>

theorem env_ref_aliases:
  assumes "mem_ok m" and "cells m a = Some (PointersCell ps)"
    and "elems_view (at_type the_env EnvVarCell) m ps = Some vs"
  shows "\<exists>b m'. EnvVars_Ref (Some a) m = (Ok (Some b), m') \<and> b \<noteq> a \<and>
    slice_view pointers_of (at_type the_env EnvVarCell) m' (Some b) = Some (Some vs) \<and>
    slice_owned pointers_of m' (Some b) \<inter> slice_owned pointers_of m' (Some a) = elems_owned ps \<and>
    (\<forall>c. slice_view pointers_of (at_type the_env EnvVarCell) (write_cell b c m') (Some a) = Some (Some vs))"
  using env_ref_shares [OF assms] .

theorem env_ref_aliases_witness:
  "\<exists>b m'. EnvVars_Ref (Some 0) variable_memory = (Ok (Some b), m') \<and>
    slice_owned pointers_of m' (Some b) \<inter> slice_owned pointers_of m' (Some 0) = {1}"
  using env_ref_aliases [OF variable_memory_ok, of 0 "[Some 1, None]" "[Some one_variable, None]"]
  by (auto simp: variable_memory_def leaf_view_def at_type_def elems_owned_def)

text \<open>The list of tunnels is copied as deeply.\<close>

theorem tunnel_list_copy_isolated:
  assumes "kubernetes_copies lib xview xowned" and "mem_ok m"
    and "list_at xview m (Some a) = Some (Some v)" and "tunnels_faithful js v"
  shows "\<exists>b m'. List_DeepCopyObject lib js (Some a) m = (Ok (Some b), m') \<and>
    list_at xview m' (Some b) = Some (Some v) \<and> list_at xview m' (Some a) = Some (Some v) \<and>
    list_reach xowned m' (Some a) \<inter> list_reach xowned m' (Some b) = {} \<and>
    (\<forall>e \<in> list_reach xowned m' (Some b). \<forall>c. list_at xview (write_cell e c m') (Some a) = Some (Some v)) \<and>
    (\<forall>e \<in> list_reach xowned m' (Some a). \<forall>c. list_at xview (write_cell e c m') (Some b) = Some (Some v))"
  using kubernetes_copies.list_object_isolated [OF assms] .

section \<open>The matcher of the tests\<close>

text \<open>
  C39. \<^verbatim>\<open>HaveFields\<close> matches an object exactly when every field the expected object sets has the
  same value in it: fields at their zero value, creation times included, are not compared. Over
  a merge and an equality that behave as documented, on objects seen through their leaf fields.
\<close>

theorem have_fields_iff:
  assumes "documented_merge lib zero view" and "documented_equal lib"
    and "type_assert lib actual = Some t" and "Match lib (HaveFields v) actual = Ok b"
  shows "b \<longleftrightarrow> (\<forall>f. is_set zero (view v f) \<longrightarrow> view v f = view t f)"
  by (rule Match_iff [OF assms])

theorem have_fields_iff_witness:
  "Match pair_lib (HaveFields (''a'', None)) (''a'', Some ''now'') = Ok True \<and>
   is_set '''' (pair_view (''a'', None) False) \<and>
   pair_view (''a'', None) False = pair_view (''a'', Some ''now'') False"
proof -
  have run: "Match pair_lib (HaveFields (''a'', None)) (''a'', Some ''now'') = Ok True"
    by (simp add: Match_def merged_def HaveFields_def pair_lib_def timeTransformer_def time_IsZero_def Let_def)
  have "type_assert pair_lib (''a'', Some ''now'') = Some (''a'', Some ''now'')" by (simp add: pair_lib_def)
  from have_fields_iff [OF pair_documented this run]
  have "is_set '''' (pair_view (''a'', None) False) \<Longrightarrow>
      pair_view (''a'', None) False = pair_view (''a'', Some ''now'') False" by blast
  with run show ?thesis by (simp add: pair_view_def)
qed

section \<open>The logger\<close>

text \<open>
  The logger accepts every flag: a valid pair prints no warning, an unknown level counts
  as info; debug records are printed, with their source, exactly for the level \<^verbatim>\<open>debug\<close> in any
  case, and error records always.
\<close>

theorem logger_total:
  "enabled (fst (createLogger level typ)) LevelError \<and>
   (enabled (fst (createLogger level typ)) LevelDebug \<longleftrightarrow> strings_ToLower level = ''debug'') \<and>
   lo_AddSource (fst (createLogger level typ)) = enabled (fst (createLogger level typ)) LevelDebug \<and>
   (snd (createLogger level typ) = [] \<longleftrightarrow>
     strings_ToLower level \<in> {''debug'', ''info'', ''warn'', ''error''} \<and> strings_ToLower typ \<in> {''json'', ''text''})"
  using createLogger_error createLogger_debug_iff createLogger_source
  by (auto simp: createLogger_def parse_level_def parse_type_def Let_def)

end
